theory Spec2Isabelle
  imports Complex_Main "HOL-Library.AList"
begin

section \<open>JavaScript values used by the viewers\<close>

text \<open>
  Identifiers of model entities are strings. A JavaScript \<open>Map\<close> keeps its keys in
  insertion order: it is an association list, written with \<open>AList.update\<close> (replace in
  place, or append) and \<open>AList.delete\<close>.
\<close>

type_synonym ident = string

text \<open>
  A JavaScript number that may fail to be finite: \<open>x / 0\<close> is an infinity or
  \<open>NaN\<close>. Finite numbers are real numbers here; rounding is not modelled.
\<close>

datatype jsnum = Num real | Inf | NaN

fun truthy_num :: "jsnum \<Rightarrow> bool" where
  "truthy_num (Num r) = (r \<noteq> 0)"
| "truthy_num Inf = True"
| "truthy_num NaN = False"

text \<open>
  The start of a timeline item is the \<open>timeslot\<close> of its spatial group. The class
  \<open>spatialGroup\<close> is not part of the sources read here, so both representations the
  timeline accepts are kept: a date object (always truthy) and a number of milliseconds
  (falsy when it is 0).
\<close>

datatype timeval = DateObj int | NumMs int

fun ms :: "timeval \<Rightarrow> int" where
  "ms (DateObj t) = t"
| "ms (NumMs t) = t"

fun truthy_time :: "timeval \<Rightarrow> bool" where
  "truthy_time (DateObj t) = True"
| "truthy_time (NumMs t) = (t \<noteq> 0)"

text \<open>
  \<open>new Date(x)\<close> for a number \<open>x\<close>: the time value is clipped; outside the range of
  dates, or when \<open>x\<close> is not finite, the date is invalid (\<open>None\<close>).
\<close>

definition trunc :: "real \<Rightarrow> int" where
  "trunc x = (if 0 \<le> x then \<lfloor>x\<rfloor> else \<lceil>x\<rceil>)"

definition newDate :: "jsnum \<Rightarrow> int option" where
  "newDate x = (case x of
      Num r \<Rightarrow> (if \<bar>r\<bar> \<le> 8640000000000000 then Some (trunc r) else None)
    | Inf \<Rightarrow> None
    | NaN \<Rightarrow> None)"

text \<open>\<open>moment(a).isSame(moment(b))\<close>: false as soon as one of the two dates is invalid.\<close>

fun isSame :: "int option \<Rightarrow> int option \<Rightarrow> bool" where
  "isSame (Some a) (Some b) = (a = b)"
| "isSame _ _ = False"

text \<open>\<open>new Set(val)\<close> iterates its elements in the order of their first insertion.\<close>

fun newSet :: "'a list \<Rightarrow> 'a list" where
  "newSet [] = []"
| "newSet (x # xs) = x # filter (\<lambda>y. y \<noteq> x) (newSet xs)"

section \<open>Timeline: items, range items and groups\<close>

record item =
  item_group :: ident
  item_id :: ident
  item_title :: string
  item_content :: string
  item_start :: timeval
  item_spatialGroup :: ident

record rangeItem =
  ri_items :: "item list"
  ri_group :: ident
  ri_id :: ident
  ri_title :: string
  ri_content :: string
  ri_start :: timeval
  ri_end :: timeval
  ri_type :: string

text \<open>
  The constructor of \<open>rangeItem\<close> reads \<open>items[0]\<close> and the last element; it is given
  here the first element and the rest, so that the array is never empty (its only caller
  passes three elements or more).
\<close>

definition rangeItem_new :: "item \<Rightarrow> item list \<Rightarrow> rangeItem" where
  "rangeItem_new first rest =
     (let lastItem = last (first # rest);
          text = item_content first @ '' - '' @ item_content lastItem
      in \<lparr> ri_items = first # rest,
           ri_group = item_group first,
           ri_id = item_id first @ ''-'' @ item_id lastItem,
           ri_title = text,
           ri_content = text,
           ri_start = item_start first,
           ri_end = item_start lastItem,
           ri_type = ''range'' \<rparr>)"

datatype tl_entry = Item item | RangeItem rangeItem

record group =
  group_id :: ident
  group_title :: string
  group_content :: string
  group_nestedGroups :: "ident list option"
  group_treeLevel :: nat
  group_nestedInGroup :: "ident option"

text \<open>
  The model objects (classes \<open>spatialGroup\<close> and \<open>temporalGroup\<close>) are read through their
  identifiers: \<open>g_superGroup\<close> is the field \<open>superGroup\<close>, \<open>g_children\<close> the order in
  which \<open>temporalGroup.forEach\<close> visits the sub groups, \<open>g_multiselect\<close> the result of
  \<open>isMultiselect()\<close>, \<open>g_depth\<close> the result of \<open>getDepth()\<close>.
\<close>

record graph =
  g_superGroup :: "ident \<Rightarrow> ident option"
  g_name :: "ident \<Rightarrow> string"
  g_description :: "ident \<Rightarrow> string"
  g_timeslot :: "ident \<Rightarrow> timeval"
  g_multiselect :: "ident \<Rightarrow> bool"
  g_children :: "ident \<Rightarrow> ident list"
  g_depth :: "ident \<Rightarrow> nat"

datatype action = CREATE | DELETE | CLICK | SELECT | DESELECT

datatype tl_event = ItemEvent action ident | GroupEvent action ident

text \<open>Calls made on the rendering library, in order.\<close>

datatype tl_call =
    SetItems "tl_entry list"
  | SetSelection "ident list"
  | SetGroups "group list"

text \<open>What the collaborators answer during one call of the viewer.\<close>

record env =
  dom_width :: real
  win_start :: int
  win_end :: int
  mppCache :: "jsnum option"
  aggregateItems :: bool
  settings_selections :: "ident list"

text \<open>
  The state of a \<open>timelineViewer\<close>, with the back references \<open>g.item\<close> and \<open>g.group\<close>
  that the viewer writes on the model objects, the events it has emitted, the calls it
  has made on the timeline and the number of refreshes it has deferred with
  \<open>setTimeout\<close>.
\<close>

record tv =
  tv_items :: "(ident \<times> item) list"
  tv_groups :: "(ident \<times> group) list"
  tv_start :: "int option"
  tv_end :: "int option"
  tv_width :: real
  tv_selections :: "(ident \<times> item) list"
  sg_item :: "ident \<rightharpoonup> item"
  tg_group :: "ident \<rightharpoonup> group"
  tv_emitted :: "tl_event list"
  tv_calls :: "tl_call list"
  tv_deferred :: nat

definition emit :: "tl_event \<Rightarrow> tv \<Rightarrow> tv" where
  "emit ev s = s\<lparr> tv_emitted := tv_emitted s @ [ev] \<rparr>"

definition getItem :: "tv \<Rightarrow> ident \<Rightarrow> item option" where
  "getItem s i = map_of (tv_items s) i"

definition getGroup :: "tv \<Rightarrow> ident \<Rightarrow> group option" where
  "getGroup s g = map_of (tv_groups s) g"

definition getSelectionsIds :: "tv \<Rightarrow> ident list" where
  "getSelectionsIds s = map fst (tv_selections s)"

definition isSelected :: "tv \<Rightarrow> item option \<Rightarrow> bool" where
  "isSelected s i = (case i of None \<Rightarrow> False | Some it \<Rightarrow> map_of (tv_selections s) (item_id it) \<noteq> None)"

definition refreshSelections :: "tv \<Rightarrow> tv" where
  "refreshSelections s = s\<lparr> tv_calls := tv_calls s @ [SetSelection (map fst (tv_selections s))] \<rparr>"

definition refreshGroups :: "tv \<Rightarrow> tv" where
  "refreshGroups s = s\<lparr> tv_calls := tv_calls s @ [SetGroups (map snd (tv_groups s))] \<rparr>"

subsection \<open>refreshItems\<close>

definition itemWidth :: real where
  "itemWidth = 160"

definition millisecondsPerPixel :: "env \<Rightarrow> jsnum" where
  "millisecondsPerPixel e =
     (case mppCache e of
        Some c \<Rightarrow> (if truthy_num c then c else
           (if dom_width e = 0 then (if win_end e - win_start e = 0 then NaN else Inf)
            else Num (real_of_int (win_end e - win_start e) / dom_width e)))
      | None \<Rightarrow>
           (if dom_width e = 0 then (if win_end e - win_start e = 0 then NaN else Inf)
            else Num (real_of_int (win_end e - win_start e) / dom_width e)))"

text \<open>
  \<open>criticalDuration\<close> is only compared with the gaps of visible items, and no item is
  visible when the scale is not finite (the window start is then an invalid date): the
  value 0 stands for the unused number.
\<close>

definition criticalDuration :: "env \<Rightarrow> real" where
  "criticalDuration e =
     (case millisecondsPerPixel e of Num m \<Rightarrow> m * itemWidth / 2 | Inf \<Rightarrow> 0 | NaN \<Rightarrow> 0)"

definition windowStart :: "env \<Rightarrow> int option" where
  "windowStart e =
     newDate (case millisecondsPerPixel e of
                Num m \<Rightarrow> Num (real_of_int (win_start e) - itemWidth * m)
              | Inf \<Rightarrow> Inf
              | NaN \<Rightarrow> NaN)"

definition unchanged :: "bool \<Rightarrow> env \<Rightarrow> tv \<Rightarrow> bool" where
  "unchanged force e s =
     (\<not> force \<and> dom_width e = tv_width s
      \<and> isSame (windowStart e) (tv_start s)
      \<and> isSame (Some (win_end e)) (tv_end s))"

definition visible :: "int option \<Rightarrow> int \<Rightarrow> item \<Rightarrow> bool" where
  "visible start end' i =
     (case start of None \<Rightarrow> False
      | Some st \<Rightarrow> st \<le> ms (item_start i) \<and> ms (item_start i) \<le> end')"

fun processArray :: "item list \<Rightarrow> tl_entry list \<Rightarrow> tl_entry list" where
  "processArray [] out = out"
| "processArray [a] out = out @ [Item a]"
| "processArray [a, b] out = out @ [Item a, Item b]"
| "processArray (a # b # c # r) out = out @ [RangeItem (rangeItem_new a (b # c # r))]"

text \<open>
  The members of one row: the sub groups of the temporal group, in the order of
  \<open>forEach\<close>, that have an item which is visible.
\<close>

definition groupItems :: "graph \<Rightarrow> tv \<Rightarrow> int option \<Rightarrow> int \<Rightarrow> ident \<Rightarrow> item list" where
  "groupItems gr s start end' tg =
     concat (map (\<lambda>g. case getItem s g of
                          None \<Rightarrow> []
                        | Some i \<Rightarrow> (if visible start end' i then [i] else []))
                 (g_children gr tg))"

text \<open>
  One turn of the loop over the sorted items of a row. The state is \<open>itemArray\<close>,
  \<open>latestStart\<close> (\<open>None\<close> is \<open>null\<close>) and the array \<open>items\<close> of the results;
  \<open>itemArray[0] = i\<close> is \<open>setFirst\<close>.
\<close>

definition setFirst :: "item \<Rightarrow> item list \<Rightarrow> item list" where
  "setFirst i itemArray = (case itemArray of [] \<Rightarrow> [i] | x # rest \<Rightarrow> i # rest)"

fun walkStep :: "real \<Rightarrow> item \<Rightarrow> item list \<times> timeval option \<times> tl_entry list
    \<Rightarrow> item list \<times> timeval option \<times> tl_entry list" where
  "walkStep crit i (itemArray, None, out) =
     (setFirst i itemArray, Some (item_start i), out)"
| "walkStep crit i (itemArray, Some latestStart, out) =
     (if truthy_time latestStart
      then (if real_of_int (ms (item_start i) - ms latestStart) < crit
            then (itemArray @ [i], Some (item_start i), out)
            else ([i], Some (item_start i), processArray itemArray out))
      else (setFirst i itemArray, Some (item_start i), out))"

definition aggregateRow :: "real \<Rightarrow> item list \<Rightarrow> tl_entry list \<Rightarrow> tl_entry list" where
  "aggregateRow crit groupItems' out =
     (case fold (walkStep crit) (sort_key (\<lambda>i. ms (item_start i)) groupItems') ([], None, out) of
        (itemArray, latestStart, out') \<Rightarrow> processArray itemArray out')"

definition aggregate :: "graph \<Rightarrow> env \<Rightarrow> tv \<Rightarrow> tl_entry list" where
  "aggregate gr e s =
     fold (\<lambda>(k, g) out.
             aggregateRow (criticalDuration e)
               (groupItems gr s (windowStart e) (win_end e) (group_id g)) out)
          (tv_groups s) []"

definition setItems :: "tl_entry list \<Rightarrow> tv \<Rightarrow> tv" where
  "setItems xs s = s\<lparr> tv_calls := tv_calls s @ [SetItems xs] \<rparr>"

definition refreshItems :: "bool \<Rightarrow> graph \<Rightarrow> env \<Rightarrow> tv \<Rightarrow> tv" where
  "refreshItems force gr e s =
     (if unchanged force e s then s
      else
        (let s1 = s\<lparr> tv_width := dom_width e, tv_start := windowStart e,
                     tv_end := Some (win_end e) \<rparr>;
             s2 = (if aggregateItems e then setItems (aggregate gr e s1) s1
                   else setItems (map (\<lambda>(k, i). Item i) (tv_items s1)) s1)
         in refreshSelections s2))"

subsection \<open>Selection\<close>

datatype error = TypeError | InvalidModelObject

text \<open>
  One turn of the loop of \<open>toggleSelection\<close> over the sub groups of the parent group:
  a sub group that has an item whose id is selected loses its selection.
\<close>

definition deselectSibling :: "ident \<Rightarrow> tv \<Rightarrow> tv" where
  "deselectSibling sg s =
     (case sg_item s sg of
        None \<Rightarrow> s
      | Some it \<Rightarrow>
          (if map_of (tv_selections s) (item_id it) \<noteq> None
           then emit (ItemEvent DESELECT (item_id it))
                  (s\<lparr> tv_selections := AList.delete (item_id it) (tv_selections s) \<rparr>)
           else s))"

text \<open>
  \<open>toggleSelection(i, select)\<close>: the item may be \<open>null\<close> and the flag may be left out
  (\<open>None\<close>). The result is the item, or \<open>undefined\<close> (\<open>None\<close>) for no item.
\<close>

definition toggleSelection :: "graph \<Rightarrow> item option \<Rightarrow> bool option \<Rightarrow> tv \<Rightarrow> item option \<times> tv" where
  "toggleSelection gr io sel s =
     (case io of
        None \<Rightarrow> (None, s)
      | Some i \<Rightarrow>
          (let select = (case sel of None \<Rightarrow> \<not> isSelected s (Some i) | Some b \<Rightarrow> b)
           in if select then
                (if \<not> isSelected s (Some i) then
                   (let s1 = (case g_superGroup gr (item_spatialGroup i) of
                                None \<Rightarrow> s
                              | Some p \<Rightarrow>
                                  (if \<not> g_multiselect gr (item_spatialGroup i)
                                   then fold deselectSibling (g_children gr p) s
                                   else s));
                        s2 = s1\<lparr> tv_selections := AList.update (item_id i) i (tv_selections s1) \<rparr>;
                        s3 = emit (ItemEvent SELECT (item_id i)) s2
                    in (Some i, refreshSelections s3))
                 else (Some i, s))
              else
                (if map_of (tv_selections s) (item_id i) \<noteq> None
                 then (Some i, refreshSelections
                         (emit (ItemEvent DESELECT (item_id i))
                            (s\<lparr> tv_selections := AList.delete (item_id i) (tv_selections s) \<rparr>)))
                 else (Some i, s\<lparr> tv_selections := AList.delete (item_id i) (tv_selections s) \<rparr>))))"


subsection \<open>createItem and createGroup\<close>

text \<open>
  The constructor of \<open>item\<close> reads \<open>g.superGroup.id\<close>, which throws for a group without
  a parent, and writes the back reference \<open>g.item\<close>.
\<close>

definition item_new :: "graph \<Rightarrow> ident \<Rightarrow> tv \<Rightarrow> error + (item \<times> tv)" where
  "item_new gr g s =
     (case g_superGroup gr g of
        None \<Rightarrow> Inl TypeError
      | Some p \<Rightarrow>
          (let it = \<lparr> item_group = p, item_id = g, item_title = g_description gr g,
                      item_content = g_name gr g, item_start = g_timeslot gr g,
                      item_spatialGroup = g \<rparr>
           in Inr (it, s\<lparr> sg_item := (sg_item s)(g \<mapsto> it) \<rparr>)))"

text \<open>
  \<open>createItem\<close> returns the registered item when the id is known. Otherwise it runs to
  the end of its body, where there is no \<open>return\<close>: the result is \<open>undefined\<close>
  (\<open>None\<close>).
\<close>

definition createItem :: "graph \<Rightarrow> env \<Rightarrow> ident \<Rightarrow> tv \<Rightarrow> error + (item option \<times> tv)" where
  "createItem gr e g s =
     (if map_of (tv_items s) g \<noteq> None then Inr (map_of (tv_items s) g, s)
      else
        (case item_new gr g s of
           Inl err \<Rightarrow> Inl err
         | Inr (it, s1) \<Rightarrow>
             (let s2 = s1\<lparr> tv_items := AList.update (item_id it) it (tv_items s1) \<rparr>;
                  s3 = s2\<lparr> tv_deferred := Suc (tv_deferred s2) \<rparr>;
                  s4 = emit (ItemEvent CREATE (item_id it)) s3;
                  s5 = (if item_id it \<in> set (newSet (settings_selections e))
                        then snd (toggleSelection gr (Some it) (Some True) s4)
                        else s4)
              in Inr (None, s5))))"

text \<open>
  The constructor of \<open>group\<close>, for a temporal group (which has none of the fields
  \<open>title\<close>, \<open>content\<close>, \<open>nestedGroups\<close> and \<open>treeLevel\<close> of a timeline group). The group of
  the parent is reached through the back reference \<open>g.superGroup.group\<close>; the same object
  is registered in \<open>this.groups\<close>, so both are updated.
\<close>

definition group_new :: "graph \<Rightarrow> ident \<Rightarrow> tv \<Rightarrow> error + (group \<times> tv)" where
  "group_new gr g s =
     (let this = \<lparr> group_id = g, group_title = g_description gr g, group_content = g_name gr g,
                    group_nestedGroups = None, group_treeLevel = g_depth gr g + 1,
                    group_nestedInGroup = None \<rparr>
      in case g_superGroup gr g of
           None \<Rightarrow> Inr (this, s\<lparr> tg_group := (tg_group s)(g \<mapsto> this) \<rparr>)
         | Some p \<Rightarrow>
             (case tg_group s p of
                None \<Rightarrow> Inl TypeError
              | Some supergr \<Rightarrow>
                  (let this' = this\<lparr> group_nestedInGroup := Some (group_id supergr) \<rparr>;
                       supergr' = supergr\<lparr> group_nestedGroups :=
                          (case group_nestedGroups supergr of
                             None \<Rightarrow> Some [g]
                           | Some ns \<Rightarrow> Some (ns @ [g])) \<rparr>;
                       s1 = s\<lparr> tg_group := (tg_group s)(p \<mapsto> supergr'),
                                tv_groups := map (\<lambda>(k, v). if k = p then (k, supergr') else (k, v))
                                               (tv_groups s) \<rparr>
                   in Inr (this', s1\<lparr> tg_group := (tg_group s1)(g \<mapsto> this') \<rparr>))))"

definition createGroup :: "graph \<Rightarrow> ident \<Rightarrow> tv \<Rightarrow> error + (group option \<times> tv)" where
  "createGroup gr g s =
     (if map_of (tv_groups s) g \<noteq> None then Inr (map_of (tv_groups s) g, s)
      else
        (case group_new gr g s of
           Inl err \<Rightarrow> Inl err
         | Inr (grp, s1) \<Rightarrow>
             (let s2 = s1\<lparr> tv_groups := AList.update (group_id grp) grp (tv_groups s1) \<rparr>;
                  s3 = refreshGroups s2
              in Inr (None, emit (GroupEvent CREATE (group_id grp)) s3))))"

definition gap :: "item \<Rightarrow> item \<Rightarrow> real" where
  "gap a b = real_of_int (ms (item_start b) - ms (item_start a))"

fun spec_runs :: "real \<Rightarrow> item list \<Rightarrow> item list list" where
  "spec_runs c [] = []"
| "spec_runs c [x] = [[x]]"
| "spec_runs c (x # y # ys) =
     (if gap x y < c
      then (case spec_runs c (y # ys) of [] \<Rightarrow> [[x]] | r # rs \<Rightarrow> (x # r) # rs)
      else [x] # spec_runs c (y # ys))"

definition spec_flush :: "item list \<Rightarrow> tl_entry list" where
  "spec_flush r = (if length r \<le> 2 then map Item r else [RangeItem (rangeItem_new (hd r) (tl r))])"

fun chain :: "real \<Rightarrow> item list \<Rightarrow> bool" where
  "chain c [] = True"
| "chain c [x] = True"
| "chain c (x # y # ys) = (gap x y < c \<and> chain c (y # ys))"

fun separated :: "real \<Rightarrow> item list list \<Rightarrow> bool" where
  "separated c [] = True"
| "separated c [r] = True"
| "separated c (r1 # r2 # rs) = (\<not> gap (last r1) (hd r2) < c \<and> separated c (r2 # rs))"

definition finish :: "item list \<times> timeval option \<times> tl_entry list \<Rightarrow> tl_entry list" where
  "finish st = (case st of (itemArray, latestStart, out) \<Rightarrow> processArray itemArray out)"

definition row :: "graph \<Rightarrow> env \<Rightarrow> tv \<Rightarrow> ident \<Rightarrow> item list" where
  "row gr e s tg =
     sort_key (\<lambda>i. ms (item_start i)) (groupItems gr s (windowStart e) (win_end e) tg)"

definition spec_aggregate :: "graph \<Rightarrow> env \<Rightarrow> tv \<Rightarrow> tl_entry list" where
  "spec_aggregate gr e s =
     concat (map (\<lambda>(k, g). concat (map spec_flush (spec_runs (criticalDuration e) (row gr e s (group_id g)))))
                 (tv_groups s))"

definition ex_item :: "ident \<Rightarrow> int \<Rightarrow> item" where
  "ex_item k t = \<lparr> item_group = ''T'', item_id = k, item_title = '''', item_content = k,
                   item_start = DateObj t, item_spatialGroup = k \<rparr>"

definition ex_graph :: graph where
  "ex_graph = \<lparr> g_superGroup = (\<lambda>g. if g = ''T'' then None else Some ''T''),
               g_name = (\<lambda>g. g), g_description = (\<lambda>g. ''''),
               g_timeslot = (\<lambda>g. DateObj 0), g_multiselect = (\<lambda>g. False),
               g_children = (\<lambda>g. if g = ''T'' then [''d'', ''a'', ''e'', ''c'', ''b''] else []),
               g_depth = (\<lambda>g. 0) \<rparr>"

definition ex_env :: env where
  "ex_env = \<lparr> dom_width = 3200, win_start = 0, win_end = 200, mppCache = None,
             aggregateItems = True, settings_selections = [] \<rparr>"

definition ex_group :: group where
  "ex_group = \<lparr> group_id = ''T'', group_title = '''', group_content = ''T'',
               group_nestedGroups = None, group_treeLevel = 1, group_nestedInGroup = None \<rparr>"

definition ex_tv :: tv where
  "ex_tv = \<lparr> tv_items = [(''a'', ex_item ''a'' 0), (''b'', ex_item ''b'' 1), (''c'', ex_item ''c'' 2),
                         (''d'', ex_item ''d'' 100), (''e'', ex_item ''e'' 101)],
            tv_groups = [(''T'', ex_group)],
            tv_start = Some 50, tv_end = Some 50, tv_width = 0,
            tv_selections = [],
            sg_item = Map.empty, tg_group = Map.empty,
            tv_emitted = [], tv_calls = [], tv_deferred = 0 \<rparr>"


subsection \<open>Selection: sibling items and an example\<close>

definition sel_graph :: graph where
  "sel_graph = \<lparr> g_superGroup = (\<lambda>g. if g = ''T'' \<or> g = ''U'' then None
                                     else if g = ''x'' then Some ''U'' else Some ''T''),
               g_name = (\<lambda>g. g), g_description = (\<lambda>g. ''''),
               g_timeslot = (\<lambda>g. DateObj 0), g_multiselect = (\<lambda>g. False),
               g_children = (\<lambda>g. if g = ''T'' then [''a'', ''b'', ''c'']
                                  else if g = ''U'' then [''x''] else []),
               g_depth = (\<lambda>g. 0) \<rparr>"

definition sel_item :: "ident \<Rightarrow> ident \<Rightarrow> item" where
  "sel_item p k = \<lparr> item_group = p, item_id = k, item_title = '''', item_content = k,
                   item_start = DateObj 0, item_spatialGroup = k \<rparr>"

definition sel_tv :: tv where
  "sel_tv = \<lparr> tv_items = [(''a'', sel_item ''T'' ''a''), (''b'', sel_item ''T'' ''b''),
                          (''c'', sel_item ''T'' ''c''), (''x'', sel_item ''U'' ''x'')],
            tv_groups = [],
            tv_start = Some 0, tv_end = Some 0, tv_width = 0,
            tv_selections = [],
            sg_item = map_of [(''a'', sel_item ''T'' ''a''), (''b'', sel_item ''T'' ''b''),
                          (''c'', sel_item ''T'' ''c''), (''x'', sel_item ''U'' ''x'')],
            tg_group = Map.empty,
            tv_emitted = [], tv_calls = [], tv_deferred = 0 \<rparr>"

text \<open>The ids of the items of the sub groups of a group, in the order of \<open>forEach\<close>.\<close>

definition siblingIds :: "tv \<Rightarrow> ident list \<Rightarrow> ident list" where
  "siblingIds s cs =
     concat (map (\<lambda>c. case sg_item s c of None \<Rightarrow> [] | Some it \<Rightarrow> [item_id it]) cs)"

definition sel_A :: tv where
  "sel_A = snd (toggleSelection sel_graph (Some (sel_item ''T'' ''a'')) None
             (snd (toggleSelection sel_graph (Some (sel_item ''U'' ''x'')) None sel_tv)))"

subsection \<open>Selection pushed by the settings\<close>








section \<open>Loading a tour\<close>

text \<open>
  A tour is a plain object: lists of temporal groups, spatial groups and vertices, where a
  temporal group embeds its spatial groups, a spatial group its vertices and a vertex its
  outgoing edges. The own fields of an object are a value of type \<open>'a\<close>; a list that is
  missing is the empty list (\<open>x || []\<close>).
\<close>

datatype 'a jsonVertex = JsonVertex (v_fields: 'a) (v_outgoingEdges: "'a list")

datatype 'a jsonSpatialGroup = JsonSpatialGroup (sg_fields: 'a) (sg_vertices: "'a jsonVertex list")

datatype 'a jsonTemporalGroup =
  JsonTemporalGroup (tg_fields: 'a) (tg_subGroups: "'a jsonSpatialGroup list")

record 'a tour =
  tour_temporalGroups :: "'a jsonTemporalGroup list"
  tour_spatialGroups :: "'a jsonSpatialGroup list"
  tour_vertices :: "'a jsonVertex list"

text \<open>
  The model (\<open>this.modules.model\<close>, class \<open>graph\<close>) is not part of the sources read here:
  its four operations are parameters. Each takes the fields of the object and the entity
  the loader has written into it (\<open>superGroup\<close>, \<open>spatialGroup\<close>, \<open>from\<close>), runs on the
  state \<open>'m\<close> of the model, and returns the entity (\<open>Inr\<close>) or throws (\<open>Inl\<close>).
  \<open>setDirectory\<close> is the assignment \<open>sg.directory = rootDirectory\<close>; a directory that
  is not given is \<open>None\<close>.
\<close>

record ('a, 'd, 'm, 'n, 'x) modelOps =
  createTemporalGroup :: "'a \<Rightarrow> 'd option \<Rightarrow> 'm \<Rightarrow> ('x + 'n) \<times> 'm"
  createSpatialGroup :: "'a \<Rightarrow> 'n option \<Rightarrow> 'm \<Rightarrow> ('x + 'n) \<times> 'm"
  createVertex :: "'a \<Rightarrow> 'n option \<Rightarrow> 'm \<Rightarrow> ('x + 'n) \<times> 'm"
  createEdge :: "'a \<Rightarrow> 'n \<Rightarrow> 'm \<Rightarrow> ('x + 'n) \<times> 'm"
  setDirectory :: "'n \<Rightarrow> 'd option \<Rightarrow> 'm \<Rightarrow> 'm"

text \<open>An object handed to the model, and the record of these calls with their outcome.\<close>

datatype 'a node =
    TemporalGroupNode "'a jsonTemporalGroup"
  | SpatialGroupNode "'a jsonSpatialGroup"
  | VertexNode "'a jsonVertex"
  | EdgeNode 'a

record ('a, 'm, 'x) loader =
  ld_model :: 'm
  ld_logged :: "'x list"
  ld_calls :: "('a node \<times> bool) list"

definition caught :: "'a node \<Rightarrow> 'x \<Rightarrow> 'm \<Rightarrow> ('a, 'm, 'x) loader \<Rightarrow> ('a, 'm, 'x) loader" where
  "caught n err m s = s\<lparr> ld_model := m, ld_logged := ld_logged s @ [err],
                         ld_calls := ld_calls s @ [(n, False)] \<rparr>"

definition created :: "'a node \<Rightarrow> 'm \<Rightarrow> ('a, 'm, 'x) loader \<Rightarrow> ('a, 'm, 'x) loader" where
  "created n m s = s\<lparr> ld_model := m, ld_calls := ld_calls s @ [(n, True)] \<rparr>"

text \<open>
  The bodies of the four loops of \<open>loadGraph\<close>. The loop state is the flag
  \<open>successful\<close>, the array the loop extends, and the state.
\<close>

definition loadTemporalGroup ::
  "('a, 'd, 'm, 'n, 'x) modelOps \<Rightarrow> 'a jsonTemporalGroup
   \<Rightarrow> bool \<times> ('a jsonSpatialGroup \<times> 'n option) list \<times> ('a, 'm, 'x) loader
   \<Rightarrow> bool \<times> ('a jsonSpatialGroup \<times> 'n option) list \<times> ('a, 'm, 'x) loader" where
  "loadTemporalGroup ops j = (\<lambda>(successful, spatialGroups, s).
     (case createTemporalGroup ops (tg_fields j) None (ld_model s) of
        (Inr tg, m) \<Rightarrow>
          (successful, spatialGroups @ map (\<lambda>g. (g, Some tg)) (tg_subGroups j),
           created (TemporalGroupNode j) m s)
      | (Inl err, m) \<Rightarrow> (False, spatialGroups, caught (TemporalGroupNode j) err m s)))"

definition loadSpatialGroup ::
  "('a, 'd, 'm, 'n, 'x) modelOps \<Rightarrow> 'd option \<Rightarrow> 'a jsonSpatialGroup \<times> 'n option
   \<Rightarrow> bool \<times> ('a jsonVertex \<times> 'n option) list \<times> ('a, 'm, 'x) loader
   \<Rightarrow> bool \<times> ('a jsonVertex \<times> 'n option) list \<times> ('a, 'm, 'x) loader" where
  "loadSpatialGroup ops rootDirectory = (\<lambda>(j, superGroup) (successful, vertices, s).
     (case createSpatialGroup ops (sg_fields j) superGroup (ld_model s) of
        (Inr sg, m) \<Rightarrow>
          (successful, vertices @ map (\<lambda>v. (v, Some sg)) (sg_vertices j),
           created (SpatialGroupNode j) (setDirectory ops sg rootDirectory m) s)
      | (Inl err, m) \<Rightarrow> (False, vertices, caught (SpatialGroupNode j) err m s)))"

definition loadVertex ::
  "('a, 'd, 'm, 'n, 'x) modelOps \<Rightarrow> 'a jsonVertex \<times> 'n option
   \<Rightarrow> bool \<times> ('a \<times> 'n) list \<times> ('a, 'm, 'x) loader
   \<Rightarrow> bool \<times> ('a \<times> 'n) list \<times> ('a, 'm, 'x) loader" where
  "loadVertex ops = (\<lambda>(j, spatialGroup) (successful, edges, s).
     (case createVertex ops (v_fields j) spatialGroup (ld_model s) of
        (Inr v, m) \<Rightarrow>
          (successful, edges @ map (\<lambda>e. (e, v)) (v_outgoingEdges j),
           created (VertexNode j) m s)
      | (Inl err, m) \<Rightarrow> (False, edges, caught (VertexNode j) err m s)))"

definition loadEdge ::
  "('a, 'd, 'm, 'n, 'x) modelOps \<Rightarrow> 'a \<times> 'n
   \<Rightarrow> bool \<times> ('a, 'm, 'x) loader \<Rightarrow> bool \<times> ('a, 'm, 'x) loader" where
  "loadEdge ops = (\<lambda>(e, from) (successful, s).
     (case createEdge ops e from (ld_model s) of
        (Inr ed, m) \<Rightarrow> (successful, created (EdgeNode e) m s)
      | (Inl err, m) \<Rightarrow> (False, caught (EdgeNode e) err m s)))"

definition loadGraph ::
  "('a, 'd, 'm, 'n, 'x) modelOps \<Rightarrow> 'a tour \<Rightarrow> 'd option \<Rightarrow> ('a, 'm, 'x) loader
   \<Rightarrow> bool \<times> ('a, 'm, 'x) loader" where
  "loadGraph ops tour rootDirectory s =
     (case fold (loadTemporalGroup ops) (tour_temporalGroups tour)
             (True, map (\<lambda>g. (g, None)) (tour_spatialGroups tour), s) of
        (successful1, spatialGroups, s1) \<Rightarrow>
     (case fold (loadSpatialGroup ops rootDirectory) spatialGroups
             (successful1, map (\<lambda>v. (v, None)) (tour_vertices tour), s1) of
        (successful2, vertices, s2) \<Rightarrow>
     (case fold (loadVertex ops) vertices (successful2, [], s2) of
        (successful3, edges, s3) \<Rightarrow>
     fold (loadEdge ops) edges (successful3, s3))))"

text \<open>
  \<open>readTour\<close> for a tour that names no other tour file (\<open>tour.tours == null\<close>): the
  observable it returns emits one value, \<open>successful && this.loadGraph(tour, rootFolder)\<close>,
  where \<open>successful\<close> is the flag of the first loop over the temporal groups. The result
  of the created group is not used in that loop.
\<close>

definition readTemporalGroup ::
  "('a, 'd, 'm, 'n, 'x) modelOps \<Rightarrow> 'd option \<Rightarrow> 'a jsonTemporalGroup
   \<Rightarrow> bool \<times> ('a, 'm, 'x) loader \<Rightarrow> bool \<times> ('a, 'm, 'x) loader" where
  "readTemporalGroup ops rootFolder j = (\<lambda>(successful, s).
     (case createTemporalGroup ops (tg_fields j) rootFolder (ld_model s) of
        (Inr tg, m) \<Rightarrow> (successful, created (TemporalGroupNode j) m s)
      | (Inl err, m) \<Rightarrow> (False, caught (TemporalGroupNode j) err m s)))"

definition readTour ::
  "('a, 'd, 'm, 'n, 'x) modelOps \<Rightarrow> 'a tour \<Rightarrow> 'd option \<Rightarrow> ('a, 'm, 'x) loader
   \<Rightarrow> bool \<times> ('a, 'm, 'x) loader" where
  "readTour ops tour rootFolder s =
     (case fold (readTemporalGroup ops rootFolder) (tour_temporalGroups tour) (True, s) of
        (successful, s1) \<Rightarrow>
          (if successful then loadGraph ops tour rootFolder s1 else (False, s1)))"

subsection \<open>The calls made on the model, by kind\<close>

fun tgCall :: "'a node \<times> bool \<Rightarrow> ('a jsonTemporalGroup \<times> bool) list" where
  "tgCall (TemporalGroupNode j, b) = [(j, b)]"
| "tgCall (SpatialGroupNode j, b) = []"
| "tgCall (VertexNode j, b) = []"
| "tgCall (EdgeNode j, b) = []"

fun sgCall :: "'a node \<times> bool \<Rightarrow> ('a jsonSpatialGroup \<times> bool) list" where
  "sgCall (TemporalGroupNode j, b) = []"
| "sgCall (SpatialGroupNode j, b) = [(j, b)]"
| "sgCall (VertexNode j, b) = []"
| "sgCall (EdgeNode j, b) = []"

fun vCall :: "'a node \<times> bool \<Rightarrow> ('a jsonVertex \<times> bool) list" where
  "vCall (TemporalGroupNode j, b) = []"
| "vCall (SpatialGroupNode j, b) = []"
| "vCall (VertexNode j, b) = [(j, b)]"
| "vCall (EdgeNode j, b) = []"

fun eCall :: "'a node \<times> bool \<Rightarrow> ('a \<times> bool) list" where
  "eCall (TemporalGroupNode j, b) = []"
| "eCall (SpatialGroupNode j, b) = []"
| "eCall (VertexNode j, b) = []"
| "eCall (EdgeNode j, b) = [(j, b)]"

definition tgCalls :: "('a node \<times> bool) list \<Rightarrow> ('a jsonTemporalGroup \<times> bool) list" where
  "tgCalls C = concat (map tgCall C)"

definition sgCalls :: "('a node \<times> bool) list \<Rightarrow> ('a jsonSpatialGroup \<times> bool) list" where
  "sgCalls C = concat (map sgCall C)"

definition vCalls :: "('a node \<times> bool) list \<Rightarrow> ('a jsonVertex \<times> bool) list" where
  "vCalls C = concat (map vCall C)"

definition eCalls :: "('a node \<times> bool) list \<Rightarrow> ('a \<times> bool) list" where
  "eCalls C = concat (map eCall C)"

text \<open>The objects embedded in the objects whose creation succeeded.\<close>

definition embedded :: "('j \<Rightarrow> 'k list) \<Rightarrow> ('j \<times> bool) list \<Rightarrow> 'k list" where
  "embedded children C = concat (map (\<lambda>(j, b). if b then children j else []) C)"

text \<open>The calls a run of the loader has added to the record.\<close>

definition newCalls :: "('a, 'm, 'x) loader \<Rightarrow> ('a, 'm, 'x) loader \<Rightarrow> ('a node \<times> bool) list" where
  "newCalls s s' = drop (length (ld_calls s)) (ld_calls s')"

text \<open>
  An example: a model that keeps no state, where creating an object whose field is
  \<open>''bad''\<close> throws, and a tour with a temporal group that cannot be created, which
  embeds a spatial group, next to a spatial group and a vertex that can.
\<close>

definition ex_ops :: "(string, unit, unit, string, string) modelOps" where
  "ex_ops = \<lparr> createTemporalGroup = (\<lambda>a d m. (if a = ''bad'' then Inl ''invalid'' else Inr a, m)),
             createSpatialGroup = (\<lambda>a p m. (if a = ''bad'' then Inl ''invalid'' else Inr a, m)),
             createVertex = (\<lambda>a p m. (if a = ''bad'' then Inl ''invalid'' else Inr a, m)),
             createEdge = (\<lambda>a f m. (if a = ''bad'' then Inl ''invalid'' else Inr a, m)),
             setDirectory = (\<lambda>n d m. m) \<rparr>"

definition ex_tour :: "string tour" where
  "ex_tour = \<lparr> tour_temporalGroups =
                 [JsonTemporalGroup ''bad'' [JsonSpatialGroup ''inner'' []]],
              tour_spatialGroups = [JsonSpatialGroup ''outer'' []],
              tour_vertices = [JsonVertex ''v'' [''e'']] \<rparr>"

definition ex_loader :: "(string, unit, string) loader" where
  "ex_loader = \<lparr> ld_model = (), ld_logged = [], ld_calls = [] \<rparr>"

section \<open>Map viewer\<close>

text \<open>
  Every visual object of the map (point, line, layer group, control group) owns one layer
  of the rendering library, created with it: an object and its layer share one number. The
  field \<open>parent\<close> of a visual object is \<open>undefined\<close>, \<open>null\<close> or another visual object.
\<close>

type_synonym oid = nat

datatype kind = Point | Line | LayerGroup | ControlGroup

datatype parentRef = Undefined | Null | Ref oid

record mapelem =
  me_kind :: kind
  me_model :: ident
  me_type :: string
  me_layer :: bool
  me_parent :: parentRef
  me_children :: "oid list option"

text \<open>
  Modelled from the spec: the classes \<open>vertex\<close>, \<open>edge\<close>, \<open>spatialGroup\<close> and
  \<open>temporalGroup\<close> are not part of the sources read here. The viewer reads of them the
  spatial group of a vertex, the edges that \<open>vertex.forEach\<close> visits (its outgoing edges),
  the types, the end points and the opposite of an edge, and the parent of a group.
\<close>

record mgraph =
  m_spatialGroup :: "ident \<Rightarrow> ident"
  m_edges :: "ident \<Rightarrow> ident list"
  m_vertexType :: "ident \<Rightarrow> string"
  m_edgeType :: "ident \<Rightarrow> string"
  m_from :: "ident \<Rightarrow> ident"
  m_to :: "ident \<Rightarrow> ident"
  m_opposite :: "ident \<Rightarrow> ident option"
  m_superGroup :: "ident \<Rightarrow> ident option"

text \<open>
  Modelled from the spec: the constants of the class \<open>edge\<close>, which names the edge types
  route, temporal, landmark and temp.
\<close>

definition edge_TEMPORAL :: string where
  "edge_TEMPORAL = ''temporal''"

definition edge_TEMP :: string where
  "edge_TEMP = ''temp''"

definition line_EDIT :: string where
  "line_EDIT = ''edit''"

datatype entity = Vertex ident | Edge ident | SpatialGroup ident | TemporalGroup ident

datatype mapAction = Create | Delete | Show | Hide

datatype mapEvent = Emit mapAction oid | StartUpdate oid | EndUpdate oid

text \<open>
  The state of a \<open>mapViewer\<close>: the visual objects, the back references written on the model
  objects (\<open>v.point\<close>, \<open>e.line\<close>, \<open>g.layerGroup\<close>, \<open>g.controlGroup\<close>), the lookup
  \<open>this.layers\<close>, the control groups of \<open>this.overlayTree\<close>, the events emitted and the
  number of refreshes of the layer tree; and of the rendering library: the layers that are
  on the map, the layers a group layer holds, the layers \<open>this.lineGroup\<close> holds and
  whether \<open>this.lineGroup\<close> is on the map.
\<close>

record mv =
  mv_objs :: "oid \<rightharpoonup> mapelem"
  mv_next :: oid
  v_point :: "ident \<rightharpoonup> oid"
  e_line :: "ident \<rightharpoonup> oid"
  g_layerGroup :: "ident \<rightharpoonup> oid"
  g_controlGroup :: "ident \<rightharpoonup> oid"
  mv_layers :: "oid set"
  mv_overlayTree :: "oid list"
  mv_emitted :: "mapEvent list"
  mv_treeRefreshes :: nat
  lf_onMap :: "oid set"
  lf_members :: "oid \<Rightarrow> oid list"
  lf_lineGroup :: "oid set"
  lf_lineGroupOnMap :: bool

subsection \<open>Results: a value, an exception, or no result\<close>

text \<open>
  An operation of the viewer runs on the state and returns a value or throws; the state it
  leaves is kept in both cases. The rendering library adds and removes the layers of a
  group by recursion over its members, which does not end when a group holds itself: the
  recursion is bounded, and \<open>None\<close> is the run that does not return.
\<close>

datatype 'a outcome = Return 'a | Throw error

type_synonym 'a mvm = "mv \<Rightarrow> ('a outcome \<times> mv) option"

definition ret :: "'a \<Rightarrow> 'a mvm" where
  "ret x = (\<lambda>s. Some (Return x, s))"

definition throw :: "error \<Rightarrow> 'a mvm" where
  "throw e = (\<lambda>s. Some (Throw e, s))"

definition bnd :: "'a mvm \<Rightarrow> ('a \<Rightarrow> 'b mvm) \<Rightarrow> 'b mvm" where
  "bnd m f = (\<lambda>s. case m s of
                     None \<Rightarrow> None
                   | Some (Throw e, s') \<Rightarrow> Some (Throw e, s')
                   | Some (Return x, s') \<Rightarrow> f x s')"

definition modify :: "(mv \<Rightarrow> mv) \<Rightarrow> unit mvm" where
  "modify f = (\<lambda>s. Some (Return (), f s))"

fun forEach :: "('a \<Rightarrow> unit mvm) \<Rightarrow> 'a list \<Rightarrow> unit mvm" where
  "forEach f [] = ret ()"
| "forEach f (x # xs) = bnd (f x) (\<lambda>_. forEach f xs)"

definition emitMap :: "mapAction \<Rightarrow> oid \<Rightarrow> mv \<Rightarrow> mv" where
  "emitMap a x s = s\<lparr> mv_emitted := mv_emitted s @ [Emit a x] \<rparr>"

subsection \<open>The rendering library\<close>

text \<open>\<open>isVisible(elem)\<close> is \<open>map.hasLayer(elem.layer)\<close>, false for a missing layer.\<close>

definition isVisible :: "mv \<Rightarrow> oid \<Rightarrow> bool" where
  "isVisible s x = (case mv_objs s x of
                      None \<Rightarrow> False
                    | Some m \<Rightarrow> me_layer m \<and> x \<in> lf_onMap s)"

text \<open>The listeners of the map for \<open>layeradd\<close> and \<open>layerremove\<close>.\<close>

definition onLayerAdd :: "oid \<Rightarrow> mv \<Rightarrow> mv" where
  "onLayerAdd l s = (if l \<in> mv_layers s then emitMap Show l s else s)"

definition onLayerRemove :: "oid \<Rightarrow> mv \<Rightarrow> mv" where
  "onLayerRemove l s =
     (if l \<in> mv_layers s \<and> (case mv_objs s l of None \<Rightarrow> False | Some m \<Rightarrow> me_kind m = LayerGroup)
      then emitMap Hide l s else s)"

text \<open>The layers a layer holds: only the layer of a group holds layers, visited by number.\<close>

definition layerMembers :: "mv \<Rightarrow> oid \<Rightarrow> oid list" where
  "layerMembers s l =
     (case mv_objs s l of
        None \<Rightarrow> []
      | Some m \<Rightarrow> (if me_kind m = LayerGroup \<or> me_kind m = ControlGroup
                    then sort (lf_members s l) else []))"

definition isPoint :: "mv \<Rightarrow> oid \<Rightarrow> bool" where
  "isPoint s l = (case mv_objs s l of None \<Rightarrow> False | Some m \<Rightarrow> me_kind m = Point)"

definition vertexOf :: "mv \<Rightarrow> oid \<Rightarrow> ident" where
  "vertexOf s l = (case mv_objs s l of None \<Rightarrow> [] | Some m \<Rightarrow> me_model m)"

text \<open>\<open>elem.layer\<close>: the layer of a visual object, \<open>undefined\<close> once it is deleted.\<close>

definition layerOf :: "mv \<Rightarrow> oid \<Rightarrow> oid option" where
  "layerOf s x = (case mv_objs s x of
                    None \<Rightarrow> None
                  | Some m \<Rightarrow> (if me_layer m then Some x else None))"

text \<open>
  \<open>lineGroup.addLayer\<close> and \<open>lineGroup.removeLayer\<close> of the library, given its
  \<open>map.addLayer\<close> and \<open>map.removeLayer\<close>: a layer that is entered is also added to the
  map when the group is on the map; a layer that is held is removed from the map when the
  group is on the map, and dropped.
\<close>

definition lineGroup_addLayer :: "(oid \<Rightarrow> unit mvm) \<Rightarrow> oid \<Rightarrow> unit mvm" where
  "lineGroup_addLayer addToMap l = (\<lambda>s.
     if l \<in> lf_lineGroup s then Some (Return (), s)
     else if lf_lineGroupOnMap s
     then addToMap l (s\<lparr> lf_lineGroup := insert l (lf_lineGroup s) \<rparr>)
     else Some (Return (), s\<lparr> lf_lineGroup := insert l (lf_lineGroup s) \<rparr>))"

definition lineGroup_removeLayer :: "(oid \<Rightarrow> unit mvm) \<Rightarrow> oid option \<Rightarrow> unit mvm" where
  "lineGroup_removeLayer removeFromMap lo = (\<lambda>s.
     case lo of
       None \<Rightarrow> Some (Return (), s)
     | Some l \<Rightarrow>
         (if l \<notin> lf_lineGroup s then Some (Return (), s)
          else bnd (if lf_lineGroupOnMap s then removeFromMap l else ret ())
                 (\<lambda>_. modify (\<lambda>s'. s'\<lparr> lf_lineGroup := lf_lineGroup s' - {l} \<rparr>)) s))"

text \<open>
  The listeners that \<open>createPoint\<close> installs on the point of a vertex for the events
  \<open>add\<close> and \<open>remove\<close> of its layer.
\<close>

definition point_onAdd :: "(oid \<Rightarrow> unit mvm) \<Rightarrow> mgraph \<Rightarrow> ident \<Rightarrow> unit mvm" where
  "point_onAdd addToMap gr v =
     forEach (\<lambda>e s.
        case e_line s e of
          None \<Rightarrow> Some (Return (), s)
        | Some li \<Rightarrow>
            (case v_point s (m_to gr e) of
               None \<Rightarrow> Some (Return (), s)
             | Some tp \<Rightarrow>
                 (if isVisible s tp
                  then (case layerOf s li of
                          None \<Rightarrow> Some (Throw TypeError, s)
                        | Some l \<Rightarrow> lineGroup_addLayer addToMap l s)
                  else Some (Return (), s))))
       (m_edges gr v)"

definition point_onRemove :: "(oid \<Rightarrow> unit mvm) \<Rightarrow> mgraph \<Rightarrow> ident \<Rightarrow> unit mvm" where
  "point_onRemove removeFromMap gr v =
     forEach (\<lambda>e s.
        case e_line s e of
          None \<Rightarrow> Some (Return (), s)
        | Some li \<Rightarrow> lineGroup_removeLayer removeFromMap (layerOf s li) s)
       (m_edges gr v)"

text \<open>
  \<open>map.addLayer(layer)\<close>: a layer that is on the map stays; otherwise the layer is
  entered, its members are added, its listener for \<open>add\<close> runs (for the layer of a
  point) and then the listener of the map for \<open>layeradd\<close>.
\<close>

primrec mapAddLayer :: "nat \<Rightarrow> mgraph \<Rightarrow> oid \<Rightarrow> unit mvm" where
  "mapAddLayer 0 = (\<lambda>gr l s. None)"
| "mapAddLayer (Suc n) = (\<lambda>gr l s.
     if l \<in> lf_onMap s then Some (Return (), s)
     else
       bnd (forEach (mapAddLayer n gr) (layerMembers s l))
         (\<lambda>_. bnd (\<lambda>s1. if isPoint s1 l
                         then point_onAdd (mapAddLayer n gr) gr (vertexOf s1 l) s1
                         else Some (Return (), s1))
                (\<lambda>_. modify (onLayerAdd l)))
         (s\<lparr> lf_onMap := insert l (lf_onMap s) \<rparr>))"

text \<open>
  \<open>map.removeLayer(layer)\<close>: a layer that is not on the map stays; otherwise its
  members are removed, the layer leaves the map, the listener of the map for
  \<open>layerremove\<close> runs and then the listener of the layer for \<open>remove\<close>.
\<close>

primrec mapRemoveLayer :: "nat \<Rightarrow> mgraph \<Rightarrow> oid \<Rightarrow> unit mvm" where
  "mapRemoveLayer 0 = (\<lambda>gr l s. None)"
| "mapRemoveLayer (Suc n) = (\<lambda>gr l s.
     if l \<notin> lf_onMap s then Some (Return (), s)
     else
       bnd (forEach (mapRemoveLayer n gr) (layerMembers s l))
         (\<lambda>_. bnd (modify (\<lambda>s1. onLayerRemove l (s1\<lparr> lf_onMap := lf_onMap s1 - {l} \<rparr>)))
                (\<lambda>_ s1. if isPoint s1 l
                         then point_onRemove (mapRemoveLayer n gr) gr (vertexOf s1 l) s1
                         else Some (Return (), s1)))
         s)"

text \<open>
  The recursion of the library goes from a group to its members, and from a point to a
  line: on groups that do not hold themselves it is no deeper than the number of visual
  objects, which bounds it here.
\<close>

definition depth :: "mv \<Rightarrow> nat" where
  "depth s = mv_next s + 2"

definition addToMap :: "mgraph \<Rightarrow> oid \<Rightarrow> unit mvm" where
  "addToMap gr l = (\<lambda>s. mapAddLayer (depth s) gr l s)"

definition removeFromMap :: "mgraph \<Rightarrow> oid \<Rightarrow> unit mvm" where
  "removeFromMap gr l = (\<lambda>s. mapRemoveLayer (depth s) gr l s)"

text \<open>
  \<open>addLayer\<close> and \<open>removeLayer\<close> of the layer of a group, and \<open>layer.remove()\<close>, which
  removes the layer from the map it is on.
\<close>

definition group_addLayer :: "mgraph \<Rightarrow> oid \<Rightarrow> oid \<Rightarrow> unit mvm" where
  "group_addLayer gr g l = (\<lambda>s.
     if l \<in> set (lf_members s g) then Some (Return (), s)
     else (let s1 = s\<lparr> lf_members := (lf_members s)(g := lf_members s g @ [l]) \<rparr>
           in if g \<in> lf_onMap s then addToMap gr l s1 else Some (Return (), s1)))"

definition group_removeLayer :: "mgraph \<Rightarrow> oid \<Rightarrow> oid option \<Rightarrow> unit mvm" where
  "group_removeLayer gr g lo = (\<lambda>s.
     case lo of
       None \<Rightarrow> Some (Return (), s)
     | Some l \<Rightarrow>
         (if l \<notin> set (lf_members s g) then Some (Return (), s)
          else bnd (if g \<in> lf_onMap s then removeFromMap gr l else ret ())
                 (\<lambda>_. modify (\<lambda>s'. s'\<lparr> lf_members :=
                                 (lf_members s')(g := removeAll l (lf_members s' g)) \<rparr>)) s))"

definition layer_remove :: "mgraph \<Rightarrow> oid \<Rightarrow> unit mvm" where
  "layer_remove gr l = removeFromMap gr l"

subsection \<open>The container of a visual object\<close>

definition toRef :: "oid option \<Rightarrow> parentRef" where
  "toRef x = (case x of None \<Rightarrow> Undefined | Some y \<Rightarrow> Ref y)"

text \<open>
  \<open>deriveParent(mapelem)\<close>: a line has none of the fields \<open>vertex\<close>, \<open>spatialGroup\<close>,
  \<open>temporalGroup\<close>, and the function throws; the parent of a point is the layer group of
  the spatial group of its vertex; the parent of a group is the control group of its
  parent group, or \<open>null\<close>.
\<close>

definition deriveParent :: "mgraph \<Rightarrow> mv \<Rightarrow> oid \<Rightarrow> error + parentRef" where
  "deriveParent gr s x =
     (case mv_objs s x of
        None \<Rightarrow> Inl TypeError
      | Some m \<Rightarrow>
          (case me_kind m of
             Line \<Rightarrow> Inl InvalidModelObject
           | Point \<Rightarrow> Inr (toRef (g_layerGroup s (m_spatialGroup gr (me_model m))))
           | LayerGroup \<Rightarrow>
               (case m_superGroup gr (me_model m) of
                  None \<Rightarrow> Inr Null
                | Some p \<Rightarrow> Inr (toRef (g_controlGroup s p)))
           | ControlGroup \<Rightarrow>
               (case m_superGroup gr (me_model m) of
                  None \<Rightarrow> Inr Null
                | Some p \<Rightarrow> Inr (toRef (g_controlGroup s p)))))"

definition setParent :: "oid \<Rightarrow> parentRef \<Rightarrow> mv \<Rightarrow> mv" where
  "setParent x par s =
     s\<lparr> mv_objs := (case mv_objs s x of
                       None \<Rightarrow> mv_objs s
                     | Some m \<Rightarrow> (mv_objs s)(x \<mapsto> m\<lparr> me_parent := par \<rparr>)) \<rparr>"

definition parentOf :: "mv \<Rightarrow> oid \<Rightarrow> parentRef" where
  "parentOf s x = (case mv_objs s x of None \<Rightarrow> Undefined | Some m \<Rightarrow> me_parent m)"

definition kindOf :: "mv \<Rightarrow> oid \<Rightarrow> kind option" where
  "kindOf s x = map_option me_kind (mv_objs s x)"

text \<open>\<open>container.push(elem)\<close> on \<open>elem.parent.children\<close>, created when missing.\<close>

definition pushChild :: "oid \<Rightarrow> oid \<Rightarrow> mv \<Rightarrow> mv" where
  "pushChild p x s =
     s\<lparr> mv_objs := (case mv_objs s p of
                       None \<Rightarrow> mv_objs s
                     | Some m \<Rightarrow> (mv_objs s)(p \<mapsto> m\<lparr> me_children :=
                          Some ((case me_children m of None \<Rightarrow> [] | Some cs \<Rightarrow> cs) @ [x]) \<rparr>)) \<rparr>"

definition addToDerivedParent :: "mgraph \<Rightarrow> oid \<Rightarrow> unit mvm" where
  "addToDerivedParent gr x = (\<lambda>s.
     case deriveParent gr s x of
       Inl err \<Rightarrow> Some (Throw err, s)
     | Inr par \<Rightarrow>
         bnd (\<lambda>s1. case layerOf s1 x of
                      None \<Rightarrow> Some (Throw TypeError, s1)
                    | Some l \<Rightarrow>
                        (case par of
                           Ref p \<Rightarrow> (case layerOf s1 p of
                                        None \<Rightarrow> Some (Throw TypeError, s1)
                                      | Some pl \<Rightarrow> group_addLayer gr pl l s1)
                         | Null \<Rightarrow> addToMap gr l s1
                         | Undefined \<Rightarrow> addToMap gr l s1))
           (\<lambda>_. modify (\<lambda>s2.
                    if kindOf s2 x = Some ControlGroup
                    then (case par of
                            Ref p \<Rightarrow> pushChild p x s2
                          | Null \<Rightarrow> s2\<lparr> mv_overlayTree := mv_overlayTree s2 @ [x] \<rparr>
                          | Undefined \<Rightarrow> s2\<lparr> mv_overlayTree := mv_overlayTree s2 @ [x] \<rparr>)
                    else s2))
           (setParent x par s))"

text \<open>
  \<open>removeFromParentControlGroup(cg)\<close>: \<open>splice\<close> takes the first occurrence out of the
  array; a missing array \<open>cg.parent.children\<close> makes \<open>indexOf\<close> throw.
\<close>

definition removeFromParentControlGroup :: "oid \<Rightarrow> unit mvm" where
  "removeFromParentControlGroup cg = (\<lambda>s.
     case parentOf s cg of
       Ref p \<Rightarrow>
         (case mv_objs s p of
            None \<Rightarrow> Some (Throw TypeError, s)
          | Some m \<Rightarrow>
              (case me_children m of
                 None \<Rightarrow> Some (Throw TypeError, s)
               | Some cs \<Rightarrow>
                   (let cs' = remove1 cg cs;
                        s1 = s\<lparr> mv_objs := (mv_objs s)(p \<mapsto> m\<lparr> me_children :=
                                  (if cs' = [] then None else Some cs') \<rparr>) \<rparr>
                    in Some (Return (), setParent cg Null s1))))
     | Null \<Rightarrow>
         Some (Return (), setParent cg Null (s\<lparr> mv_overlayTree := remove1 cg (mv_overlayTree s) \<rparr>))
     | Undefined \<Rightarrow>
         Some (Return (), setParent cg Null (s\<lparr> mv_overlayTree := remove1 cg (mv_overlayTree s) \<rparr>)))"

definition removeFromParent :: "mgraph \<Rightarrow> oid \<Rightarrow> unit mvm" where
  "removeFromParent gr x =
     bnd (\<lambda>s. case parentOf s x of
                 Ref p \<Rightarrow> (case layerOf s p of
                              None \<Rightarrow> Some (Throw TypeError, s)
                            | Some pl \<Rightarrow> group_removeLayer gr pl (layerOf s x) s)
               | Null \<Rightarrow> Some (Return (), s)
               | Undefined \<Rightarrow> Some (Return (), s))
       (\<lambda>_. bnd (\<lambda>s. if kindOf s x = Some ControlGroup
                       then removeFromParentControlGroup x s
                       else Some (Return (), s))
              (\<lambda>_. modify (setParent x Null)))"

subsection \<open>Creating visual objects\<close>

definition alloc :: "mapelem \<Rightarrow> mv \<Rightarrow> oid \<times> mv" where
  "alloc m s = (mv_next s, s\<lparr> mv_objs := (mv_objs s)(mv_next s \<mapsto> m),
                               mv_next := Suc (mv_next s) \<rparr>)"

definition newElem :: "kind \<Rightarrow> ident \<Rightarrow> string \<Rightarrow> mapelem" where
  "newElem k i t = \<lparr> me_kind = k, me_model = i, me_type = t, me_layer = True,
                     me_parent = Undefined, me_children = None \<rparr>"

definition updateLayerTree :: "mv \<Rightarrow> mv" where
  "updateLayerTree s = s\<lparr> mv_treeRefreshes := Suc (mv_treeRefreshes s) \<rparr>"

definition createControlGroup :: "mgraph \<Rightarrow> ident \<Rightarrow> oid mvm" where
  "createControlGroup gr g = (\<lambda>s.
     case g_controlGroup s g of
       Some cg \<Rightarrow> Some (Return cg, s)
     | None \<Rightarrow>
         (case alloc (newElem ControlGroup g []) s of
            (cg, s1) \<Rightarrow>
              bnd (addToDerivedParent gr cg)
                (\<lambda>_. bnd (modify (\<lambda>s2. emitMap Create cg
                               ((updateLayerTree s2)\<lparr> mv_layers := insert cg (mv_layers s2) \<rparr>)))
                       (\<lambda>_. ret cg))
                (s1\<lparr> g_controlGroup := (g_controlGroup s1)(g \<mapsto> cg) \<rparr>)))"

definition createLayerGroup :: "mgraph \<Rightarrow> ident \<Rightarrow> oid mvm" where
  "createLayerGroup gr g = (\<lambda>s.
     case g_layerGroup s g of
       Some lg \<Rightarrow> Some (Return lg, s)
     | None \<Rightarrow>
         (case alloc (newElem LayerGroup g []) s of
            (lg, s1) \<Rightarrow>
              Some (Return lg,
                    emitMap Create lg
                      (s1\<lparr> g_layerGroup := (g_layerGroup s1)(g \<mapsto> lg),
                           mv_layers := insert lg (mv_layers s1) \<rparr>))))"

text \<open>
  \<open>createPoint(v, config)\<close>; \<open>config.type\<close> may be missing. The listeners for clicks and
  drags react to the user and are left out; the listeners for \<open>add\<close> and \<open>remove\<close> are
  \<open>point_onAdd\<close> and \<open>point_onRemove\<close>, which the library runs.
\<close>

definition orElse :: "string option \<Rightarrow> string \<Rightarrow> string" where
  "orElse a b = (case a of None \<Rightarrow> b | Some x \<Rightarrow> (if x = [] then b else x))"

definition createPoint :: "mgraph \<Rightarrow> ident \<Rightarrow> string option \<Rightarrow> oid mvm" where
  "createPoint gr v ctype = (\<lambda>s.
     case v_point s v of
       Some p \<Rightarrow> Some (Return p, s)
     | None \<Rightarrow>
         (case alloc (newElem Point v (orElse ctype (m_vertexType gr v))) s of
            (p, s1) \<Rightarrow>
              bnd (addToDerivedParent gr p)
                (\<lambda>_. bnd (modify (\<lambda>s2. emitMap Create p (s2\<lparr> mv_layers := insert p (mv_layers s2) \<rparr>)))
                       (\<lambda>_. ret p))
                (s1\<lparr> v_point := (v_point s1)(v \<mapsto> p) \<rparr>)))"

text \<open>
  \<open>createLine(e, config)\<close> returns the line of the edge, or \<open>null\<close> (\<open>None\<close>) for a
  temporal edge. The constructor of \<open>line\<close> writes the line on the edge and on its
  opposite.
\<close>

definition createLine :: "mgraph \<Rightarrow> ident \<Rightarrow> string option \<Rightarrow> oid option mvm" where
  "createLine gr e ctype = (\<lambda>s.
     case e_line s e of
       Some l \<Rightarrow> Some (Return (Some l), s)
     | None \<Rightarrow>
         (if m_edgeType gr e = edge_TEMPORAL then Some (Return None, s)
          else
            (let type = orElse ctype (m_edgeType gr e);
                 type' = (if type = edge_TEMP then line_EDIT else type)
             in case alloc (newElem Line e type') s of
                  (l, s1) \<Rightarrow>
                    (let s2 = s1\<lparr> e_line := (case m_opposite gr e of
                                                 None \<Rightarrow> (e_line s1)(e \<mapsto> l)
                                               | Some opp \<Rightarrow> (e_line s1)(e \<mapsto> l, opp \<mapsto> l)) \<rparr>;
                         s3 = s2\<lparr> mv_layers := insert l (mv_layers s2) \<rparr>
                     in bnd (\<lambda>s4.
                               case (v_point s4 (m_from gr e), v_point s4 (m_to gr e)) of
                                 (Some fp, Some tp) \<Rightarrow>
                                   (if isVisible s4 fp \<and> isVisible s4 tp
                                    then lineGroup_addLayer (addToMap gr) l s4
                                    else Some (Return (), s4))
                               | _ \<Rightarrow> Some (Return (), s4))
                          (\<lambda>_. bnd (modify (emitMap Create l)) (\<lambda>_. ret (Some l)))
                          s3))))"

subsection \<open>Deleting lines and points, and updating the parent\<close>

definition deleteLine :: "mgraph \<Rightarrow> ident \<Rightarrow> unit mvm" where
  "deleteLine gr e = (\<lambda>s.
     case e_line s e of
       None \<Rightarrow> Some (Return (), s)
     | Some elem \<Rightarrow>
         bnd (\<lambda>s1. case layerOf s1 elem of
                      None \<Rightarrow> Some (Return (), s1)
                    | Some l \<Rightarrow>
                        bnd (lineGroup_removeLayer (removeFromMap gr) (Some l))
                          (\<lambda>_. bnd (layer_remove gr l)
                                 (\<lambda>_. modify (\<lambda>s2.
                                    s2\<lparr> mv_layers := mv_layers s2 - {l},
                                        mv_objs := (case mv_objs s2 elem of
                                                      None \<Rightarrow> mv_objs s2
                                                    | Some m \<Rightarrow> (mv_objs s2)(elem \<mapsto> m\<lparr> me_layer := False \<rparr>)) \<rparr>)))
                          s1)
           (\<lambda>_. modify (\<lambda>s3.
              emitMap Delete elem
                (s3\<lparr> e_line := (case m_opposite gr e of
                                   None \<Rightarrow> (e_line s3)(e := None)
                                 | Some opp \<Rightarrow> (e_line s3)(e := None, opp := None)) \<rparr>)))
           s)"

definition deletePoint :: "mgraph \<Rightarrow> ident \<Rightarrow> unit mvm" where
  "deletePoint gr v = (\<lambda>s.
     case v_point s v of
       None \<Rightarrow> Some (Return (), s)
     | Some elem \<Rightarrow>
         bnd (forEach (deleteLine gr) (m_edges gr v))
           (\<lambda>_. bnd (removeFromParent gr elem)
              (\<lambda>_. bnd (\<lambda>s1. case layerOf s1 elem of
                                None \<Rightarrow> Some (Throw TypeError, s1)
                              | Some l \<Rightarrow> layer_remove gr l s1)
                 (\<lambda>_. modify (\<lambda>s2.
                    emitMap Delete elem
                      (s2\<lparr> mv_layers := mv_layers s2 - {elem},
                           mv_objs := (case mv_objs s2 elem of
                                         None \<Rightarrow> mv_objs s2
                                       | Some m \<Rightarrow> (mv_objs s2)(elem \<mapsto> m\<lparr> me_layer := False \<rparr>)),
                           v_point := (v_point s2)(v := None) \<rparr>)))))
           s)"

text \<open>
  \<open>updateParent(elem)\<close> for a model object: \<open>elem.line || elem.point || elem.layerGroup
  || elem.controlGroup\<close> is the visual object, and reading \<open>parent\<close> of a missing one
  throws. \<open>startUpdate\<close> and \<open>endUpdate\<close> of the class \<open>observable\<close> are recorded as events.
\<close>

definition visualOf :: "mv \<Rightarrow> entity \<Rightarrow> oid option" where
  "visualOf s elem = (case elem of
                        Vertex v \<Rightarrow> v_point s v
                      | Edge e \<Rightarrow> e_line s e
                      | SpatialGroup g \<Rightarrow> g_layerGroup s g
                      | TemporalGroup g \<Rightarrow> g_controlGroup s g)"

definition updateParent :: "mgraph \<Rightarrow> entity \<Rightarrow> oid mvm" where
  "updateParent gr elem = (\<lambda>s.
     case visualOf s elem of
       None \<Rightarrow> Some (Throw TypeError, s)
     | Some mapelem \<Rightarrow>
         (case deriveParent gr s mapelem of
            Inl err \<Rightarrow> Some (Throw err, s)
          | Inr par \<Rightarrow>
              (if parentOf s mapelem = par then Some (Return mapelem, s)
               else
                 bnd (modify (\<lambda>s1. s1\<lparr> mv_emitted := mv_emitted s1 @ [StartUpdate mapelem] \<rparr>))
                   (\<lambda>_. bnd (removeFromParent gr mapelem)
                      (\<lambda>_. bnd (addToDerivedParent gr mapelem)
                         (\<lambda>_. bnd (modify (\<lambda>s2. (updateLayerTree s2)
                                        \<lparr> mv_emitted := mv_emitted s2 @ [EndUpdate mapelem] \<rparr>))
                                (\<lambda>_. ret mapelem))))
                   s)))"

subsection \<open>Lines and the visibility of the end points\<close>

text \<open>Both end points of an edge have a point, and both points are visible.\<close>

definition bothVisible :: "mgraph \<Rightarrow> mv \<Rightarrow> ident \<Rightarrow> bool" where
  "bothVisible gr s e =
     (case (v_point s (m_from gr e), v_point s (m_to gr e)) of
        (Some fp, Some tp) \<Rightarrow> isVisible s fp \<and> isVisible s tp
      | _ \<Rightarrow> False)"

text \<open>
  The line of an edge, where it has one, is a line with its layer; this holds for the
  lines that \<open>createLine\<close> makes, until \<open>deleteLine\<close> removes the reference.
\<close>

definition edgeReady :: "mv \<Rightarrow> ident \<Rightarrow> bool" where
  "edgeReady s e =
     (case e_line s e of
        None \<Rightarrow> True
      | Some li \<Rightarrow> (case mv_objs s li of
                      None \<Rightarrow> False
                    | Some m \<Rightarrow> me_kind m = Line \<and> me_layer m))"

definition lineReady :: "mgraph \<Rightarrow> mv \<Rightarrow> ident \<Rightarrow> bool" where
  "lineReady gr s v = (\<forall>e\<in>set (m_edges gr v). edgeReady s e)"

text \<open>
  Adding a layer to the map changes the layers on the map and in the line container, and
  only adds to them; removing one only takes away from them.
\<close>

definition grows :: "mv \<Rightarrow> mv \<Rightarrow> bool" where
  "grows t t' = (mv_objs t' = mv_objs t \<and> e_line t' = e_line t \<and> v_point t' = v_point t
                 \<and> lf_onMap t \<subseteq> lf_onMap t' \<and> lf_lineGroup t \<subseteq> lf_lineGroup t')"

definition shrinks :: "mv \<Rightarrow> mv \<Rightarrow> bool" where
  "shrinks t t' = (mv_objs t' = mv_objs t \<and> e_line t' = e_line t \<and> v_point t' = v_point t
                 \<and> lf_onMap t' \<subseteq> lf_onMap t \<and> lf_lineGroup t' \<subseteq> lf_lineGroup t)"

subsection \<open>What the operations of the viewer leave unchanged\<close>

text \<open>
  A run keeps a relation between states when every state it can leave, on return or on an
  exception, is related to the state it started from.
\<close>

definition pres :: "(mv \<Rightarrow> mv \<Rightarrow> bool) \<Rightarrow> 'a mvm \<Rightarrow> bool" where
  "pres R m = (\<forall>s r s'. m s = Some (r, s') \<longrightarrow> R s s')"

text \<open>
  The rendering library changes the layers on the map, the layers in the line container
  and, through the listeners of the map, the events emitted, and nothing else of the state.
\<close>

definition libOnly :: "mv \<Rightarrow> mv \<Rightarrow> bool" where
  "libOnly s s' = (s' = s\<lparr> lf_onMap := lf_onMap s', lf_lineGroup := lf_lineGroup s',
                            mv_emitted := mv_emitted s' \<rparr>)"

definition libAdds :: "mv \<Rightarrow> mv \<Rightarrow> bool" where
  "libAdds s s' = (libOnly s s' \<and> lf_onMap s \<subseteq> lf_onMap s')"

text \<open>
  Between two states, the references from the model to the visual objects, the kind, the
  model object and the layer of every visual object, and the recorded parent of every
  visual object other than \<open>x\<close> are the same.
\<close>

definition shape :: "mapelem \<Rightarrow> kind \<times> ident \<times> bool" where
  "shape m = (me_kind m, me_model m, me_layer m)"

definition frame :: "oid \<Rightarrow> mv \<Rightarrow> mv \<Rightarrow> bool" where
  "frame x s s' =
     (mv_next s' = mv_next s \<and> v_point s' = v_point s \<and> e_line s' = e_line s
      \<and> g_layerGroup s' = g_layerGroup s \<and> g_controlGroup s' = g_controlGroup s
      \<and> mv_treeRefreshes s' = mv_treeRefreshes s
      \<and> (\<forall>y. map_option shape (mv_objs s' y) = map_option shape (mv_objs s y))
      \<and> (\<forall>y. y \<noteq> x \<longrightarrow> parentOf s' y = parentOf s y))"

text \<open>The parent recorded or derived for a visual object, where it is one, has its layer.\<close>

definition parentLayer :: "mv \<Rightarrow> parentRef \<Rightarrow> bool" where
  "parentLayer s par = (case par of Ref p \<Rightarrow> layerOf s p = Some p | _ \<Rightarrow> True)"

text \<open>
  The layers under a layer nest at most \<open>n\<close> groups deep, and the lines of the points
  among them have their layers: then the recursion of the library over the members ends.
\<close>

primrec wellNested :: "mgraph \<Rightarrow> nat \<Rightarrow> mv \<Rightarrow> oid \<Rightarrow> bool" where
  "wellNested gr 0 s l =
     (layerMembers s l = [] \<and> (isPoint s l \<longrightarrow> lineReady gr s (vertexOf s l)))"
| "wellNested gr (Suc n) s l =
     ((isPoint s l \<longrightarrow> lineReady gr s (vertexOf s l))
      \<and> (\<forall>m\<in>set (layerMembers s l). wellNested gr n s m))"

text \<open>The state in which the layer of the parent \<open>par\<close> holds the layer of \<open>x\<close>.\<close>

definition withChild :: "mv \<Rightarrow> parentRef \<Rightarrow> oid \<Rightarrow> mv" where
  "withChild s par x =
     (case par of
        Ref q \<Rightarrow> s\<lparr> lf_members := (lf_members s)(q := lf_members s q @ [x]) \<rparr>
      | _ \<Rightarrow> s)"

text \<open>A control group with a parent is in the array \<open>children\<close> that the parent has.\<close>

definition childrenKept :: "mv \<Rightarrow> oid \<Rightarrow> bool" where
  "childrenKept s x =
     (kindOf s x = Some ControlGroup \<longrightarrow>
        (case parentOf s x of
           Ref p \<Rightarrow> (case mv_objs s p of
                        None \<Rightarrow> False
                      | Some m \<Rightarrow> me_children m \<noteq> None)
         | _ \<Rightarrow> True))"

subsection \<open>A small map\<close>

text \<open>
  Three vertices \<open>u\<close>, \<open>v\<close>, \<open>w\<close> of the spatial group \<open>G1\<close>. The edges \<open>e\<close> from
  \<open>u\<close> to \<open>v\<close> and \<open>o\<close> from \<open>v\<close> to \<open>u\<close> are opposite to each other; the edge \<open>d\<close>
  from \<open>u\<close> to \<open>w\<close> has no opposite; the edge \<open>r\<close> from \<open>v\<close> to \<open>w\<close> is a route whose
  opposite \<open>t\<close> from \<open>w\<close> to \<open>v\<close> is temporal.
\<close>

definition ex_mgraph :: mgraph where
  "ex_mgraph =
     \<lparr> m_spatialGroup = (\<lambda>_. ''G1''),
       m_edges = (\<lambda>x. if x = ''u'' then [''e'', ''d'']
                       else if x = ''v'' then [''o'', ''r'']
                       else if x = ''w'' then [''t''] else []),
       m_vertexType = (\<lambda>_. ''panorama''),
       m_edgeType = (\<lambda>x. if x = ''t'' then edge_TEMPORAL else ''route''),
       m_from = (\<lambda>x. if x = ''e'' \<or> x = ''d'' then ''u''
                      else if x = ''o'' \<or> x = ''r'' then ''v'' else ''w''),
       m_to = (\<lambda>x. if x = ''e'' then ''v''
                    else if x = ''o'' then ''u''
                    else if x = ''t'' then ''v'' else ''w''),
       m_opposite = (\<lambda>x. if x = ''e'' then Some ''o''
                          else if x = ''o'' then Some ''e''
                          else if x = ''r'' then Some ''t''
                          else if x = ''t'' then Some ''r'' else None),
       m_superGroup = (\<lambda>_. None) \<rparr>"


text \<open>A viewer without visual objects, with the lines shown.\<close>

definition mv0 :: mv where
  "mv0 = \<lparr> mv_objs = Map.empty, mv_next = 0, v_point = Map.empty, e_line = Map.empty,
            g_layerGroup = Map.empty, g_controlGroup = Map.empty, mv_layers = {},
            mv_overlayTree = [], mv_emitted = [], mv_treeRefreshes = 0, lf_onMap = {},
            lf_members = (\<lambda>_. []), lf_lineGroup = {}, lf_lineGroupOnMap = True \<rparr>"

text \<open>The state that a run leaves, and the value it returns.\<close>

definition stateOf :: "('a outcome \<times> mv) option \<Rightarrow> mv" where
  "stateOf r = (case r of Some (_, s) \<Rightarrow> s | None \<Rightarrow> mv0)"

definition returned :: "('a outcome \<times> mv) option \<Rightarrow> 'a option" where
  "returned r = (case r of Some (Return x, _) \<Rightarrow> Some x | _ \<Rightarrow> None)"






text \<open>The line of the route \<open>r\<close> is created in the empty viewer.\<close>

definition ex_route :: mv where
  "ex_route = stateOf (createLine ex_mgraph ''r'' None mv0)"





section \<open>Aggregation of a timeline row\<close>

lemma spec_runs_nonempty: "xs \<noteq> [] \<Longrightarrow> spec_runs c xs \<noteq> []"
  by (induction c xs rule: spec_runs.induct) (auto split: list.splits)

lemma spec_runs_concat: "concat (spec_runs c xs) = xs"
  by (induction c xs rule: spec_runs.induct) (auto split: list.splits)

lemma spec_runs_hd: "xs \<noteq> [] \<Longrightarrow> hd (hd (spec_runs c xs)) = hd xs \<and> hd (spec_runs c xs) \<noteq> []"
  by (induction c xs rule: spec_runs.induct) (auto split: list.splits)

lemma spec_runs_chain: "r \<in> set (spec_runs c xs) \<Longrightarrow> r \<noteq> [] \<and> chain c r"
proof (induction c xs arbitrary: r rule: spec_runs.induct)
  case (3 c x y ys)
  show ?case
  proof (cases "gap x y < c")
    case True
    then obtain r' rs where rr: "spec_runs c (y # ys) = r' # rs"
      using spec_runs_nonempty[of "y # ys" c] by (cases "spec_runs c (y # ys)") auto
    have h: "hd r' = y \<and> r' \<noteq> []" using spec_runs_hd[of "y # ys" c] rr by simp
    then obtain r'' where r': "r' = y # r''" by (cases r') auto
    have "r = x # r' \<or> r \<in> set rs" using "3.prems" True rr by auto
    then show ?thesis
    proof
      assume "r = x # r'"
      moreover have "chain c r'" using "3.IH"(1)[OF True, of r'] rr by simp
      ultimately show ?thesis using True r' by simp
    next
      assume "r \<in> set rs"
      then show ?thesis using "3.IH"(1)[OF True, of r] rr by simp
    qed
  next
    case False
    then show ?thesis using "3.prems" "3.IH"(2)[of r] by auto
  qed
qed auto

lemma spec_runs_separated: "separated c (spec_runs c xs)"
proof (induction c xs rule: spec_runs.induct)
  case (3 c x y ys)
  obtain r' rs where rr: "spec_runs c (y # ys) = r' # rs"
    using spec_runs_nonempty[of "y # ys" c] by (cases "spec_runs c (y # ys)") auto
  have h: "hd r' = y \<and> r' \<noteq> []" using spec_runs_hd[of "y # ys" c] rr by simp
  show ?case
  proof (cases "gap x y < c")
    case True
    then have "separated c (r' # rs)" using 3 rr by simp
    then have "separated c ((x # r') # rs)" using h by (cases rs) auto
    then show ?thesis using True rr by simp
  next
    case False
    then show ?thesis using 3 rr h by simp
  qed
qed auto

lemma spec_runs_single: "arr \<noteq> [] \<Longrightarrow> chain c arr \<Longrightarrow> spec_runs c arr = [arr]"
  by (induction c arr rule: spec_runs.induct) auto

lemma spec_runs_break:
  "arr \<noteq> [] \<Longrightarrow> chain c arr \<Longrightarrow> \<not> gap (last arr) x < c \<Longrightarrow>
   spec_runs c (arr @ x # xs) = arr # spec_runs c (x # xs)"
proof (induction c arr rule: spec_runs.induct)
  case (3 c a b bs)
  then show ?case by simp
qed auto

lemma chain_snoc: "arr \<noteq> [] \<Longrightarrow> chain c arr \<Longrightarrow> gap (last arr) x < c \<Longrightarrow> chain c (arr @ [x])"
  by (induction c arr rule: chain.induct) auto

lemma processArray_flush: "arr \<noteq> [] \<Longrightarrow> processArray arr out = out @ spec_flush arr"
  by (induction arr out rule: processArray.induct) (auto simp: spec_flush_def)

lemma walk_runs:
  "arr \<noteq> [] \<Longrightarrow> chain c arr \<Longrightarrow> truthy_time (item_start (last arr)) \<Longrightarrow>
   \<forall>i\<in>set xs. truthy_time (item_start i) \<Longrightarrow>
   finish (fold (walkStep c) xs (arr, Some (item_start (last arr)), out))
     = out @ concat (map spec_flush (spec_runs c (arr @ xs)))"
proof (induction xs arbitrary: arr out)
  case Nil
  then show ?case by (simp add: finish_def spec_runs_single processArray_flush)
next
  case (Cons x xs)
  show ?case
  proof (cases "gap (last arr) x < c")
    case True
    have "finish (fold (walkStep c) xs (arr @ [x], Some (item_start (last (arr @ [x]))), out))
        = out @ concat (map spec_flush (spec_runs c ((arr @ [x]) @ xs)))"
      using Cons.prems True by (intro Cons.IH) (auto simp: chain_snoc)
    then show ?thesis using True Cons.prems by (simp add: gap_def)
  next
    case False
    have "finish (fold (walkStep c) xs ([x], Some (item_start (last [x])), processArray arr out))
        = processArray arr out @ concat (map spec_flush (spec_runs c ([x] @ xs)))"
      using Cons.prems by (intro Cons.IH) auto
    then show ?thesis using False Cons.prems
      by (simp add: gap_def spec_runs_break processArray_flush)
  qed
qed

lemma aggregateRow_runs:
  assumes "\<forall>i\<in>set xs. truthy_time (item_start i)"
  shows "aggregateRow c xs out
     = out @ concat (map spec_flush (spec_runs c (sort_key (\<lambda>i. ms (item_start i)) xs)))"
proof (cases "sort_key (\<lambda>i. ms (item_start i)) xs")
  case Nil
  then show ?thesis by (simp add: aggregateRow_def)
next
  case (Cons y ys)
  have t: "\<forall>i\<in>set (y # ys). truthy_time (item_start i)"
    using assms Cons by (metis set_sort)
  have "finish (fold (walkStep c) ys ([y], Some (item_start (last [y])), out))
      = out @ concat (map spec_flush (spec_runs c ([y] @ ys)))"
    using t by (intro walk_runs) auto
  then show ?thesis using Cons by (simp add: aggregateRow_def finish_def setFirst_def)
qed

lemma groupItems_mem:
  "i \<in> set (groupItems gr s st en tg) \<Longrightarrow> \<exists>k. (k, i) \<in> set (tv_items s)"
  by (auto simp: groupItems_def getItem_def split: option.splits if_splits dest: map_of_SomeD[OF sym])

lemma aggregate_fold:
  assumes "\<forall>(k, i)\<in>set (tv_items s). truthy_time (item_start i)"
  shows "fold (\<lambda>(k, g) out.
             aggregateRow (criticalDuration e)
               (groupItems gr s (windowStart e) (win_end e) (group_id g)) out) gs out0
       = out0 @ concat (map (\<lambda>(k, g). concat (map spec_flush (spec_runs (criticalDuration e) (row gr e s (group_id g))))) gs)"
proof (induction gs arbitrary: out0)
  case Nil
  then show ?case by simp
next
  case (Cons p gs)
  obtain k g where p: "p = (k, g)" by (cases p)
  have t: "\<forall>i\<in>set (groupItems gr s (windowStart e) (win_end e) (group_id g)). truthy_time (item_start i)"
    using assms groupItems_mem by fastforce
  show ?case using Cons.IH p by (simp add: aggregateRow_runs[OF t] row_def)
qed

lemma aggregate_spec:
  assumes "\<forall>(k, i)\<in>set (tv_items s). truthy_time (item_start i)"
  shows "aggregate gr e s = spec_aggregate gr e s"
  using aggregate_fold[OF assms, of e gr "tv_groups s" "[]"]
  by (simp add: aggregate_def spec_aggregate_def)

lemma aggregate_frame:
  "aggregate gr e (s\<lparr> tv_width := w, tv_start := a, tv_end := b \<rparr>) = aggregate gr e s"
  by (simp add: aggregate_def groupItems_def getItem_def)

text \<open>
  Claim C1. One pass of \<open>refreshItems\<close> that is not skipped, with aggregation enabled,
  hands to the timeline, for every row in turn, the maximal runs of its visible members
  sorted by start time: a run is a non-empty sequence whose consecutive gaps are all below
  \<open>criticalDuration\<close>, two neighbouring runs are separated by a gap that is not below it,
  a run of one or two items is passed on item by item, and a run of three or more becomes
  one range item from its first to its last member. Start values are taken to be truthy
  (date objects, or numbers other than 0).
\<close>

theorem refreshItems_aggregation:
  assumes "aggregateItems e"
    and "\<not> unchanged force e s"
    and "\<forall>(k, i)\<in>set (tv_items s). truthy_time (item_start i)"
  shows "tv_calls (refreshItems force gr e s)
           = tv_calls s @ [SetItems (spec_aggregate gr e s), SetSelection (map fst (tv_selections s))]
       \<and> concat (spec_runs c xs) = xs
       \<and> (\<forall>r\<in>set (spec_runs c xs). r \<noteq> [] \<and> chain c r)
       \<and> separated c (spec_runs c xs)"
proof -
  have "tv_calls (refreshItems force gr e s)
           = tv_calls s @ [SetItems (spec_aggregate gr e s), SetSelection (map fst (tv_selections s))]"
    using assms(1,2) aggregate_spec[OF assms(3), of gr e]
    by (simp add: refreshItems_def Let_def setItems_def refreshSelections_def aggregate_frame)
  then show ?thesis
    using spec_runs_concat spec_runs_chain spec_runs_separated by blast
qed

lemma ex_crit: "criticalDuration ex_env = 5"
  by (simp add: criticalDuration_def millisecondsPerPixel_def ex_env_def itemWidth_def)

lemma ex_start: "windowStart ex_env = Some (-10)"
  by (simp add: windowStart_def millisecondsPerPixel_def ex_env_def itemWidth_def newDate_def trunc_def)

lemma ex_row: "row ex_graph ex_env ex_tv ''T'' = [ex_item ''a'' 0, ex_item ''b'' 1, ex_item ''c'' 2, ex_item ''d'' 100, ex_item ''e'' 101]"
proof -
  have we: "win_end ex_env = 200" by (simp add: ex_env_def)
  show ?thesis
    by (simp add: row_def groupItems_def ex_start we getItem_def ex_graph_def visible_def ex_tv_def ex_item_def)
qed

text \<open>
  The row with start times 0, 1, 2, 100, 101 and a critical duration of 5 (a window of
  200 ms on 3200 pixels): one range item for the first three, then the last two as they are.
\<close>

theorem refreshItems_aggregation_witness:
  "tv_calls (refreshItems False ex_graph ex_env ex_tv)
     = [SetItems [RangeItem \<lparr> ri_items = [ex_item ''a'' 0, ex_item ''b'' 1, ex_item ''c'' 2],
                             ri_group = ''T'', ri_id = ''a-c'', ri_title = ''a - c'',
                             ri_content = ''a - c'', ri_start = DateObj 0, ri_end = DateObj 2,
                             ri_type = ''range'' \<rparr>,
                  Item (ex_item ''d'' 100), Item (ex_item ''e'' 101)],
        SetSelection []]"
proof -
  have a: "aggregateItems ex_env" by (simp add: ex_env_def)
  have u: "\<not> unchanged False ex_env ex_tv" by (simp add: unchanged_def ex_env_def ex_tv_def)
  have t: "\<forall>(k, i)\<in>set (tv_items ex_tv). truthy_time (item_start i)"
    by (simp add: ex_tv_def ex_item_def)
  have g: "tv_groups ex_tv = [(''T'', ex_group)]" "tv_calls ex_tv = []" "tv_selections ex_tv = []"
    by (simp_all add: ex_tv_def)
  have i: "group_id ex_group = ''T''" by (simp add: ex_group_def)
  show ?thesis
    using refreshItems_aggregation[OF a u t, of ex_graph 0 "[]"]
    by (simp add: spec_aggregate_def g i ex_row ex_crit gap_def ex_item_def spec_flush_def rangeItem_new_def Let_def)
qed

section \<open>The guard of refreshItems\<close>






section \<open>Exclusive selection\<close>

lemma newSet_filter: "newSet (filter P xs) = filter P (newSet xs)"
  by (induction xs) (auto simp: filter_id_conv intro: filter_cong)

lemma set_newSet [simp]: "set (newSet xs) = set xs"
  by (induction xs) auto

lemma distinct_newSet [simp]: "distinct (newSet xs)"
  by (induction xs) auto

lemma update_fresh: "k \<notin> fst ` set al \<Longrightarrow> AList.update k v al = al @ [(k, v)]"
  by (induction al) auto

lemma map_of_None_iff: "map_of al k = None \<longleftrightarrow> k \<notin> fst ` set al"
  by (simp add: map_of_eq_None_iff)

lemma deselectSibling_sg_item [simp]: "sg_item (deselectSibling c s) = sg_item s"
  by (simp add: deselectSibling_def emit_def split: option.splits)

lemma fold_deselectSibling:
  "fold deselectSibling cs s =
     s\<lparr> tv_selections := filter (\<lambda>(k, v). k \<notin> set (siblingIds s cs)) (tv_selections s),
        tv_emitted := tv_emitted s @ map (ItemEvent DESELECT)
           (newSet (filter (\<lambda>k. k \<in> fst ` set (tv_selections s)) (siblingIds s cs))) \<rparr>"
proof (induction cs arbitrary: s)
  case Nil
  then show ?case by (simp add: siblingIds_def)
next
  case (Cons c cs)
  have sib: "siblingIds (deselectSibling c s) cs = siblingIds s cs"
    by (simp add: siblingIds_def)
  show ?case
  proof (cases "sg_item s c")
    case None
    then have "deselectSibling c s = s" by (simp add: deselectSibling_def)
    then show ?thesis using Cons.IH[of s] None by (simp add: siblingIds_def)
  next
    case (Some it)
    let ?k = "item_id it"
    have sc: "siblingIds s (c # cs) = ?k # siblingIds s cs"
      using Some by (simp add: siblingIds_def)
    show ?thesis
    proof (cases "?k \<in> fst ` set (tv_selections s)")
      case False
      then have d: "deselectSibling c s = s"
        using Some by (simp add: deselectSibling_def map_of_None_iff)
      have f: "filter (\<lambda>(k, v). k \<noteq> ?k \<and> k \<notin> set (siblingIds s cs)) (tv_selections s)
             = filter (\<lambda>(k, v). k \<notin> set (siblingIds s cs)) (tv_selections s)"
        using False by (intro filter_cong) force+
      have g: "filter (\<lambda>y. y \<noteq> ?k) (newSet (filter (\<lambda>k. k \<in> fst ` set (tv_selections s)) (siblingIds s cs)))
             = newSet (filter (\<lambda>k. k \<in> fst ` set (tv_selections s)) (siblingIds s cs))"
        using False by (force simp: filter_id_conv)
      show ?thesis using Cons.IH[of s] d False by (simp add: sc f g)
    next
      case True
      let ?s1 = "deselectSibling c s"
      have d: "?s1 = s\<lparr> tv_selections := AList.delete ?k (tv_selections s),
                        tv_emitted := tv_emitted s @ [ItemEvent DESELECT ?k] \<rparr>"
        using Some True by (simp add: deselectSibling_def map_of_None_iff emit_def)
      have keys: "fst ` set (AList.delete ?k (tv_selections s)) = fst ` set (tv_selections s) - {?k}"
        by (auto simp: AList.delete_eq image_iff)
      have f: "filter (\<lambda>(k, v). k \<notin> set (siblingIds s cs)) (AList.delete ?k (tv_selections s))
             = filter (\<lambda>(k, v). k \<noteq> ?k \<and> k \<notin> set (siblingIds s cs)) (tv_selections s)"
        by (auto simp: AList.delete_eq intro: filter_cong)
      have g: "newSet (filter (\<lambda>k. k \<in> fst ` set (tv_selections s) \<and> k \<noteq> ?k) (siblingIds s cs))
             = filter (\<lambda>y. y \<noteq> ?k) (newSet (filter (\<lambda>k. k \<in> fst ` set (tv_selections s)) (siblingIds s cs)))"
        by (simp add: newSet_filter conj_commute)
      have "fold deselectSibling (c # cs) s = fold deselectSibling cs ?s1" by simp
      also have "\<dots> = ?s1\<lparr> tv_selections := filter (\<lambda>(k, v). k \<notin> set (siblingIds ?s1 cs)) (tv_selections ?s1),
        tv_emitted := tv_emitted ?s1 @ map (ItemEvent DESELECT)
           (newSet (filter (\<lambda>k. k \<in> fst ` set (tv_selections ?s1)) (siblingIds ?s1 cs))) \<rparr>"
        by (rule Cons.IH)
      also have "\<dots> = s\<lparr> tv_selections := filter (\<lambda>(k, v). k \<notin> set (siblingIds s (c # cs))) (tv_selections s),
        tv_emitted := tv_emitted s @ map (ItemEvent DESELECT)
           (newSet (filter (\<lambda>k. k \<in> fst ` set (tv_selections s)) (siblingIds s (c # cs)))) \<rparr>"
        using True by (simp add: sib sc) (simp add: d keys f g)
      finally show ?thesis .
    qed
  qed
qed

text \<open>
  Claim C3. Selecting (with \<open>select\<close> true or left out) an item that is not selected,
  whose spatial group has a parent and is not multiselect, removes from the selection the
  items of the sub groups of that parent, with one DESELECT for each one that was selected,
  in the order of the sub groups, and then appends the item with one SELECT. The other
  entries of the selection stay as they are and get no event.
\<close>

theorem toggleSelection_exclusive:
  assumes "\<not> isSelected s (Some i)"
    and "g_superGroup gr (item_spatialGroup i) = Some p"
    and "\<not> g_multiselect gr (item_spatialGroup i)"
    and "sel = None \<or> sel = Some True"
  shows "fst (toggleSelection gr (Some i) sel s) = Some i
     \<and> tv_selections (snd (toggleSelection gr (Some i) sel s))
         = filter (\<lambda>(k, v). k \<notin> set (siblingIds s (g_children gr p))) (tv_selections s)
           @ [(item_id i, i)]
     \<and> tv_emitted (snd (toggleSelection gr (Some i) sel s))
         = tv_emitted s
           @ map (ItemEvent DESELECT)
               (newSet (filter (\<lambda>k. k \<in> fst ` set (tv_selections s)) (siblingIds s (g_children gr p))))
           @ [ItemEvent SELECT (item_id i)]"
proof -
  have k: "item_id i \<notin> fst ` set (tv_selections s)"
    using assms(1) by (simp add: isSelected_def map_of_None_iff)
  then have k': "item_id i \<notin> fst ` set (filter (\<lambda>(k, v). k \<notin> set (siblingIds s (g_children gr p))) (tv_selections s))"
    by auto
  have sel: "(case sel of None \<Rightarrow> \<not> isSelected s (Some i) | Some b \<Rightarrow> b) = True"
    using assms(1,4) by auto
  show ?thesis
    using assms(1,2,3)
    by (simp add: toggleSelection_def sel Let_def fold_deselectSibling emit_def refreshSelections_def
        update_fresh[OF k'])
qed

lemma sel_A_fields:
  "tv_selections sel_A = [(''x'', sel_item ''U'' ''x''), (''a'', sel_item ''T'' ''a'')]"
  "tv_emitted sel_A = [ItemEvent SELECT ''x'', ItemEvent SELECT ''a'']"
  "sg_item sel_A = sg_item sel_tv"
  by (simp_all add: sel_A_def toggleSelection_def isSelected_def sel_tv_def sel_item_def sel_graph_def
      Let_def deselectSibling_def emit_def refreshSelections_def)

text \<open>
  With \<open>x\<close> of another group and then \<open>a\<close> selected, selecting \<open>b\<close>, a sibling of
  \<open>a\<close>, leaves \<open>x\<close> and \<open>b\<close> selected and emits DESELECT for \<open>a\<close>, then SELECT
  for \<open>b\<close>.
\<close>

theorem toggleSelection_exclusive_witness:
  "map fst (tv_selections (snd (toggleSelection sel_graph (Some (sel_item ''T'' ''b'')) None sel_A)))
     = [''x'', ''b'']
   \<and> tv_emitted (snd (toggleSelection sel_graph (Some (sel_item ''T'' ''b'')) None sel_A))
     = [ItemEvent SELECT ''x'', ItemEvent SELECT ''a'', ItemEvent DESELECT ''a'', ItemEvent SELECT ''b'']"
proof -
  have 1: "\<not> isSelected sel_A (Some (sel_item ''T'' ''b''))"
    by (simp add: isSelected_def sel_A_fields sel_item_def)
  have 2: "g_superGroup sel_graph (item_spatialGroup (sel_item ''T'' ''b'')) = Some ''T''"
    by (simp add: sel_graph_def sel_item_def)
  have 3: "\<not> g_multiselect sel_graph (item_spatialGroup (sel_item ''T'' ''b''))"
    by (simp add: sel_graph_def)
  have sib: "siblingIds sel_A (g_children sel_graph ''T'') = [''a'', ''b'', ''c'']"
    by (simp add: siblingIds_def sel_A_fields sel_graph_def sel_tv_def sel_item_def)
  show ?thesis
    using toggleSelection_exclusive[OF 1 2 3, of None]
    by (simp add: sib sel_A_fields sel_item_def)
qed

section \<open>Selection pushed by the settings\<close>

lemma delete_fresh: "k \<notin> fst ` set al \<Longrightarrow> AList.delete k al = al"
  by (induction al) auto

lemma keys_delete: "fst ` set (AList.delete k al) = fst ` set al - {k}"
  by (auto simp: AList.delete_eq image_iff)
















section \<open>Creating twice\<close>

lemma createItem_known:
  "map_of (tv_items s) g = Some it \<Longrightarrow> createItem gr e g s = Inr (Some it, s)"
  by (simp add: createItem_def)

lemma createGroup_known:
  "map_of (tv_groups s) g = Some grp \<Longrightarrow> createGroup gr g s = Inr (Some grp, s)"
  by (simp add: createGroup_def)

lemma toggleSelection_items [simp]:
  "tv_items (snd (toggleSelection gr io sel s)) = tv_items s"
proof -
  have "tv_items (fold deselectSibling cs s') = tv_items s'" for cs s'
    by (simp add: fold_deselectSibling)
  then show ?thesis
    by (auto simp: toggleSelection_def Let_def emit_def refreshSelections_def split: option.splits)
qed

lemma createItem_registers:
  assumes "createItem gr e g s = Inr (r, s')"
  shows "map_of (tv_items s') g \<noteq> None"
proof (cases "map_of (tv_items s) g")
  case (Some it)
  then have "createItem gr e g s = Inr (Some it, s)" by (rule createItem_known)
  with assms have "s' = s" by simp
  then show ?thesis using Some by simp
next
  case None
  then show ?thesis using assms
    by (auto simp: createItem_def item_new_def Let_def emit_def update_conv'
        split: option.splits sum.splits if_splits)
qed

lemma createItem_twice:
  assumes "createItem gr e g s = Inr (r, s')"
  shows "\<exists>it. createItem gr e' g s' = Inr (Some it, s')"
  using createItem_registers[OF assms] by (auto simp: createItem_def)

lemma createGroup_twice:
  assumes "createGroup gr g s = Inr (r, s')"
  shows "\<exists>grp. createGroup gr' g s' = Inr (Some grp, s')"
proof -
  have "map_of (tv_groups s') g \<noteq> None"
  proof (cases "map_of (tv_groups s) g")
    case (Some a)
    then have "createGroup gr g s = Inr (Some a, s)" by (rule createGroup_known)
    with assms have "s' = s" by simp
    then show ?thesis using Some by simp
  next
    case None
    then show ?thesis using assms
      by (auto simp: createGroup_def group_new_def Let_def emit_def refreshGroups_def update_conv'
          split: option.splits sum.splits if_splits)
  qed
  then show ?thesis by (auto simp: createGroup_def)
qed

text \<open>
  Claim C2 holds for a call that finds the id registered, and fails for the call that
  registers it: \<open>createItem\<close> and \<open>createGroup\<close> end without a \<open>return\<close>, so the first
  call answers \<open>undefined\<close> and only the second answers the item. Here the first call
  creates the item of the spatial group \<open>a\<close> and emits CREATE; the second returns the item,
  changes nothing and emits nothing.
\<close>

theorem createItem_first_call_undefined:
  "(case createItem ex_graph ex_env ''a'' (ex_tv\<lparr> tv_items := [] \<rparr>) of
      Inl err \<Rightarrow> False
    | Inr (r, s1) \<Rightarrow>
        r = None
        \<and> tv_emitted s1 = [ItemEvent CREATE ''a'']
        \<and> createItem ex_graph ex_env ''a'' s1 = Inr (Some (ex_item ''a'' 0), s1))"
  by (simp add: createItem_def item_new_def ex_graph_def ex_env_def ex_tv_def ex_item_def Let_def emit_def)

section \<open>Loading a tour\<close>

lemma kind_tg:
  "map fst C = map TemporalGroupNode js \<Longrightarrow>
   map fst (tgCalls C) = js \<and> sgCalls C = [] \<and> vCalls C = [] \<and> eCalls C = []"
proof (induction C arbitrary: js)
  case Nil
  then show ?case by (simp add: tgCalls_def sgCalls_def vCalls_def eCalls_def)
next
  case (Cons c C)
  then obtain j js' where "js = j # js'" by (cases js) auto
  then show ?case using Cons.prems Cons.IH[of js']
    by (cases c) (auto simp: tgCalls_def sgCalls_def vCalls_def eCalls_def)
qed

lemma kind_sg:
  "map fst C = map SpatialGroupNode js \<Longrightarrow>
   map fst (sgCalls C) = js \<and> tgCalls C = [] \<and> vCalls C = [] \<and> eCalls C = []"
proof (induction C arbitrary: js)
  case Nil
  then show ?case by (simp add: tgCalls_def sgCalls_def vCalls_def eCalls_def)
next
  case (Cons c C)
  then obtain j js' where "js = j # js'" by (cases js) auto
  then show ?case using Cons.prems Cons.IH[of js']
    by (cases c) (auto simp: tgCalls_def sgCalls_def vCalls_def eCalls_def)
qed

lemma kind_v:
  "map fst C = map VertexNode js \<Longrightarrow>
   map fst (vCalls C) = js \<and> tgCalls C = [] \<and> sgCalls C = [] \<and> eCalls C = []"
proof (induction C arbitrary: js)
  case Nil
  then show ?case by (simp add: tgCalls_def sgCalls_def vCalls_def eCalls_def)
next
  case (Cons c C)
  then obtain j js' where "js = j # js'" by (cases js) auto
  then show ?case using Cons.prems Cons.IH[of js']
    by (cases c) (auto simp: tgCalls_def sgCalls_def vCalls_def eCalls_def)
qed

lemma kind_e:
  "map fst C = map EdgeNode js \<Longrightarrow>
   map fst (eCalls C) = js \<and> tgCalls C = [] \<and> sgCalls C = [] \<and> vCalls C = []"
proof (induction C arbitrary: js)
  case Nil
  then show ?case by (simp add: tgCalls_def sgCalls_def vCalls_def eCalls_def)
next
  case (Cons c C)
  then obtain j js' where "js = j # js'" by (cases js) auto
  then show ?case using Cons.prems Cons.IH[of js']
    by (cases c) (auto simp: tgCalls_def sgCalls_def vCalls_def eCalls_def)
qed

lemma calls_append [simp]:
  "tgCalls (A @ B) = tgCalls A @ tgCalls B" "sgCalls (A @ B) = sgCalls A @ sgCalls B"
  "vCalls (A @ B) = vCalls A @ vCalls B" "eCalls (A @ B) = eCalls A @ eCalls B"
  by (simp_all add: tgCalls_def sgCalls_def vCalls_def eCalls_def)

lemma calls_nil [simp]:
  "tgCalls [] = []" "sgCalls [] = []" "vCalls [] = []" "eCalls [] = []"
  by (simp_all add: tgCalls_def sgCalls_def vCalls_def eCalls_def)

lemma calls_cons [simp]:
  "tgCalls (c # C) = tgCall c @ tgCalls C" "sgCalls (c # C) = sgCall c @ sgCalls C"
  "vCalls (c # C) = vCall c @ vCalls C" "eCalls (c # C) = eCall c @ eCalls C"
  by (simp_all add: tgCalls_def sgCalls_def vCalls_def eCalls_def)

lemma embedded_simps [simp]:
  "embedded ch [] = []"
  "embedded ch ((j, b) # C) = (if b then ch j else []) @ embedded ch C"
  "embedded ch (A @ B) = embedded ch A @ embedded ch B"
  by (simp_all add: embedded_def)

lemma loop1:
  assumes "fold (loadTemporalGroup ops) js (succ, acc, s) = (succ', acc', s')"
  shows "\<exists>C. ld_calls s' = ld_calls s @ C \<and> map fst C = map TemporalGroupNode js
      \<and> (succ' \<longleftrightarrow> succ \<and> (\<forall>c\<in>set C. snd c))
      \<and> map fst acc' = map fst acc @ embedded tg_subGroups (tgCalls C)
      \<and> length (ld_logged s') = length (ld_logged s) + length (filter (\<lambda>c. \<not> snd c) C)"
  using assms
proof (induction js arbitrary: succ acc s)
  case Nil
  then show ?case by simp
next
  case (Cons j js)
  obtain succ1 acc1 s1 where st: "loadTemporalGroup ops j (succ, acc, s) = (succ1, acc1, s1)"
    by (cases "loadTemporalGroup ops j (succ, acc, s)") auto
  then have "fold (loadTemporalGroup ops) js (succ1, acc1, s1) = (succ', acc', s')"
    using Cons.prems by simp
  from Cons.IH[OF this] obtain C where C: "ld_calls s' = ld_calls s1 @ C"
      "map fst C = map TemporalGroupNode js"
      "succ' \<longleftrightarrow> succ1 \<and> (\<forall>c\<in>set C. snd c)"
      "map fst acc' = map fst acc1 @ embedded tg_subGroups (tgCalls C)"
      "length (ld_logged s') = length (ld_logged s1) + length (filter (\<lambda>c. \<not> snd c) C)"
    by blast
  obtain b where b: "ld_calls s1 = ld_calls s @ [(TemporalGroupNode j, b)]"
      "succ1 \<longleftrightarrow> succ \<and> b"
      "map fst acc1 = map fst acc @ (if b then tg_subGroups j else [])"
      "length (ld_logged s1) = length (ld_logged s) + (if b then 0 else 1)"
    using st
    by (auto simp: loadTemporalGroup_def created_def caught_def comp_def split: prod.splits sum.splits)
  show ?case
    by (rule exI[of _ "(TemporalGroupNode j, b) # C"]) (use C b in auto)
qed

lemma loop2:
  assumes "fold (loadSpatialGroup ops dir) js (succ, acc, s) = (succ', acc', s')"
  shows "\<exists>C. ld_calls s' = ld_calls s @ C \<and> map fst C = map (SpatialGroupNode \<circ> fst) js
      \<and> (succ' \<longleftrightarrow> succ \<and> (\<forall>c\<in>set C. snd c))
      \<and> map fst acc' = map fst acc @ embedded sg_vertices (sgCalls C)
      \<and> length (ld_logged s') = length (ld_logged s) + length (filter (\<lambda>c. \<not> snd c) C)"
  using assms
proof (induction js arbitrary: succ acc s)
  case Nil
  then show ?case by simp
next
  case (Cons jp js)
  obtain j p where jp: "jp = (j, p)" by (cases jp)
  obtain succ1 acc1 s1 where st: "loadSpatialGroup ops dir (j, p) (succ, acc, s) = (succ1, acc1, s1)"
    by (cases "loadSpatialGroup ops dir (j, p) (succ, acc, s)") auto
  then have "fold (loadSpatialGroup ops dir) js (succ1, acc1, s1) = (succ', acc', s')"
    using Cons.prems jp by simp
  from Cons.IH[OF this] obtain C where C: "ld_calls s' = ld_calls s1 @ C"
      "map fst C = map (SpatialGroupNode \<circ> fst) js"
      "succ' \<longleftrightarrow> succ1 \<and> (\<forall>c\<in>set C. snd c)"
      "map fst acc' = map fst acc1 @ embedded sg_vertices (sgCalls C)"
      "length (ld_logged s') = length (ld_logged s1) + length (filter (\<lambda>c. \<not> snd c) C)"
    by blast
  obtain b where b: "ld_calls s1 = ld_calls s @ [(SpatialGroupNode j, b)]"
      "succ1 \<longleftrightarrow> succ \<and> b"
      "map fst acc1 = map fst acc @ (if b then sg_vertices j else [])"
      "length (ld_logged s1) = length (ld_logged s) + (if b then 0 else 1)"
    using st
    by (auto simp: loadSpatialGroup_def created_def caught_def comp_def split: prod.splits sum.splits)
  show ?case
    by (rule exI[of _ "(SpatialGroupNode j, b) # C"]) (use C b jp in auto)
qed

lemma loop3:
  assumes "fold (loadVertex ops) js (succ, acc, s) = (succ', acc', s')"
  shows "\<exists>C. ld_calls s' = ld_calls s @ C \<and> map fst C = map (VertexNode \<circ> fst) js
      \<and> (succ' \<longleftrightarrow> succ \<and> (\<forall>c\<in>set C. snd c))
      \<and> map fst acc' = map fst acc @ embedded v_outgoingEdges (vCalls C)
      \<and> length (ld_logged s') = length (ld_logged s) + length (filter (\<lambda>c. \<not> snd c) C)"
  using assms
proof (induction js arbitrary: succ acc s)
  case Nil
  then show ?case by simp
next
  case (Cons jp js)
  obtain j p where jp: "jp = (j, p)" by (cases jp)
  obtain succ1 acc1 s1 where st: "loadVertex ops (j, p) (succ, acc, s) = (succ1, acc1, s1)"
    by (cases "loadVertex ops (j, p) (succ, acc, s)") auto
  then have "fold (loadVertex ops) js (succ1, acc1, s1) = (succ', acc', s')"
    using Cons.prems jp by simp
  from Cons.IH[OF this] obtain C where C: "ld_calls s' = ld_calls s1 @ C"
      "map fst C = map (VertexNode \<circ> fst) js"
      "succ' \<longleftrightarrow> succ1 \<and> (\<forall>c\<in>set C. snd c)"
      "map fst acc' = map fst acc1 @ embedded v_outgoingEdges (vCalls C)"
      "length (ld_logged s') = length (ld_logged s1) + length (filter (\<lambda>c. \<not> snd c) C)"
    by blast
  obtain b where b: "ld_calls s1 = ld_calls s @ [(VertexNode j, b)]"
      "succ1 \<longleftrightarrow> succ \<and> b"
      "map fst acc1 = map fst acc @ (if b then v_outgoingEdges j else [])"
      "length (ld_logged s1) = length (ld_logged s) + (if b then 0 else 1)"
    using st
    by (auto simp: loadVertex_def created_def caught_def comp_def split: prod.splits sum.splits)
  show ?case
    by (rule exI[of _ "(VertexNode j, b) # C"]) (use C b jp in auto)
qed

lemma loop4:
  assumes "fold (loadEdge ops) js (succ, s) = (succ', s')"
  shows "\<exists>C. ld_calls s' = ld_calls s @ C \<and> map fst C = map (EdgeNode \<circ> fst) js
      \<and> (succ' \<longleftrightarrow> succ \<and> (\<forall>c\<in>set C. snd c))
      \<and> length (ld_logged s') = length (ld_logged s) + length (filter (\<lambda>c. \<not> snd c) C)"
  using assms
proof (induction js arbitrary: succ s)
  case Nil
  then show ?case by simp
next
  case (Cons jp js)
  obtain j p where jp: "jp = (j, p)" by (cases jp)
  obtain succ1 s1 where st: "loadEdge ops (j, p) (succ, s) = (succ1, s1)"
    by (cases "loadEdge ops (j, p) (succ, s)") auto
  then have "fold (loadEdge ops) js (succ1, s1) = (succ', s')"
    using Cons.prems jp by simp
  from Cons.IH[OF this] obtain C where C: "ld_calls s' = ld_calls s1 @ C"
      "map fst C = map (EdgeNode \<circ> fst) js"
      "succ' \<longleftrightarrow> succ1 \<and> (\<forall>c\<in>set C. snd c)"
      "length (ld_logged s') = length (ld_logged s1) + length (filter (\<lambda>c. \<not> snd c) C)"
    by blast
  obtain b where b: "ld_calls s1 = ld_calls s @ [(EdgeNode j, b)]"
      "succ1 \<longleftrightarrow> succ \<and> b"
      "length (ld_logged s1) = length (ld_logged s) + (if b then 0 else 1)"
    using st
    by (auto simp: loadEdge_def created_def caught_def comp_def split: prod.splits sum.splits)
  show ?case
    by (rule exI[of _ "(EdgeNode j, b) # C"]) (use C b jp in auto)
qed


text \<open>
  Claim C5, amended. \<open>loadGraph\<close> hands to the model, whatever fails: every temporal group
  of the tour; every spatial group that the tour lists or that is embedded in a temporal
  group it has created; every vertex that the tour lists or that is embedded in a spatial
  group it has created; and every outgoing edge of a vertex it has created. An object
  whose creation throws is logged, and the objects embedded in it are not handed on. The
  result is true exactly when every one of these calls succeeded, and each failure adds
  one entry to the log.
\<close>

theorem loadGraph_batch:
  assumes "loadGraph ops tour dir s = (successful, s')"
  shows "ld_calls s' = ld_calls s @ newCalls s s'
     \<and> map fst (tgCalls (newCalls s s')) = tour_temporalGroups tour
     \<and> map fst (sgCalls (newCalls s s'))
           = tour_spatialGroups tour @ embedded tg_subGroups (tgCalls (newCalls s s'))
     \<and> map fst (vCalls (newCalls s s'))
           = tour_vertices tour @ embedded sg_vertices (sgCalls (newCalls s s'))
     \<and> map fst (eCalls (newCalls s s')) = embedded v_outgoingEdges (vCalls (newCalls s s'))
     \<and> (successful \<longleftrightarrow> (\<forall>c\<in>set (newCalls s s'). snd c))
     \<and> length (ld_logged s') = length (ld_logged s) + length (filter (\<lambda>c. \<not> snd c) (newCalls s s'))"
proof -
  obtain b1 sgs s1 where l1: "fold (loadTemporalGroup ops) (tour_temporalGroups tour)
             (True, map (\<lambda>g. (g, None)) (tour_spatialGroups tour), s) = (b1, sgs, s1)"
    using prod_cases3 by blast
  obtain b2 vs s2 where l2: "fold (loadSpatialGroup ops dir) sgs
             (b1, map (\<lambda>v. (v, None)) (tour_vertices tour), s1) = (b2, vs, s2)"
    using prod_cases3 by blast
  obtain b3 es s3 where l3: "fold (loadVertex ops) vs (b2, [], s2) = (b3, es, s3)"
    using prod_cases3 by blast
  have l4: "fold (loadEdge ops) es (b3, s3) = (successful, s')"
    using assms l1 l2 l3 by (simp add: loadGraph_def)
  obtain C1 where C1: "ld_calls s1 = ld_calls s @ C1"
      "map fst C1 = map TemporalGroupNode (tour_temporalGroups tour)"
      "b1 \<longleftrightarrow> (\<forall>c\<in>set C1. snd c)"
      "map fst sgs = tour_spatialGroups tour @ embedded tg_subGroups (tgCalls C1)"
      "length (ld_logged s1) = length (ld_logged s) + length (filter (\<lambda>c. \<not> snd c) C1)"
    using loop1[OF l1] by (auto simp: comp_def)
  obtain C2 where C2: "ld_calls s2 = ld_calls s1 @ C2"
      "map fst C2 = map SpatialGroupNode (map fst sgs)"
      "b2 \<longleftrightarrow> b1 \<and> (\<forall>c\<in>set C2. snd c)"
      "map fst vs = tour_vertices tour @ embedded sg_vertices (sgCalls C2)"
      "length (ld_logged s2) = length (ld_logged s1) + length (filter (\<lambda>c. \<not> snd c) C2)"
    using loop2[OF l2] by (auto simp: comp_def)
  obtain C3 where C3: "ld_calls s3 = ld_calls s2 @ C3"
      "map fst C3 = map VertexNode (map fst vs)"
      "b3 \<longleftrightarrow> b2 \<and> (\<forall>c\<in>set C3. snd c)"
      "map fst es = embedded v_outgoingEdges (vCalls C3)"
      "length (ld_logged s3) = length (ld_logged s2) + length (filter (\<lambda>c. \<not> snd c) C3)"
    using loop3[OF l3] by (auto simp: comp_def)
  obtain C4 where C4: "ld_calls s' = ld_calls s3 @ C4"
      "map fst C4 = map EdgeNode (map fst es)"
      "successful \<longleftrightarrow> b3 \<and> (\<forall>c\<in>set C4. snd c)"
      "length (ld_logged s') = length (ld_logged s3) + length (filter (\<lambda>c. \<not> snd c) C4)"
    using loop4[OF l4] by (auto simp: comp_def)
  have A: "newCalls s s' = C1 @ C2 @ C3 @ C4"
    by (simp add: newCalls_def C1(1) C2(1) C3(1) C4(1))
  have k1: "map fst (tgCalls C1) = tour_temporalGroups tour" "sgCalls C1 = []" "vCalls C1 = []"
      "eCalls C1 = []"
    using kind_tg[OF C1(2)] by simp_all
  have k2: "map fst (sgCalls C2) = map fst sgs" "tgCalls C2 = []" "vCalls C2 = []" "eCalls C2 = []"
    using kind_sg[OF C2(2)] by simp_all
  have k3: "map fst (vCalls C3) = map fst vs" "tgCalls C3 = []" "sgCalls C3 = []" "eCalls C3 = []"
    using kind_v[OF C3(2)] by simp_all
  have k4: "map fst (eCalls C4) = map fst es" "tgCalls C4 = []" "sgCalls C4 = []" "vCalls C4 = []"
    using kind_e[OF C4(2)] by simp_all
  note sgs = C1(4) and vs = C2(4) and es = C3(4)
  have 1: "ld_calls s' = ld_calls s @ newCalls s s'"
    by (simp add: A C1(1) C2(1) C3(1) C4(1))
  have 2: "map fst (tgCalls (newCalls s s')) = tour_temporalGroups tour"
    by (simp add: A k1 k2 k3 k4)
  have 3: "map fst (sgCalls (newCalls s s'))
           = tour_spatialGroups tour @ embedded tg_subGroups (tgCalls (newCalls s s'))"
    by (simp add: A k1 k2 k3 k4 sgs)
  have 4: "map fst (vCalls (newCalls s s'))
           = tour_vertices tour @ embedded sg_vertices (sgCalls (newCalls s s'))"
    by (simp add: A k1 k2 k3 k4 vs)
  have 5: "map fst (eCalls (newCalls s s')) = embedded v_outgoingEdges (vCalls (newCalls s s'))"
    by (simp add: A k1 k2 k3 k4 es)
  have 6: "successful \<longleftrightarrow> (\<forall>c\<in>set (newCalls s s'). snd c)"
    using C1(3) C2(3) C3(3) C4(3) by (auto simp: A)
  have 7: "length (ld_logged s') = length (ld_logged s) + length (filter (\<lambda>c. \<not> snd c) (newCalls s s'))"
    by (simp add: A C1(5) C2(5) C3(5) C4(4))
  show ?thesis
    by (intro conjI) (rule 1, rule 2, rule 3, rule 4, rule 5, rule 6, rule 7)
qed

lemma ex_loadGraph:
  "loadGraph ex_ops ex_tour None ex_loader
     = (False, \<lparr> ld_model = (), ld_logged = [''invalid''],
                 ld_calls = [(TemporalGroupNode (JsonTemporalGroup ''bad'' [JsonSpatialGroup ''inner'' []]), False),
                             (SpatialGroupNode (JsonSpatialGroup ''outer'' []), True),
                             (VertexNode (JsonVertex ''v'' [''e'']), True),
                             (EdgeNode ''e'', True)] \<rparr>)"
  by (simp add: loadGraph_def ex_ops_def ex_tour_def ex_loader_def loadTemporalGroup_def
      loadSpatialGroup_def loadVertex_def loadEdge_def created_def caught_def)

theorem loadGraph_batch_witness:
  "map fst (sgCalls (newCalls ex_loader (snd (loadGraph ex_ops ex_tour None ex_loader))))
     = [JsonSpatialGroup ''outer'' []]
   \<and> fst (loadGraph ex_ops ex_tour None ex_loader) = False
   \<and> length (ld_logged (snd (loadGraph ex_ops ex_tour None ex_loader))) = 1"
  using loadGraph_batch[OF ex_loadGraph] unfolding ex_loadGraph
  by (simp add: newCalls_def ex_loader_def)

text \<open>
  Claim C5, as stated, fails for the objects embedded in an object that cannot be
  created: the temporal group \<open>bad\<close> throws, and the spatial group \<open>inner\<close> embedded in
  it, which the model would create, is never handed to the model.
\<close>

theorem loadGraph_batch_counterexample:
  "tour_temporalGroups ex_tour = [JsonTemporalGroup ''bad'' [JsonSpatialGroup ''inner'' []]]
   \<and> createSpatialGroup ex_ops ''inner'' None () = (Inr ''inner'', ())
   \<and> map fst (ld_calls (snd (loadGraph ex_ops ex_tour None ex_loader)))
       = [TemporalGroupNode (JsonTemporalGroup ''bad'' [JsonSpatialGroup ''inner'' []]),
          SpatialGroupNode (JsonSpatialGroup ''outer'' []),
          VertexNode (JsonVertex ''v'' [''e'']),
          EdgeNode ''e'']"
  by (simp add: ex_loadGraph) (simp add: ex_tour_def ex_ops_def)

text \<open>
  In \<open>readTour\<close> the flag of the first loop guards the call of \<open>loadGraph\<close>
  (\<open>successful && this.loadGraph(...)\<close>): after a temporal group that cannot be created,
  no spatial group, vertex or edge of the tour is handed to the model.
\<close>

lemma readTour_stops:
  "readTour ex_ops ex_tour None ex_loader
     = (False, \<lparr> ld_model = (), ld_logged = [''invalid''],
                 ld_calls = [(TemporalGroupNode (JsonTemporalGroup ''bad'' [JsonSpatialGroup ''inner'' []]), False)] \<rparr>)"
  by (simp add: readTour_def readTemporalGroup_def ex_ops_def ex_tour_def ex_loader_def caught_def)

section \<open>Properties of the map viewer\<close>

lemma bnd_simps [simp]:
  "bnd (\<lambda>s. Some (Return x, g s)) f s = f x (g s)"
  "bnd (ret x) f = f x"
  "bnd (modify g) f s = f () (g s)"
  by (simp_all add: bnd_def ret_def modify_def)

lemma ret_apply [simp]: "ret x s = Some (Return x, s)"
  by (simp add: ret_def)

lemma modify_apply [simp]: "modify g s = Some (Return (), g s)"
  by (simp add: modify_def)

lemma kind_simps [simp]:
  "kindOf (s\<lparr> lf_onMap := a \<rparr>) = kindOf s"
  "kindOf (s\<lparr> lf_lineGroup := b \<rparr>) = kindOf s"
  "kindOf (s\<lparr> mv_emitted := c \<rparr>) = kindOf s"
  by (simp_all add: kindOf_def fun_eq_iff)

lemma leaf_members: "kindOf s l = Some Line \<Longrightarrow> layerMembers s l = [] \<and> \<not> isPoint s l"
  by (auto simp: kindOf_def layerMembers_def isPoint_def)

lemma mapAddLayer_line:
  assumes "kindOf s l = Some Line"
  shows "mapAddLayer (Suc n) gr l s
       = Some (Return (), if l \<in> lf_onMap s then s
                          else onLayerAdd l (s\<lparr> lf_onMap := insert l (lf_onMap s) \<rparr>))"
proof -
  have k: "kindOf (s\<lparr> lf_onMap := insert l (lf_onMap s) \<rparr>) l = Some Line"
    using assms by simp
  show ?thesis
    using leaf_members[OF assms] leaf_members[OF k]
    by (simp add: bnd_def)
qed

lemma mapRemoveLayer_line:
  assumes "kindOf s l = Some Line"
  shows "mapRemoveLayer (Suc n) gr l s
       = Some (Return (), if l \<notin> lf_onMap s then s
                          else onLayerRemove l (s\<lparr> lf_onMap := lf_onMap s - {l} \<rparr>))"
proof -
  have k: "kindOf (onLayerRemove l (s\<lparr> lf_onMap := lf_onMap s - {l} \<rparr>)) l = Some Line"
    using assms by (simp add: onLayerRemove_def emitMap_def)
  show ?thesis
    using leaf_members[OF assms] leaf_members[OF k]
    by (simp add: bnd_def)
qed

lemma addToMap_line:
  "kindOf s l = Some Line \<Longrightarrow>
   addToMap gr l s = Some (Return (), if l \<in> lf_onMap s then s
                          else onLayerAdd l (s\<lparr> lf_onMap := insert l (lf_onMap s) \<rparr>))"
  using mapAddLayer_line[of s l "Suc (mv_next s)" gr] by (simp add: addToMap_def depth_def)

lemma removeFromMap_line:
  "kindOf s l = Some Line \<Longrightarrow>
   removeFromMap gr l s = Some (Return (), if l \<notin> lf_onMap s then s
                          else onLayerRemove l (s\<lparr> lf_onMap := lf_onMap s - {l} \<rparr>))"
  using mapRemoveLayer_line[of s l "Suc (mv_next s)" gr] by (simp add: removeFromMap_def depth_def)

lemma bnd_Return: "m s = Some (Return x, s') \<Longrightarrow> bnd m f s = f x s'"
  by (simp add: bnd_def)

lemma bnd_Throw: "m s = Some (Throw e, s') \<Longrightarrow> bnd m f s = Some (Throw e, s')"
  by (simp add: bnd_def)

lemma bnd_None: "m s = None \<Longrightarrow> bnd m f s = None"
  by (simp add: bnd_def)

lemma createLine_creates:
  assumes "m_edgeType gr e \<noteq> edge_TEMPORAL" and "e_line s e = None"
  shows "\<exists>s1 m. createLine gr e ctype s = Some (Return (Some (mv_next s)), s1)
      \<and> e_line s1 = (case m_opposite gr e of
                        None \<Rightarrow> (e_line s)(e \<mapsto> mv_next s)
                      | Some opp \<Rightarrow> (e_line s)(e \<mapsto> mv_next s, opp \<mapsto> mv_next s))
      \<and> mv_objs s1 = (mv_objs s)(mv_next s \<mapsto> m) \<and> me_kind m = Line \<and> me_layer m
      \<and> v_point s1 = v_point s
      \<and> (mv_next s \<in> lf_lineGroup s1 \<longleftrightarrow>
            mv_next s \<in> lf_lineGroup s \<or> bothVisible gr (s\<lparr> mv_objs := (mv_objs s)(mv_next s \<mapsto> m) \<rparr>) e)
      \<and> (\<forall>x. x \<noteq> mv_next s \<longrightarrow> (x \<in> lf_lineGroup s1 \<longleftrightarrow> x \<in> lf_lineGroup s))
      \<and> (\<forall>x. x \<noteq> mv_next s \<longrightarrow> (x \<in> lf_onMap s1 \<longleftrightarrow> x \<in> lf_onMap s))"
proof -
  define l where "l = mv_next s"
  define m where "m = newElem Line e (if orElse ctype (m_edgeType gr e) = edge_TEMP then line_EDIT
                                       else orElse ctype (m_edgeType gr e))"
  define s3 where "s3 = s\<lparr> mv_objs := (mv_objs s)(l \<mapsto> m), mv_next := Suc l,
                e_line := (case m_opposite gr e of
                             None \<Rightarrow> (e_line s)(e \<mapsto> l)
                           | Some opp \<Rightarrow> (e_line s)(e \<mapsto> l, opp \<mapsto> l)),
                mv_layers := insert l (mv_layers s) \<rparr>"
  define joined where "joined = (if l \<in> lf_lineGroup s then s3
                else if lf_lineGroupOnMap s
                then (if l \<in> lf_onMap s then s3\<lparr> lf_lineGroup := insert l (lf_lineGroup s) \<rparr>
                      else onLayerAdd l (s3\<lparr> lf_lineGroup := insert l (lf_lineGroup s),
                                              lf_onMap := insert l (lf_onMap s) \<rparr>))
                else s3\<lparr> lf_lineGroup := insert l (lf_lineGroup s) \<rparr>)"
  define s4 where "s4 = (if bothVisible gr s3 e then joined else s3)"
  have m: "me_kind m = Line" "me_layer m" by (simp_all add: m_def newElem_def)
  have k': "kindOf (s3\<lparr> lf_lineGroup := insert l (lf_lineGroup s) \<rparr>) l = Some Line"
    by (simp add: kindOf_def s3_def m)
  have s3: "lf_lineGroup s3 = lf_lineGroup s" "lf_onMap s3 = lf_onMap s"
      "lf_lineGroupOnMap s3 = lf_lineGroupOnMap s" "v_point s3 = v_point s"
      "mv_objs s3 = (mv_objs s)(l \<mapsto> m)"
      "e_line s3 = (case m_opposite gr e of
                             None \<Rightarrow> (e_line s)(e \<mapsto> l)
                           | Some opp \<Rightarrow> (e_line s)(e \<mapsto> l, opp \<mapsto> l))"
    by (simp_all add: s3_def)
  have add: "lineGroup_addLayer (addToMap gr) l s3 = Some (Return (), joined)"
    by (simp add: lineGroup_addLayer_def addToMap_line[OF k'] s3 joined_def)
  have step: "(case (v_point s3 (m_from gr e), v_point s3 (m_to gr e)) of
                        (Some fp, Some tp) \<Rightarrow>
                          (if isVisible s3 fp \<and> isVisible s3 tp
                           then lineGroup_addLayer (addToMap gr) l s3
                           else Some (Return (), s3))
                      | _ \<Rightarrow> Some (Return (), s3)) = Some (Return (), s4)"
    by (simp add: add s4_def bothVisible_def split: option.splits)
  have unfold: "createLine gr e ctype s
      = bnd (\<lambda>s4. case (v_point s4 (m_from gr e), v_point s4 (m_to gr e)) of
                        (Some fp, Some tp) \<Rightarrow>
                          (if isVisible s4 fp \<and> isVisible s4 tp
                           then lineGroup_addLayer (addToMap gr) l s4
                           else Some (Return (), s4))
                      | _ \<Rightarrow> Some (Return (), s4))
            (\<lambda>_. bnd (modify (emitMap Create l)) (\<lambda>_. ret (Some l))) s3"
    using assms unfolding l_def m_def s3_def
    by (simp add: createLine_def alloc_def Let_def cong: option.case_cong)
  have res: "createLine gr e ctype s = Some (Return (Some l), emitMap Create l s4)"
    using step unfolding unfold by (simp add: bnd_def)
  have bv: "bothVisible gr s3 e = bothVisible gr (s\<lparr> mv_objs := (mv_objs s)(l \<mapsto> m) \<rparr>) e"
  proof -
    have "isVisible s3 x = isVisible (s\<lparr> mv_objs := (mv_objs s)(l \<mapsto> m) \<rparr>) x" for x
      by (simp add: isVisible_def s3 split: option.splits)
    then show ?thesis by (simp add: bothVisible_def s3 split: option.splits)
  qed
  have p: "e_line (emitMap Create l s4) = e_line s3" "mv_objs (emitMap Create l s4) = mv_objs s3"
      "v_point (emitMap Create l s4) = v_point s3"
      "lf_lineGroup (emitMap Create l s4) = (if bothVisible gr s3 e then insert l (lf_lineGroup s) else lf_lineGroup s)"
      "lf_onMap (emitMap Create l s4) - {l} = lf_onMap s - {l}"
    by (auto simp: emitMap_def s4_def joined_def onLayerAdd_def s3)
  show ?thesis
    unfolding l_def[symmetric]
    apply (rule exI[of _ "emitMap Create l s4"])
    apply (rule exI[of _ m])
    apply (simp only: res m p(1-4) s3 bv[symmetric])
    using p(5) apply auto
    done
qed

lemma onLayerRemove_line: "kindOf s l = Some Line \<Longrightarrow> onLayerRemove l s = s"
  by (auto simp: onLayerRemove_def kindOf_def)

lemma removeFromMap_line':
  "kindOf s l = Some Line \<Longrightarrow>
   removeFromMap gr l s = Some (Return (), s\<lparr> lf_onMap := lf_onMap s - {l} \<rparr>)"
proof -
  assume k: "kindOf s l = Some Line"
  then have "kindOf (s\<lparr> lf_onMap := lf_onMap s - {l} \<rparr>) l = Some Line" by simp
  then have o: "onLayerRemove l (s\<lparr> lf_onMap := lf_onMap s - {l} \<rparr>) = s\<lparr> lf_onMap := lf_onMap s - {l} \<rparr>"
    by (rule onLayerRemove_line)
  have "l \<notin> lf_onMap s \<Longrightarrow> s\<lparr> lf_onMap := lf_onMap s - {l} \<rparr> = s" by simp
  then show ?thesis using removeFromMap_line[OF k, of gr] o by auto
qed

lemma deleteLine_line:
  assumes "e_line s x = Some l" and "mv_objs s l = Some m" and "me_kind m = Line" and "me_layer m"
  shows "\<exists>s2. deleteLine gr x s = Some (Return (), s2)
      \<and> e_line s2 = (case m_opposite gr x of
                        None \<Rightarrow> (e_line s)(x := None)
                      | Some opp \<Rightarrow> (e_line s)(x := None, opp := None))
      \<and> layerOf s2 l = None \<and> l \<notin> mv_layers s2 \<and> l \<notin> lf_lineGroup s2 \<and> l \<notin> lf_onMap s2
      \<and> mv_emitted s2 = mv_emitted s @ [Emit Delete l]"
proof -
  have k: "kindOf s l = Some Line" using assms by (simp add: kindOf_def)
  have lay: "layerOf s l = Some l" using assms by (simp add: layerOf_def)
  define a where "a = (if l \<notin> lf_lineGroup s then s
                       else if lf_lineGroupOnMap s
                       then s\<lparr> lf_onMap := lf_onMap s - {l}, lf_lineGroup := lf_lineGroup s - {l} \<rparr>
                       else s\<lparr> lf_lineGroup := lf_lineGroup s - {l} \<rparr>)"
  have A: "lineGroup_removeLayer (removeFromMap gr) (Some l) s = Some (Return (), a)"
    by (simp add: lineGroup_removeLayer_def removeFromMap_line'[OF k] bnd_def a_def)
  have ka: "kindOf a l = Some Line" using k by (simp add: a_def)
  define b where "b = a\<lparr> lf_onMap := lf_onMap a - {l} \<rparr>"
  have B: "layer_remove gr l a = Some (Return (), b)"
    by (simp add: layer_remove_def removeFromMap_line'[OF ka] b_def)
  define c where "c = b\<lparr> mv_layers := mv_layers b - {l},
                        mv_objs := (mv_objs b)(l \<mapsto> m\<lparr> me_layer := False \<rparr>) \<rparr>"
  have objb: "mv_objs b l = Some m" using assms by (simp add: b_def a_def)
  define d where "d = emitMap Delete l
                (c\<lparr> e_line := (case m_opposite gr x of
                                   None \<Rightarrow> (e_line c)(x := None)
                                 | Some opp \<Rightarrow> (e_line c)(x := None, opp := None)) \<rparr>)"
  have res: "deleteLine gr x s = Some (Return (), d)"
    using assms(1) lay
    by (simp add: deleteLine_def bnd_def A B objb c_def[symmetric] d_def[symmetric])
  have p: "e_line c = e_line s" "mv_emitted c = mv_emitted s" "l \<notin> lf_lineGroup c" "l \<notin> lf_onMap c"
      "l \<notin> mv_layers c" "mv_objs c l = Some (m\<lparr> me_layer := False \<rparr>)"
    by (auto simp: c_def b_def a_def)
  show ?thesis
    apply (rule exI[of _ d])
    apply (simp add: res)
    apply (simp add: d_def emitMap_def p layerOf_def cong: option.case_cong)
    done
qed

lemma grows_refl [simp]: "grows t t"
  by (simp add: grows_def)

lemma grows_trans: "grows a b \<Longrightarrow> grows b c \<Longrightarrow> grows a c"
  by (auto simp: grows_def)

lemma shrinks_refl [simp]: "shrinks t t"
  by (simp add: shrinks_def)

lemma shrinks_trans: "shrinks a b \<Longrightarrow> shrinks b c \<Longrightarrow> shrinks a c"
  by (auto simp: shrinks_def)

lemma grows_ready: "grows t t' \<Longrightarrow> edgeReady t' e = edgeReady t e"
  by (auto simp: grows_def edgeReady_def split: option.splits)

lemma shrinks_ready: "shrinks t t' \<Longrightarrow> edgeReady t' e = edgeReady t e"
  by (auto simp: shrinks_def edgeReady_def split: option.splits)

lemma grows_visible: "grows t t' \<Longrightarrow> isVisible t x \<Longrightarrow> isVisible t' x"
  by (auto simp: grows_def isVisible_def split: option.splits)

lemma lineGroup_addLayer_line:
  assumes "mv_objs t l = Some m" and "me_kind m = Line"
  shows "\<exists>t'. lineGroup_addLayer (mapAddLayer (Suc n) gr) l t = Some (Return (), t')
      \<and> grows t t' \<and> l \<in> lf_lineGroup t'"
proof -
  have k: "kindOf (t\<lparr> lf_lineGroup := insert l (lf_lineGroup t) \<rparr>) l = Some Line"
    using assms by (simp add: kindOf_def)
  show ?thesis
    by (auto simp: lineGroup_addLayer_def mapAddLayer_line[OF k] grows_def onLayerAdd_def emitMap_def
        simp del: mapAddLayer.simps)
qed

lemma lineGroup_removeLayer_line:
  assumes "mv_objs t l = Some m" and "me_kind m = Line"
  shows "\<exists>t'. lineGroup_removeLayer (mapRemoveLayer (Suc n) gr) (Some l) t = Some (Return (), t')
      \<and> shrinks t t' \<and> l \<notin> lf_lineGroup t'"
proof -
  have k: "kindOf t l = Some Line"
    using assms by (simp add: kindOf_def)
  have o: "onLayerRemove l (t\<lparr> lf_onMap := lf_onMap t - {l} \<rparr>) = t\<lparr> lf_onMap := lf_onMap t - {l} \<rparr>"
    using k by (intro onLayerRemove_line) simp
  show ?thesis
    by (auto simp: lineGroup_removeLayer_def mapRemoveLayer_line[OF k] shrinks_def o bnd_def
        simp del: mapRemoveLayer.simps)
qed

lemma point_onAdd_loop:
  assumes "\<forall>e\<in>set es. edgeReady t e"
  shows "\<exists>t'. forEach (\<lambda>e s.
        case e_line s e of
          None \<Rightarrow> Some (Return (), s)
        | Some li \<Rightarrow>
            (case v_point s (m_to gr e) of
               None \<Rightarrow> Some (Return (), s)
             | Some tp \<Rightarrow>
                 (if isVisible s tp
                  then (case layerOf s li of
                          None \<Rightarrow> Some (Throw TypeError, s)
                        | Some l \<Rightarrow> lineGroup_addLayer (mapAddLayer (Suc n) gr) l s)
                  else Some (Return (), s)))) es t = Some (Return (), t')
      \<and> grows t t'
      \<and> (\<forall>e\<in>set es. \<forall>li tp. e_line t e = Some li \<longrightarrow> v_point t (m_to gr e) = Some tp
             \<longrightarrow> isVisible t tp \<longrightarrow> li \<in> lf_lineGroup t')"
  (is "\<exists>t'. forEach ?f es t = _ \<and> _ \<and> _")
  using assms
proof (induction es arbitrary: t)
  case Nil
  then show ?case by simp
next
  case (Cons e es)
  have "\<exists>t1. ?f e t = Some (Return (), t1) \<and> grows t t1
      \<and> (\<forall>li tp. e_line t e = Some li \<longrightarrow> v_point t (m_to gr e) = Some tp
             \<longrightarrow> isVisible t tp \<longrightarrow> li \<in> lf_lineGroup t1)"
  proof (cases "e_line t e")
    case None
    then show ?thesis by simp
  next
    case (Some li)
    then obtain m where m: "mv_objs t li = Some m" "me_kind m = Line" "me_layer m"
      using Cons.prems by (auto simp: edgeReady_def split: option.splits)
    then have lay: "layerOf t li = Some li" by (simp add: layerOf_def)
    from lineGroup_addLayer_line[OF m(1,2), of n gr] obtain t1 where
      "lineGroup_addLayer (mapAddLayer (Suc n) gr) li t = Some (Return (), t1)"
      "grows t t1" "li \<in> lf_lineGroup t1" by blast
    then show ?thesis using Some lay
      by (cases "v_point t (m_to gr e)") (auto simp del: mapAddLayer.simps)
  qed
  then obtain t1 where t1: "?f e t = Some (Return (), t1)" "grows t t1"
      "\<forall>li tp. e_line t e = Some li \<longrightarrow> v_point t (m_to gr e) = Some tp
             \<longrightarrow> isVisible t tp \<longrightarrow> li \<in> lf_lineGroup t1" by blast
  have pre: "\<forall>e\<in>set es. edgeReady t1 e"
    using Cons.prems by (simp add: grows_ready[OF t1(2)])
  from Cons.IH[OF pre] obtain t' where t': "forEach ?f es t1 = Some (Return (), t')" "grows t1 t'"
      "\<forall>e\<in>set es. \<forall>li tp. e_line t1 e = Some li \<longrightarrow> v_point t1 (m_to gr e) = Some tp
             \<longrightarrow> isVisible t1 tp \<longrightarrow> li \<in> lf_lineGroup t'" by blast
  have g: "grows t t'" using t1(2) t'(2) by (rule grows_trans)
  have a: "\<forall>e'\<in>set (e # es). \<forall>li tp. e_line t e' = Some li \<longrightarrow> v_point t (m_to gr e') = Some tp
             \<longrightarrow> isVisible t tp \<longrightarrow> li \<in> lf_lineGroup t'"
  proof (intro ballI allI impI)
    fix e' li tp
    assume h: "e' \<in> set (e # es)" "e_line t e' = Some li" "v_point t (m_to gr e') = Some tp" "isVisible t tp"
    show "li \<in> lf_lineGroup t'"
    proof (cases "e' \<in> set es")
      case True
      then show ?thesis using t'(3) h t1(2) grows_visible[OF t1(2) h(4)] by (auto simp: grows_def)
    next
      case False
      then have "e' = e" using h(1) by simp
      then have "li \<in> lf_lineGroup t1" using t1(3) h by blast
      then show ?thesis using t'(2) by (auto simp: grows_def)
    qed
  qed
  show ?case
    apply (rule exI[of _ t'])
    using t1(1) t'(1) g a apply (simp add: bnd_def del: mapAddLayer.simps)
    done
qed

lemma point_onRemove_loop:
  assumes "\<forall>e\<in>set es. edgeReady t e"
  shows "\<exists>t'. forEach (\<lambda>e s.
        case e_line s e of
          None \<Rightarrow> Some (Return (), s)
        | Some li \<Rightarrow> lineGroup_removeLayer (mapRemoveLayer (Suc n) gr) (layerOf s li) s) es t
        = Some (Return (), t')
      \<and> shrinks t t'
      \<and> (\<forall>e\<in>set es. \<forall>li. e_line t e = Some li \<longrightarrow> li \<notin> lf_lineGroup t')"
  (is "\<exists>t'. forEach ?f es t = _ \<and> _ \<and> _")
  using assms
proof (induction es arbitrary: t)
  case Nil
  then show ?case by simp
next
  case (Cons e es)
  have "\<exists>t1. ?f e t = Some (Return (), t1) \<and> shrinks t t1
      \<and> (\<forall>li. e_line t e = Some li \<longrightarrow> li \<notin> lf_lineGroup t1)"
  proof (cases "e_line t e")
    case None
    then show ?thesis by simp
  next
    case (Some li)
    then obtain m where m: "mv_objs t li = Some m" "me_kind m = Line" "me_layer m"
      using Cons.prems by (auto simp: edgeReady_def split: option.splits)
    then have lay: "layerOf t li = Some li" by (simp add: layerOf_def)
    from lineGroup_removeLayer_line[OF m(1,2), of n gr] obtain t1 where
      "lineGroup_removeLayer (mapRemoveLayer (Suc n) gr) (Some li) t = Some (Return (), t1)"
      "shrinks t t1" "li \<notin> lf_lineGroup t1" by blast
    then show ?thesis using Some lay
      by (auto simp del: mapRemoveLayer.simps)
  qed
  then obtain t1 where t1: "?f e t = Some (Return (), t1)" "shrinks t t1"
      "\<forall>li. e_line t e = Some li \<longrightarrow> li \<notin> lf_lineGroup t1" by blast
  have pre: "\<forall>e\<in>set es. edgeReady t1 e"
    using Cons.prems by (simp add: shrinks_ready[OF t1(2)])
  from Cons.IH[OF pre] obtain t' where t': "forEach ?f es t1 = Some (Return (), t')" "shrinks t1 t'"
      "\<forall>e\<in>set es. \<forall>li. e_line t1 e = Some li \<longrightarrow> li \<notin> lf_lineGroup t'" by blast
  have g: "shrinks t t'" using t1(2) t'(2) by (rule shrinks_trans)
  have a: "\<forall>e'\<in>set (e # es). \<forall>li. e_line t e' = Some li \<longrightarrow> li \<notin> lf_lineGroup t'"
  proof (intro ballI allI impI)
    fix e' li
    assume h: "e' \<in> set (e # es)" "e_line t e' = Some li"
    show "li \<notin> lf_lineGroup t'"
    proof (cases "e' \<in> set es")
      case True
      then show ?thesis using t'(3) h t1(2) by (auto simp: shrinks_def)
    next
      case False
      then have "e' = e" using h(1) by simp
      then have "li \<notin> lf_lineGroup t1" using t1(3) h by blast
      then show ?thesis using t'(2) by (auto simp: shrinks_def)
    qed
  qed
  show ?case
    apply (rule exI[of _ t'])
    using t1(1) t'(1) g a apply (simp add: bnd_def del: mapRemoveLayer.simps)
    done
qed

lemma mapAddLayer_point:
  assumes m: "mv_objs s p = Some m" "me_kind m = Point"
    and off: "p \<notin> lf_onMap s"
    and ready: "lineReady gr s (me_model m)"
  shows "\<exists>s'. mapAddLayer (Suc (Suc n)) gr p s = Some (Return (), s')
      \<and> grows s s' \<and> p \<in> lf_onMap s'
      \<and> (\<forall>e\<in>set (m_edges gr (me_model m)). \<forall>li tp.
            e_line s e = Some li \<longrightarrow> v_point s (m_to gr e) = Some tp
            \<longrightarrow> isVisible s tp \<longrightarrow> li \<in> lf_lineGroup s')"
proof -
  define s0 where "s0 = s\<lparr> lf_onMap := insert p (lf_onMap s) \<rparr>"
  have g0: "grows s s0" by (auto simp: grows_def s0_def)
  have mem: "layerMembers s p = []" using m by (simp add: layerMembers_def)
  have pt: "isPoint s0 p" "vertexOf s0 p = me_model m"
    using m by (simp_all add: isPoint_def vertexOf_def s0_def)
  have "\<forall>e\<in>set (m_edges gr (me_model m)). edgeReady s0 e"
    using ready by (simp add: lineReady_def grows_ready[OF g0])
  from point_onAdd_loop[OF this, where gr=gr and n=n] obtain t where t:
    "point_onAdd (mapAddLayer (Suc n) gr) gr (me_model m) s0 = Some (Return (), t)"
    "grows s0 t"
    "\<forall>e\<in>set (m_edges gr (me_model m)). \<forall>li tp. e_line s0 e = Some li
        \<longrightarrow> v_point s0 (m_to gr e) = Some tp \<longrightarrow> isVisible s0 tp \<longrightarrow> li \<in> lf_lineGroup t"
    unfolding point_onAdd_def by blast
  have run: "mapAddLayer (Suc (Suc n)) gr p s = Some (Return (), onLayerAdd p t)"
    using off mem pt t(1) unfolding s0_def
    by (subst mapAddLayer.simps(2)) (simp add: bnd_def del: mapAddLayer.simps)
  have g1: "grows t (onLayerAdd p t)" by (simp add: grows_def onLayerAdd_def emitMap_def)
  have g: "grows s (onLayerAdd p t)" using g0 t(2) g1 by (blast intro: grows_trans)
  have on: "p \<in> lf_onMap (onLayerAdd p t)"
    using t(2) g1 by (auto simp: grows_def s0_def)
  have a: "\<forall>e\<in>set (m_edges gr (me_model m)). \<forall>li tp.
            e_line s e = Some li \<longrightarrow> v_point s (m_to gr e) = Some tp
            \<longrightarrow> isVisible s tp \<longrightarrow> li \<in> lf_lineGroup (onLayerAdd p t)"
  proof (intro ballI allI impI)
    fix e li tp
    assume h: "e \<in> set (m_edges gr (me_model m))" "e_line s e = Some li"
      "v_point s (m_to gr e) = Some tp" "isVisible s tp"
    have "li \<in> lf_lineGroup t"
      using t(3) h grows_visible[OF g0 h(4)] by (auto simp: s0_def)
    then show "li \<in> lf_lineGroup (onLayerAdd p t)" using g1 by (auto simp: grows_def)
  qed
  show ?thesis using run g on a by blast
qed

lemma mapRemoveLayer_point:
  assumes m: "mv_objs s p = Some m" "me_kind m = Point"
    and on: "p \<in> lf_onMap s"
    and ready: "lineReady gr s (me_model m)"
  shows "\<exists>s'. mapRemoveLayer (Suc (Suc n)) gr p s = Some (Return (), s')
      \<and> shrinks s s' \<and> p \<notin> lf_onMap s'
      \<and> (\<forall>e\<in>set (m_edges gr (me_model m)). \<forall>li. e_line s e = Some li \<longrightarrow> li \<notin> lf_lineGroup s')"
proof -
  define s0 where "s0 = s\<lparr> lf_onMap := lf_onMap s - {p} \<rparr>"
  have g0: "shrinks s s0" by (auto simp: shrinks_def s0_def)
  have mem: "layerMembers s p = []" using m by (simp add: layerMembers_def)
  have olr: "onLayerRemove p s0 = s0" using m by (simp add: onLayerRemove_def s0_def)
  have pt: "isPoint s0 p" "vertexOf s0 p = me_model m"
    using m by (simp_all add: isPoint_def vertexOf_def s0_def)
  have "\<forall>e\<in>set (m_edges gr (me_model m)). edgeReady s0 e"
    using ready by (simp add: lineReady_def shrinks_ready[OF g0])
  from point_onRemove_loop[OF this, where gr=gr and n=n] obtain t where t:
    "point_onRemove (mapRemoveLayer (Suc n) gr) gr (me_model m) s0 = Some (Return (), t)"
    "shrinks s0 t"
    "\<forall>e\<in>set (m_edges gr (me_model m)). \<forall>li. e_line s0 e = Some li \<longrightarrow> li \<notin> lf_lineGroup t"
    unfolding point_onRemove_def by blast
  have run: "mapRemoveLayer (Suc (Suc n)) gr p s = Some (Return (), t)"
    using on mem pt t(1) olr unfolding s0_def
    by (subst mapRemoveLayer.simps(2)) (simp add: bnd_def del: mapRemoveLayer.simps)
  have g: "shrinks s t" using g0 t(2) by (rule shrinks_trans)
  have off: "p \<notin> lf_onMap t" using t(2) by (auto simp: shrinks_def s0_def)
  have a: "\<forall>e\<in>set (m_edges gr (me_model m)). \<forall>li. e_line s e = Some li \<longrightarrow> li \<notin> lf_lineGroup t"
    using t(3) by (simp add: s0_def)
  show ?thesis using run g off a by blast
qed

subsection \<open>Temporal edges\<close>

text \<open>
  Claim C10, amended. For an edge of type \<open>TEMPORAL\<close>, \<open>createLine\<close> builds no line: it
  leaves the viewer as it is (no visual object, nothing in the line container or the layer
  lookup, no event) and returns the line reference that the edge carries, which is
  \<open>null\<close> when the edge has none.
\<close>

theorem createLine_temporal:
  assumes "m_edgeType gr e = edge_TEMPORAL"
  shows "createLine gr e ctype s = Some (Return (e_line s e), s)"
  using assms by (simp add: createLine_def split: option.splits)

theorem createLine_temporal_witness:
  "m_edgeType ex_mgraph ''t'' = edge_TEMPORAL
   \<and> createLine ex_mgraph ''t'' None mv0 = Some (Return None, mv0)"
proof -
  have h: "m_edgeType ex_mgraph ''t'' = edge_TEMPORAL" by (simp add: ex_mgraph_def)
  have "e_line mv0 ''t'' = None" by (simp add: mv0_def)
  with createLine_temporal[OF h, of None mv0] h show ?thesis by simp
qed

text \<open>
  Claim C10, as stated, fails for a temporal edge that carries a line: the test
  \<open>e.line != null\<close> comes first. The constructor of the line of the route \<open>r\<close> writes the
  line on its opposite \<open>t\<close>, which is temporal, and \<open>createLine\<close> of \<open>t\<close> returns that
  line.
\<close>

theorem createLine_temporal_counterexample:
  "m_edgeType ex_mgraph ''t'' = edge_TEMPORAL
   \<and> m_opposite ex_mgraph ''r'' = Some ''t''
   \<and> returned (createLine ex_mgraph ''r'' None mv0) = Some (Some 0)
   \<and> returned (createLine ex_mgraph ''t'' None ex_route) = Some (Some 0)"
  by code_simp

subsection \<open>The line of an edge and of its opposite\<close>

text \<open>
  Claim C6. Let \<open>e\<close> and \<open>opp\<close> be opposite to each other, \<open>e\<close> not temporal and without
  a line. Then \<open>createLine\<close> of \<open>e\<close> makes one line \<open>l\<close> with its layer and writes it on
  both edges, and \<open>createLine\<close> of either edge returns \<open>l\<close> from then on. \<open>deleteLine\<close> of
  either edge \<open>x\<close> of the two takes the layer of \<open>l\<close> out of the line container, off the
  map and out of the layer lookup, deletes it, clears the line of both edges and emits one
  \<open>DELETE\<close>; \<open>deleteLine\<close> of either edge \<open>y\<close> after that changes nothing.
\<close>

theorem shared_line:
  assumes "m_opposite gr e = Some opp" and "m_opposite gr opp = Some e"
    and "m_edgeType gr e \<noteq> edge_TEMPORAL" and "e_line s e = None"
    and "x = e \<or> x = opp" and "y = e \<or> y = opp"
  shows "\<exists>l s1 s2. createLine gr e ctype s = Some (Return (Some l), s1)
      \<and> e_line s1 e = Some l \<and> e_line s1 opp = Some l \<and> layerOf s1 l = Some l
      \<and> createLine gr y ctype' s1 = Some (Return (Some l), s1)
      \<and> deleteLine gr x s1 = Some (Return (), s2)
      \<and> e_line s2 e = None \<and> e_line s2 opp = None
      \<and> layerOf s2 l = None \<and> l \<notin> mv_layers s2 \<and> l \<notin> lf_lineGroup s2 \<and> l \<notin> lf_onMap s2
      \<and> mv_emitted s2 = mv_emitted s1 @ [Emit Delete l]
      \<and> deleteLine gr y s2 = Some (Return (), s2)"
proof -
  from createLine_creates[OF assms(3,4), of ctype] obtain s1 m where
    c: "createLine gr e ctype s = Some (Return (Some (mv_next s)), s1)"
      "e_line s1 = (e_line s)(e \<mapsto> mv_next s, opp \<mapsto> mv_next s)"
      "mv_objs s1 = (mv_objs s)(mv_next s \<mapsto> m)" "me_kind m = Line" "me_layer m"
    using assms(1) by auto
  let ?l = "mv_next s"
  have x: "e_line s1 x = Some ?l" using assms(5) c(2) by auto
  have o: "mv_objs s1 ?l = Some m" using c(3) by simp
  obtain s2 where
    d: "deleteLine gr x s1 = Some (Return (), s2)"
      "e_line s2 = (case m_opposite gr x of
                        None \<Rightarrow> (e_line s1)(x := None)
                      | Some opp \<Rightarrow> (e_line s1)(x := None, opp := None))"
      "layerOf s2 ?l = None" "?l \<notin> mv_layers s2" "?l \<notin> lf_lineGroup s2" "?l \<notin> lf_onMap s2"
      "mv_emitted s2 = mv_emitted s1 @ [Emit Delete ?l]"
    using deleteLine_line[OF x o c(4,5), of gr] by auto
  have n: "e_line s2 e = None" "e_line s2 opp = None"
    using assms(1,2,5) d(2) by auto
  then have "e_line s2 y = None" using assms(6) by auto
  then have y: "deleteLine gr y s2 = Some (Return (), s2)" by (simp add: deleteLine_def)
  have "e_line s1 y = Some ?l" using assms(6) c(2) by auto
  then have again: "createLine gr y ctype' s1 = Some (Return (Some ?l), s1)"
    by (simp add: createLine_def)
  have l1: "layerOf s1 ?l = Some ?l" using o c(5) by (simp add: layerOf_def)
  show ?thesis
    apply (rule exI[of _ ?l], rule exI[of _ s1], rule exI[of _ s2])
    using c(1) c(2) l1 again d(1) n d(3-7) y apply simp
    done
qed

theorem shared_line_witness:
  "\<exists>l s1 s2. createLine ex_mgraph ''e'' None mv0 = Some (Return (Some l), s1)
      \<and> e_line s1 ''e'' = Some l \<and> e_line s1 ''o'' = Some l \<and> layerOf s1 l = Some l
      \<and> createLine ex_mgraph ''e'' None s1 = Some (Return (Some l), s1)
      \<and> deleteLine ex_mgraph ''o'' s1 = Some (Return (), s2)
      \<and> e_line s2 ''e'' = None \<and> e_line s2 ''o'' = None
      \<and> layerOf s2 l = None \<and> l \<notin> mv_layers s2 \<and> l \<notin> lf_lineGroup s2 \<and> l \<notin> lf_onMap s2
      \<and> mv_emitted s2 = mv_emitted s1 @ [Emit Delete l]
      \<and> deleteLine ex_mgraph ''e'' s2 = Some (Return (), s2)"
proof -
  have h: "m_opposite ex_mgraph ''e'' = Some ''o''" "m_opposite ex_mgraph ''o'' = Some ''e''"
      "m_edgeType ex_mgraph ''e'' \<noteq> edge_TEMPORAL" "e_line mv0 ''e'' = None"
    by (simp_all add: ex_mgraph_def mv0_def edge_TEMPORAL_def)
  show ?thesis
    using shared_line[OF h, where x = "''o''" and y = "''e''" and ctype = None and ctype' = None]
    by simp
qed

subsection \<open>Lines in the line container\<close>

lemma isPoint_obj: "isPoint s p \<Longrightarrow> \<exists>m. mv_objs s p = Some m \<and> me_kind m = Point \<and> vertexOf s p = me_model m"
  by (auto simp: isPoint_def vertexOf_def split: option.splits)







subsection \<open>Frames of the rendering library\<close>

lemma presD: "pres R m \<Longrightarrow> m s = Some (r, s') \<Longrightarrow> R s s'"
  by (auto simp: pres_def)

lemma pres_bnd:
  assumes trans: "\<And>a b c. R a b \<Longrightarrow> R b c \<Longrightarrow> R a c"
    and m: "pres R m" and f: "\<And>x. pres R (f x)"
  shows "pres R (bnd m f)"
  unfolding pres_def
proof (intro allI impI)
  fix s r s'
  assume h: "bnd m f s = Some (r, s')"
  show "R s s'"
  proof (cases "m s")
    case None
    then show ?thesis using h by (simp add: bnd_def)
  next
    case (Some a)
    obtain o1 s1 where a: "a = (o1, s1)" by (cases a)
    have r1: "R s s1" using presD[OF m] Some a by simp
    show ?thesis
    proof (cases o1)
      case (Return x)
      then have "f x s1 = Some (r, s')" using h Some a by (simp add: bnd_def)
      then have "R s1 s'" using presD[OF f] by blast
      then show ?thesis using r1 trans by blast
    next
      case (Throw e)
      then have "s' = s1" using h Some a by (simp add: bnd_def)
      then show ?thesis using r1 by simp
    qed
  qed
qed

lemma pres_ret: "(\<And>s. R s s) \<Longrightarrow> pres R (ret x)"
  by (simp add: pres_def)

lemma pres_modify: "(\<And>s. R s (g s)) \<Longrightarrow> pres R (modify g)"
  by (auto simp: pres_def)

lemma pres_forEach:
  assumes refl: "\<And>s. R s s" and trans: "\<And>a b c. R a b \<Longrightarrow> R b c \<Longrightarrow> R a c"
    and f: "\<And>x. pres R (f x)"
  shows "pres R (forEach f xs)"
proof (induction xs)
  case Nil
  show ?case using refl by (simp add: pres_def)
next
  case (Cons x xs)
  show ?case
    unfolding forEach.simps
    by (rule pres_bnd[where R = R, OF trans f Cons]) assumption+
qed

lemma libOnly_refl: "libOnly s s"
  by (simp add: libOnly_def)

lemma libOnly_trans: "libOnly a b \<Longrightarrow> libOnly b c \<Longrightarrow> libOnly a c"
proof -
  assume 1: "libOnly a b" and 2: "libOnly b c"
  have "c = b\<lparr> lf_onMap := lf_onMap c, lf_lineGroup := lf_lineGroup c, mv_emitted := mv_emitted c \<rparr>"
    using 2 by (simp add: libOnly_def)
  also have "b = a\<lparr> lf_onMap := lf_onMap b, lf_lineGroup := lf_lineGroup b, mv_emitted := mv_emitted b \<rparr>"
    using 1 by (simp add: libOnly_def)
  finally show "libOnly a c" 
    unfolding libOnly_def by simp
qed

lemma libAdds_refl: "libAdds s s"
  by (simp add: libAdds_def libOnly_refl)

lemma libAdds_trans: "libAdds a b \<Longrightarrow> libAdds b c \<Longrightarrow> libAdds a c"
  unfolding libAdds_def using libOnly_trans by blast

lemma libOnly_steps:
  "libOnly s (s\<lparr> lf_onMap := a \<rparr>)"
  "libOnly s (s\<lparr> lf_lineGroup := b \<rparr>)"
  "libOnly s (onLayerAdd l s)"
  "libOnly s (onLayerRemove l s)"
  by (simp_all add: libOnly_def onLayerAdd_def onLayerRemove_def emitMap_def)

lemma onLayer_onMap [simp]:
  "lf_onMap (onLayerAdd l s) = lf_onMap s"
  "lf_onMap (onLayerRemove l s) = lf_onMap s"
  by (simp_all add: onLayerAdd_def onLayerRemove_def emitMap_def)

lemma libAdds_steps:
  "libAdds s (onLayerAdd l s)"
  "libAdds s (s\<lparr> lf_onMap := insert l (lf_onMap s) \<rparr>)"
  "libAdds s (s\<lparr> lf_lineGroup := b \<rparr>)"
  by (auto simp: libAdds_def libOnly_steps)

lemma lineGroup_addLayer_pres:
  assumes "pres libAdds (f l)"
  shows "pres libAdds (lineGroup_addLayer f l)"
  unfolding pres_def
proof (intro allI impI)
  fix s r s'
  assume h: "lineGroup_addLayer f l s = Some (r, s')"
  let ?s1 = "s\<lparr> lf_lineGroup := insert l (lf_lineGroup s) \<rparr>"
  have 1: "libAdds s ?s1" by (simp add: libAdds_def libOnly_steps)
  show "libAdds s s'"
  proof (cases "l \<in> lf_lineGroup s")
    case True
    then show ?thesis using h by (simp add: lineGroup_addLayer_def libAdds_refl)
  next
    case False
    show ?thesis
    proof (cases "lf_lineGroupOnMap s")
      case True
      then have "f l ?s1 = Some (r, s')" using h False by (simp add: lineGroup_addLayer_def)
      then have "libAdds ?s1 s'" using presD[OF assms] by blast
      then show ?thesis using 1 libAdds_trans by blast
    next
      case f: False
      then have "s' = ?s1" using h False by (simp add: lineGroup_addLayer_def)
      then show ?thesis using 1 by simp
    qed
  qed
qed

lemma point_onAdd_pres:
  assumes "\<And>l. pres libAdds (f l)"
  shows "pres libAdds (point_onAdd f gr v)"
  unfolding point_onAdd_def
proof (rule pres_forEach[where R = libAdds, OF libAdds_refl])
  show "libAdds a c" if "libAdds a b" "libAdds b c" for a b c
    using that by (rule libAdds_trans)
next
  fix e
  show "pres libAdds (\<lambda>s. case e_line s e of
          None \<Rightarrow> Some (Return (), s)
        | Some li \<Rightarrow>
            (case v_point s (m_to gr e) of
               None \<Rightarrow> Some (Return (), s)
             | Some tp \<Rightarrow>
                 (if isVisible s tp
                  then (case layerOf s li of
                          None \<Rightarrow> Some (Throw TypeError, s)
                        | Some l \<Rightarrow> lineGroup_addLayer f l s)
                  else Some (Return (), s))))"
    unfolding pres_def
    using presD[OF lineGroup_addLayer_pres[OF assms]]
    by (auto simp: libAdds_refl split: option.splits if_splits)
qed

lemma addRest_pres:
  assumes "\<And>l. pres libAdds (f l)"
  shows "pres libAdds
     (bnd (forEach f ls)
         (\<lambda>_. bnd (\<lambda>s1. if isPoint s1 l
                         then point_onAdd f gr (vertexOf s1 l) s1
                         else Some (Return (), s1))
                (\<lambda>_. modify (onLayerAdd l))))"
proof (intro pres_bnd[where R = libAdds] pres_forEach[where R = libAdds] pres_modify)
  show "pres libAdds (\<lambda>s1. if isPoint s1 l
                         then point_onAdd f gr (vertexOf s1 l) s1
                         else Some (Return (), s1))"
    unfolding pres_def
    using presD[OF point_onAdd_pres[where f = f, OF assms]]
    by (auto simp: libAdds_refl split: if_splits)
qed (erule (1) libAdds_trans | rule libAdds_refl assms libAdds_steps)+

lemma mapAddLayer_Suc:
  "l \<notin> lf_onMap s \<Longrightarrow>
   mapAddLayer (Suc n) gr l s
     = bnd (forEach (mapAddLayer n gr) (layerMembers s l))
         (\<lambda>_. bnd (\<lambda>s1. if isPoint s1 l
                         then point_onAdd (mapAddLayer n gr) gr (vertexOf s1 l) s1
                         else Some (Return (), s1))
                (\<lambda>_. modify (onLayerAdd l)))
         (s\<lparr> lf_onMap := insert l (lf_onMap s) \<rparr>)"
  by simp

lemma mapAddLayer_pres: "pres libAdds (mapAddLayer n gr l)"
proof (induction n arbitrary: l)
  case 0
  show ?case by (simp add: pres_def)
next
  case (Suc n)
  show ?case
    unfolding pres_def
  proof (intro allI impI)
    fix s r s'
    assume h: "mapAddLayer (Suc n) gr l s = Some (r, s')"
    let ?s0 = "s\<lparr> lf_onMap := insert l (lf_onMap s) \<rparr>"
    show "libAdds s s'"
    proof (cases "l \<in> lf_onMap s")
      case True
      then show ?thesis using h by (simp add: libAdds_refl)
    next
      case False
      have "libAdds ?s0 s'"
        using h unfolding mapAddLayer_Suc[OF False]
        by (rule presD[OF addRest_pres[where f = "mapAddLayer n gr", OF Suc]])
      moreover have "libAdds s ?s0" by (rule libAdds_steps)
      ultimately show ?thesis by (rule libAdds_trans[rotated])
    qed
  qed
qed

lemma mapAddLayer_onMap:
  assumes "mapAddLayer (Suc n) gr l s = Some (r, s')"
  shows "l \<in> lf_onMap s'"
proof (cases "l \<in> lf_onMap s")
  case True
  then show ?thesis using assms by simp
next
  case False
  have "libAdds (s\<lparr> lf_onMap := insert l (lf_onMap s) \<rparr>) s'"
    using assms unfolding mapAddLayer_Suc[OF False]
    by (rule presD[OF addRest_pres[where f = "mapAddLayer n gr", OF mapAddLayer_pres]])
  then show ?thesis by (auto simp: libAdds_def)
qed

lemma addToMap_pres: "pres libAdds (addToMap gr l)"
  unfolding pres_def addToMap_def using presD[OF mapAddLayer_pres] by blast

lemma addToMap_onMap:
  assumes "addToMap gr l s = Some (r, s')"
  shows "l \<in> lf_onMap s'"
proof -
  have "depth s = Suc (Suc (mv_next s))" by (simp add: depth_def)
  then have "mapAddLayer (Suc (Suc (mv_next s))) gr l s = Some (r, s')"
    using assms by (simp add: addToMap_def del: mapAddLayer.simps)
  then show ?thesis by (rule mapAddLayer_onMap)
qed

lemma lineGroup_removeLayer_pres:
  assumes "\<And>l. pres libOnly (f l)"
  shows "pres libOnly (lineGroup_removeLayer f lo)"
  unfolding pres_def
proof (intro allI impI)
  fix s r s'
  assume h: "lineGroup_removeLayer f lo s = Some (r, s')"
  show "libOnly s s'"
  proof (cases lo)
    case None
    then show ?thesis using h by (simp add: lineGroup_removeLayer_def libOnly_refl)
  next
    case (Some l)
    show ?thesis
    proof (cases "l \<in> lf_lineGroup s")
      case False
      then show ?thesis using h Some by (simp add: lineGroup_removeLayer_def libOnly_refl)
    next
      case True
      have c: "pres libOnly (if lf_lineGroupOnMap s then f l else ret ())"
        using assms[of l] by (simp add: pres_def libOnly_refl)
      have p: "pres libOnly (bnd (if lf_lineGroupOnMap s then f l else ret ())
                 (\<lambda>_. modify (\<lambda>s'. s'\<lparr> lf_lineGroup := lf_lineGroup s' - {l} \<rparr>)))"
      proof (rule pres_bnd[where R = libOnly])
        show "libOnly a c" if "libOnly a b" "libOnly b c" for a b c
          using that by (rule libOnly_trans)
        show "pres libOnly (if lf_lineGroupOnMap s then f l else ret ())" by (rule c)
        show "pres libOnly (modify (\<lambda>s'. s'\<lparr> lf_lineGroup := lf_lineGroup s' - {l} \<rparr>))" for x :: unit
          by (rule pres_modify) (rule libOnly_steps)
      qed
      have "bnd (if lf_lineGroupOnMap s then f l else ret ())
                 (\<lambda>_. modify (\<lambda>s'. s'\<lparr> lf_lineGroup := lf_lineGroup s' - {l} \<rparr>)) s = Some (r, s')"
        using h Some True by (simp add: lineGroup_removeLayer_def)
      then show ?thesis by (rule presD[OF p])
    qed
  qed
qed

lemma point_onRemove_pres:
  assumes "\<And>l. pres libOnly (f l)"
  shows "pres libOnly (point_onRemove f gr v)"
  unfolding point_onRemove_def
proof (rule pres_forEach[where R = libOnly, OF libOnly_refl])
  show "libOnly a c" if "libOnly a b" "libOnly b c" for a b c
    using that by (rule libOnly_trans)
next
  fix e
  show "pres libOnly (\<lambda>s. case e_line s e of
          None \<Rightarrow> Some (Return (), s)
        | Some li \<Rightarrow> lineGroup_removeLayer f (layerOf s li) s)"
    unfolding pres_def
  proof (intro allI impI)
    fix s r s'
    assume h: "(case e_line s e of
          None \<Rightarrow> Some (Return (), s)
        | Some li \<Rightarrow> lineGroup_removeLayer f (layerOf s li) s) = Some (r, s')"
    show "libOnly s s'"
    proof (cases "e_line s e")
      case None
      then show ?thesis using h by (simp add: libOnly_refl)
    next
      case (Some li)
      then have "lineGroup_removeLayer f (layerOf s li) s = Some (r, s')" using h by simp
      then show ?thesis by (rule presD[OF lineGroup_removeLayer_pres[where f = f, OF assms]])
    qed
  qed
qed

lemma removeRest_pres:
  assumes "\<And>l. pres libOnly (f l)"
  shows "pres libOnly
     (bnd (forEach f ls)
         (\<lambda>_. bnd (modify (\<lambda>s1. onLayerRemove l (s1\<lparr> lf_onMap := lf_onMap s1 - {l} \<rparr>)))
                (\<lambda>_ s1. if isPoint s1 l
                         then point_onRemove f gr (vertexOf s1 l) s1
                         else Some (Return (), s1))))"
proof (intro pres_bnd[where R = libOnly] pres_forEach[where R = libOnly] pres_modify)
  show "pres libOnly (\<lambda>s1. if isPoint s1 l
                         then point_onRemove f gr (vertexOf s1 l) s1
                         else Some (Return (), s1))"
    unfolding pres_def
  proof (intro allI impI)
    fix s r s'
    assume h: "(if isPoint s l then point_onRemove f gr (vertexOf s l) s
                else Some (Return (), s)) = Some (r, s')"
    show "libOnly s s'"
    proof (cases "isPoint s l")
      case True
      then have "point_onRemove f gr (vertexOf s l) s = Some (r, s')" using h by simp
      then show ?thesis by (rule presD[OF point_onRemove_pres[where f = f, OF assms]])
    next
      case False
      then show ?thesis using h by (simp add: libOnly_refl)
    qed
  qed
  show "libOnly s (onLayerRemove l (s\<lparr> lf_onMap := lf_onMap s - {l} \<rparr>))" for s
    by (simp add: libOnly_def onLayerRemove_def emitMap_def)
qed (erule (1) libOnly_trans | rule libOnly_refl assms)+

lemma mapRemoveLayer_pres: "pres libOnly (mapRemoveLayer n gr l)"
proof (induction n arbitrary: l)
  case 0
  show ?case by (simp add: pres_def)
next
  case (Suc n)
  show ?case
    unfolding pres_def
  proof (intro allI impI)
    fix s r s'
    assume h: "mapRemoveLayer (Suc n) gr l s = Some (r, s')"
    show "libOnly s s'"
    proof (cases "l \<in> lf_onMap s")
      case False
      then show ?thesis using h by (simp add: libOnly_refl)
    next
      case True
      then have "bnd (forEach (mapRemoveLayer n gr) (layerMembers s l))
         (\<lambda>_. bnd (modify (\<lambda>s1. onLayerRemove l (s1\<lparr> lf_onMap := lf_onMap s1 - {l} \<rparr>)))
                (\<lambda>_ s1. if isPoint s1 l
                         then point_onRemove (mapRemoveLayer n gr) gr (vertexOf s1 l) s1
                         else Some (Return (), s1))) s = Some (r, s')"
        using h by simp
      then show ?thesis
        by (rule presD[OF removeRest_pres[where f = "mapRemoveLayer n gr", OF Suc]])
    qed
  qed
qed

lemma removeFromMap_pres: "pres libOnly (removeFromMap gr l)"
  unfolding pres_def removeFromMap_def using presD[OF mapRemoveLayer_pres] by blast

subsection \<open>Frames of the operations on the parent\<close>

lemma libOnly_fields:
  assumes "libOnly s s'"
  shows "mv_objs s' = mv_objs s" "mv_next s' = mv_next s" "v_point s' = v_point s"
    "e_line s' = e_line s" "g_layerGroup s' = g_layerGroup s"
    "g_controlGroup s' = g_controlGroup s" "mv_treeRefreshes s' = mv_treeRefreshes s"
    "lf_members s' = lf_members s" "mv_overlayTree s' = mv_overlayTree s"
proof -
  have e: "s' = s\<lparr> lf_onMap := lf_onMap s', lf_lineGroup := lf_lineGroup s',
                     mv_emitted := mv_emitted s' \<rparr>"
    using assms by (simp add: libOnly_def)
  show "mv_objs s' = mv_objs s" by (subst e) simp
  show "mv_next s' = mv_next s" by (subst e) simp
  show "v_point s' = v_point s" by (subst e) simp
  show "e_line s' = e_line s" by (subst e) simp
  show "g_layerGroup s' = g_layerGroup s" by (subst e) simp
  show "g_controlGroup s' = g_controlGroup s" by (subst e) simp
  show "mv_treeRefreshes s' = mv_treeRefreshes s" by (subst e) simp
  show "lf_members s' = lf_members s" by (subst e) simp
  show "mv_overlayTree s' = mv_overlayTree s" by (subst e) simp
qed

lemma libAdds_libOnly: "libAdds s s' \<Longrightarrow> libOnly s s'"
  by (simp add: libAdds_def)

lemma frame_refl: "frame x s s"
  by (simp add: frame_def)

lemma frame_trans: "frame x a b \<Longrightarrow> frame x b c \<Longrightarrow> frame x a c"
  by (simp add: frame_def)

lemma same_objs_frame:
  assumes "mv_objs s' = mv_objs s" "mv_next s' = mv_next s" "v_point s' = v_point s"
    "e_line s' = e_line s" "g_layerGroup s' = g_layerGroup s"
    "g_controlGroup s' = g_controlGroup s" "mv_treeRefreshes s' = mv_treeRefreshes s"
  shows "frame x s s'"
  using assms by (simp add: frame_def parentOf_def)

lemma libOnly_frame: "libOnly s s' \<Longrightarrow> frame x s s'"
  by (intro same_objs_frame libOnly_fields)

lemma frame_shape:
  assumes "frame x s s'"
  shows "mv_objs s y = None \<longleftrightarrow> mv_objs s' y = None"
    and "mv_objs s y = Some m \<Longrightarrow> \<exists>m'. mv_objs s' y = Some m' \<and> me_kind m' = me_kind m
            \<and> me_model m' = me_model m \<and> me_layer m' = me_layer m"
proof -
  have sh: "map_option shape (mv_objs s' y) = map_option shape (mv_objs s y)"
    using assms by (simp add: frame_def)
  show "mv_objs s y = None \<longleftrightarrow> mv_objs s' y = None"
    using sh by (cases "mv_objs s y"; cases "mv_objs s' y") simp_all
  show "\<exists>m'. mv_objs s' y = Some m' \<and> me_kind m' = me_kind m
            \<and> me_model m' = me_model m \<and> me_layer m' = me_layer m" if "mv_objs s y = Some m"
    using sh that by (cases "mv_objs s' y") (simp_all add: shape_def)
qed

lemma frame_reads:
  assumes "frame x s s'"
  shows "layerOf s' y = layerOf s y" "kindOf s' y = kindOf s y" "isPoint s' y = isPoint s y"
    "vertexOf s' y = vertexOf s y" "deriveParent gr s' y = deriveParent gr s y"
proof -
  have g: "g_layerGroup s' = g_layerGroup s" "g_controlGroup s' = g_controlGroup s"
    using assms by (simp_all add: frame_def)
  have "layerOf s' y = layerOf s y \<and> kindOf s' y = kindOf s y \<and> isPoint s' y = isPoint s y
    \<and> vertexOf s' y = vertexOf s y \<and> deriveParent gr s' y = deriveParent gr s y"
  proof (cases "mv_objs s y")
    case None
    then have n: "mv_objs s' y = None" using frame_shape(1)[OF assms] by simp
    show ?thesis
      using None n by (simp add: layerOf_def kindOf_def isPoint_def vertexOf_def deriveParent_def)
  next
    case (Some m)
    then obtain m' where m': "mv_objs s' y = Some m'" "me_kind m' = me_kind m"
        "me_model m' = me_model m" "me_layer m' = me_layer m"
      using frame_shape(2)[OF assms] by blast
    show ?thesis
      using Some m' g
      by (simp add: layerOf_def kindOf_def isPoint_def vertexOf_def deriveParent_def
          split: kind.splits option.splits)
  qed
  then show "layerOf s' y = layerOf s y" "kindOf s' y = kindOf s y" "isPoint s' y = isPoint s y"
    "vertexOf s' y = vertexOf s y" "deriveParent gr s' y = deriveParent gr s y"
    by simp_all
qed

lemma frame_ready:
  assumes "frame x s s'"
  shows "edgeReady s' e = edgeReady s e" "lineReady gr s' v = lineReady gr s v"
proof -
  have el: "e_line s' = e_line s" using assms by (simp add: frame_def)
  show r: "edgeReady s' e = edgeReady s e" for e
  proof (cases "e_line s e")
    case None
    then show ?thesis using el by (simp add: edgeReady_def)
  next
    case (Some li)
    show ?thesis
    proof (cases "mv_objs s li")
      case None
      then have "mv_objs s' li = None" using frame_shape(1)[OF assms] by simp
      then show ?thesis using None Some el by (simp add: edgeReady_def)
    next
      case m: (Some m)
      then obtain m' where "mv_objs s' li = Some m'" "me_kind m' = me_kind m"
          "me_layer m' = me_layer m"
        using frame_shape(2)[OF assms] by blast
      then show ?thesis using m Some el by (simp add: edgeReady_def)
    qed
  qed
  show "lineReady gr s' v = lineReady gr s v" by (simp add: lineReady_def r)
qed

lemma bnd_SomeE:
  assumes "bnd m f s = Some (r, s')"
  shows "(\<exists>e. m s = Some (Throw e, s') \<and> r = Throw e)
       \<or> (\<exists>x s1. m s = Some (Return x, s1) \<and> f x s1 = Some (r, s'))"
proof (cases "m s")
  case None
  then show ?thesis using assms by (simp add: bnd_def)
next
  case (Some a)
  obtain o1 s1 where a: "a = (o1, s1)" by (cases a)
  show ?thesis using assms Some a by (cases o1) (simp_all add: bnd_def)
qed

lemma bnd_ReturnE:
  assumes "bnd m f s = Some (Return y, s')"
  obtains x s1 where "m s = Some (Return x, s1)" and "f x s1 = Some (Return y, s')"
  using bnd_SomeE[OF assms] by auto

lemma setParent_frame: "frame x s (setParent x par s)"
  by (auto simp: frame_def setParent_def parentOf_def shape_def split: option.splits)

lemma setParent_fields [simp]:
  "lf_members (setParent x par s) = lf_members s"
  "lf_onMap (setParent x par s) = lf_onMap s"
  by (simp_all add: setParent_def)

lemma setParent_parent: "mv_objs s x \<noteq> None \<Longrightarrow> parentOf (setParent x par s) x = par"
  by (auto simp: setParent_def parentOf_def)

lemma pushChild_frame: "frame x s (pushChild p y s)"
  by (auto simp: frame_def pushChild_def parentOf_def shape_def split: option.splits)

lemma pushChild_fields [simp]:
  "lf_members (pushChild p y s) = lf_members s"
  "lf_onMap (pushChild p y s) = lf_onMap s"
  "parentOf (pushChild p y s) z = parentOf s z"
  by (auto simp: pushChild_def parentOf_def split: option.splits)

lemma group_addLayer_effect:
  assumes "group_addLayer gr g l s = Some (r, s')"
  shows "frame x s s' \<and> mv_objs s' = mv_objs s \<and> l \<in> set (lf_members s' g)
      \<and> (\<forall>h. h \<noteq> g \<longrightarrow> lf_members s' h = lf_members s h)"
proof (cases "l \<in> set (lf_members s g)")
  case True
  then have "s' = s" using assms by (simp add: group_addLayer_def)
  then show ?thesis using True by (simp add: frame_refl)
next
  case False
  define s1 where "s1 = s\<lparr> lf_members := (lf_members s)(g := lf_members s g @ [l]) \<rparr>"
  have f1: "frame x s s1" "mv_objs s1 = mv_objs s" "l \<in> set (lf_members s1 g)"
      "\<forall>h. h \<noteq> g \<longrightarrow> lf_members s1 h = lf_members s h"
    by (simp_all add: s1_def frame_def parentOf_def)
  show ?thesis
  proof (cases "g \<in> lf_onMap s")
    case True
    then have "addToMap gr l s1 = Some (r, s')"
      using assms False by (simp add: group_addLayer_def s1_def Let_def)
    then have "libAdds s1 s'" by (rule presD[OF addToMap_pres])
    then have lo: "libOnly s1 s'" by (rule libAdds_libOnly)
    have "frame x s s'" using f1(1) libOnly_frame[OF lo] by (rule frame_trans)
    then show ?thesis using f1 libOnly_fields(1,8)[OF lo] by simp
  next
    case g: False
    then have "s' = s1" using assms False by (simp add: group_addLayer_def s1_def Let_def)
    then show ?thesis using f1 by simp
  qed
qed

lemma group_removeLayer_effect:
  assumes "group_removeLayer gr g lo s = Some (r, s')"
  shows "frame x s s' \<and> mv_objs s' = mv_objs s
      \<and> (\<forall>h. h \<noteq> g \<longrightarrow> lf_members s' h = lf_members s h)
      \<and> (\<forall>l. r = Return () \<and> lo = Some l \<longrightarrow> l \<notin> set (lf_members s' g))"
proof (cases lo)
  case None
  then have "s' = s" using assms by (simp add: group_removeLayer_def)
  then show ?thesis using None by (simp add: frame_refl)
next
  case (Some l)
  show ?thesis
  proof (cases "l \<in> set (lf_members s g)")
    case False
    then have "s' = s" using assms Some by (simp add: group_removeLayer_def)
    then show ?thesis using False Some by (simp add: frame_refl)
  next
    case True
    let ?m = "if g \<in> lf_onMap s then removeFromMap gr l else ret ()"
    let ?f = "\<lambda>_::unit. modify (\<lambda>s'. s'\<lparr> lf_members :=
                                 (lf_members s')(g := removeAll l (lf_members s' g)) \<rparr>)"
    have run: "bnd ?m ?f s = Some (r, s')"
      using assms Some True by (simp add: group_removeLayer_def)
    have pm: "pres libOnly ?m"
      using removeFromMap_pres[of gr l] by (simp add: pres_def libOnly_refl)
    from bnd_SomeE[OF run] show ?thesis
    proof
      assume "\<exists>e. ?m s = Some (Throw e, s') \<and> r = Throw e"
      then obtain e where e: "?m s = Some (Throw e, s')" "r = Throw e" by blast
      have lo': "libOnly s s'" using e(1) by (rule presD[OF pm])
      show ?thesis
        using libOnly_frame[OF lo'] libOnly_fields(1,8)[OF lo'] e(2) by simp
    next
      assume "\<exists>u s1. ?m s = Some (Return u, s1) \<and> ?f u s1 = Some (r, s')"
      then obtain u s1 where u: "?m s = Some (Return u, s1)" "?f u s1 = Some (r, s')" by blast
      have lo': "libOnly s s1" using u(1) by (rule presD[OF pm])
      have s': "s' = s1\<lparr> lf_members := (lf_members s1)(g := removeAll l (lf_members s1 g)) \<rparr>"
        using u(2) by simp
      have "frame x s1 s'" by (simp add: s' frame_def parentOf_def)
      then have "frame x s s'" using libOnly_frame[OF lo'] frame_trans by blast
      then show ?thesis
        using libOnly_fields(1,8)[OF lo'] Some by (simp add: s')
    qed
  qed
qed

lemma removeFromParentControlGroup_effect:
  assumes "removeFromParentControlGroup cg s = Some (r, s')"
  shows "frame cg s s' \<and> lf_members s' = lf_members s"
proof (cases "parentOf s cg")
  case Undefined
  then have "s' = setParent cg Null (s\<lparr> mv_overlayTree := remove1 cg (mv_overlayTree s) \<rparr>)"
    using assms by (simp add: removeFromParentControlGroup_def)
  moreover have "frame cg s (s\<lparr> mv_overlayTree := remove1 cg (mv_overlayTree s) \<rparr>)"
    by (simp add: frame_def parentOf_def)
  ultimately show ?thesis using setParent_frame frame_trans by fastforce
next
  case Null
  then have "s' = setParent cg Null (s\<lparr> mv_overlayTree := remove1 cg (mv_overlayTree s) \<rparr>)"
    using assms by (simp add: removeFromParentControlGroup_def)
  moreover have "frame cg s (s\<lparr> mv_overlayTree := remove1 cg (mv_overlayTree s) \<rparr>)"
    by (simp add: frame_def parentOf_def)
  ultimately show ?thesis using setParent_frame frame_trans by fastforce
next
  case (Ref p)
  show ?thesis
  proof (cases "mv_objs s p")
    case None
    then have "s' = s" using assms Ref by (simp add: removeFromParentControlGroup_def)
    then show ?thesis by (simp add: frame_refl)
  next
    case (Some m)
    show ?thesis
    proof (cases "me_children m")
      case None
      then have "s' = s" using assms Ref Some by (simp add: removeFromParentControlGroup_def)
      then show ?thesis by (simp add: frame_refl)
    next
      case cs: (Some cs)
      define s1 where "s1 = s\<lparr> mv_objs := (mv_objs s)(p \<mapsto> m\<lparr> me_children :=
                                  (if remove1 cg cs = [] then None else Some (remove1 cg cs)) \<rparr>) \<rparr>"
      have "s' = setParent cg Null s1"
        using assms Ref Some cs by (simp add: removeFromParentControlGroup_def Let_def s1_def)
      moreover have "frame cg s s1"
        using Some by (simp add: s1_def frame_def parentOf_def shape_def)
      moreover have "lf_members s1 = lf_members s" by (simp add: s1_def)
      ultimately show ?thesis using setParent_frame frame_trans by fastforce
    qed
  qed
qed

lemma removeFromParent_effect:
  assumes "removeFromParent gr x s = Some (r, s')"
  shows "frame x s s'
      \<and> (\<forall>p. r = Return () \<and> layerOf s x = Some x \<and> parentOf s x = Ref p
              \<longrightarrow> x \<notin> set (lf_members s' p))"
proof -
  let ?A = "\<lambda>s. case parentOf s x of
                 Ref p \<Rightarrow> (case layerOf s p of
                              None \<Rightarrow> Some (Throw TypeError, s)
                            | Some pl \<Rightarrow> group_removeLayer gr pl (layerOf s x) s)
               | Null \<Rightarrow> Some (Return (), s)
               | Undefined \<Rightarrow> Some (Return (), s)"
  let ?B = "\<lambda>s. if kindOf s x = Some ControlGroup
                       then removeFromParentControlGroup x s
                       else Some (Return (), s)"
  let ?rest = "\<lambda>_::unit. bnd ?B (\<lambda>_. modify (setParent x Null))"
  have run: "bnd ?A ?rest s = Some (r, s')"
    using assms by (simp add: removeFromParent_def)
  have A: "frame x s s1
      \<and> (\<forall>p. r1 = Return () \<and> layerOf s x = Some x \<and> parentOf s x = Ref p
              \<longrightarrow> x \<notin> set (lf_members s1 p))"
    if a: "?A s = Some (r1, s1)" for r1 s1
  proof (cases "parentOf s x")
    case Undefined
    then show ?thesis using a by (auto simp: frame_refl)
  next
    case Null
    then show ?thesis using a by (auto simp: frame_refl)
  next
    case (Ref p)
    show ?thesis
    proof (cases "layerOf s p")
      case None
      then show ?thesis using a Ref by (auto simp: frame_refl)
    next
      case (Some pl)
      then have pl: "pl = p" by (auto simp: layerOf_def split: option.splits if_splits)
      have "group_removeLayer gr p (layerOf s x) s = Some (r1, s1)"
        using a Ref Some pl by simp
      from group_removeLayer_effect[OF this, of x] show ?thesis using Ref by simp
    qed
  qed
  have B: "frame x s1 s2 \<and> lf_members s2 = lf_members s1"
    if b: "?B s1 = Some (r2, s2)" for r2 s1 s2
  proof (cases "kindOf s1 x = Some ControlGroup")
    case True
    then have "removeFromParentControlGroup x s1 = Some (r2, s2)" using b by simp
    then show ?thesis by (rule removeFromParentControlGroup_effect)
  next
    case False
    then show ?thesis using b by (auto simp: frame_refl)
  qed
  have R: "frame x s1 s3 \<and> lf_members s3 = lf_members s1"
    if c: "?rest u s1 = Some (r3, s3)" for u r3 s1 s3
    using bnd_SomeE[OF c]
  proof
    assume "\<exists>e. ?B s1 = Some (Throw e, s3) \<and> r3 = Throw e"
    then show ?thesis using B by blast
  next
    assume "\<exists>v s2. ?B s1 = Some (Return v, s2) \<and> modify (setParent x Null) s2 = Some (r3, s3)"
    then obtain v s2 where v: "?B s1 = Some (Return v, s2)" "s3 = setParent x Null s2" by auto
    have "frame x s1 s2" "lf_members s2 = lf_members s1" using B[OF v(1)] by simp_all
    then show ?thesis using v(2) setParent_frame[of x s2 Null] frame_trans by auto
  qed
  from bnd_SomeE[OF run] show ?thesis
  proof
    assume "\<exists>e. ?A s = Some (Throw e, s') \<and> r = Throw e"
    then obtain e where e: "?A s = Some (Throw e, s')" "r = Throw e" by blast
    show ?thesis using A[OF e(1)] e(2) by simp
  next
    assume "\<exists>u s1. ?A s = Some (Return u, s1) \<and> ?rest u s1 = Some (r, s')"
    then obtain u s1 where u: "?A s = Some (Return u, s1)" "?rest u s1 = Some (r, s')" by blast
    have 1: "frame x s s1" "\<forall>p. layerOf s x = Some x \<and> parentOf s x = Ref p
              \<longrightarrow> x \<notin> set (lf_members s1 p)"
      using A[OF u(1)] by simp_all
    have 2: "frame x s1 s'" "lf_members s' = lf_members s1" using R[OF u(2)] by simp_all
    show ?thesis using 1 2 frame_trans by auto
  qed
qed

lemma deriveParent_exists: "deriveParent gr s x = Inr par \<Longrightarrow> mv_objs s x \<noteq> None"
  by (cases "mv_objs s x") (simp_all add: deriveParent_def)

lemma addToDerivedParent_effect:
  assumes "addToDerivedParent gr x s = Some (Return (), s')"
    and "deriveParent gr s x = Inr par"
  shows "frame x s s' \<and> parentOf s' x = par \<and> layerOf s x = Some x
      \<and> (\<forall>q. par = Ref q \<longrightarrow> x \<in> set (lf_members s' q)
              \<and> (\<forall>h. h \<noteq> q \<longrightarrow> lf_members s' h = lf_members s h))
      \<and> ((\<forall>q. par \<noteq> Ref q) \<longrightarrow> x \<in> lf_onMap s' \<and> lf_members s' = lf_members s)"
proof -
  let ?C = "\<lambda>s1. case layerOf s1 x of
                      None \<Rightarrow> Some (Throw TypeError, s1)
                    | Some l \<Rightarrow>
                        (case par of
                           Ref p \<Rightarrow> (case layerOf s1 p of
                                        None \<Rightarrow> Some (Throw TypeError, s1)
                                      | Some pl \<Rightarrow> group_addLayer gr pl l s1)
                         | Null \<Rightarrow> addToMap gr l s1
                         | Undefined \<Rightarrow> addToMap gr l s1)"
  let ?D = "\<lambda>s2. if kindOf s2 x = Some ControlGroup
                    then (case par of
                            Ref p \<Rightarrow> pushChild p x s2
                          | Null \<Rightarrow> s2\<lparr> mv_overlayTree := mv_overlayTree s2 @ [x] \<rparr>
                          | Undefined \<Rightarrow> s2\<lparr> mv_overlayTree := mv_overlayTree s2 @ [x] \<rparr>)
                    else s2"
  define s0 where "s0 = setParent x par s"
  have run: "bnd ?C (\<lambda>_. modify ?D) s0 = Some (Return (), s')"
    using assms by (simp add: addToDerivedParent_def s0_def)
  from run obtain u s1 where c: "?C s0 = Some (Return u, s1)" and d: "s' = ?D s1"
    by (rule bnd_ReturnE) simp
  have f0: "frame x s s0" unfolding s0_def by (rule setParent_frame)
  have p0: "parentOf s0 x = par"
    unfolding s0_def using deriveParent_exists[OF assms(2)] by (rule setParent_parent)
  have m0: "lf_members s0 = lf_members s" by (simp add: s0_def)
  obtain l where l: "layerOf s0 x = Some l" using c by (cases "layerOf s0 x") simp_all
  then have lx: "l = x" by (auto simp: layerOf_def split: option.splits if_splits)
  have lay: "layerOf s x = Some x" using l lx frame_reads(1)[OF f0, of x] by simp
  have D: "frame x s1 (?D s1)" "parentOf (?D s1) x = parentOf s1 x"
      "lf_members (?D s1) = lf_members s1" "lf_onMap (?D s1) = lf_onMap s1"
  proof -
    have "frame x s1 (?D s1) \<and> parentOf (?D s1) x = parentOf s1 x
      \<and> lf_members (?D s1) = lf_members s1 \<and> lf_onMap (?D s1) = lf_onMap s1"
    proof (cases par)
      case Undefined
      then show ?thesis by (simp add: frame_def parentOf_def)
    next
      case Null
      then show ?thesis by (simp add: frame_def parentOf_def)
    next
      case (Ref q)
      then show ?thesis by (simp add: pushChild_frame frame_refl)
    qed
    then show "frame x s1 (?D s1)" "parentOf (?D s1) x = parentOf s1 x"
      "lf_members (?D s1) = lf_members s1" "lf_onMap (?D s1) = lf_onMap s1" by simp_all
  qed
  have C: "frame x s0 s1 \<and> mv_objs s1 = mv_objs s0
      \<and> (\<forall>q. par = Ref q \<longrightarrow> x \<in> set (lf_members s1 q)
              \<and> (\<forall>h. h \<noteq> q \<longrightarrow> lf_members s1 h = lf_members s0 h))
      \<and> ((\<forall>q. par \<noteq> Ref q) \<longrightarrow> x \<in> lf_onMap s1 \<and> lf_members s1 = lf_members s0)"
  proof (cases "\<exists>q. par = Ref q")
    case True
    then obtain q where q: "par = Ref q" by blast
    obtain pl where pl: "layerOf s0 q = Some pl"
      using c l q by (cases "layerOf s0 q") simp_all
    then have "pl = q" by (auto simp: layerOf_def split: option.splits if_splits)
    then have "group_addLayer gr q x s0 = Some (Return u, s1)" using c l lx q pl by simp
    from group_addLayer_effect[OF this, of x] show ?thesis using q by simp
  next
    case False
    then have "addToMap gr x s0 = Some (Return u, s1)"
      using c l lx by (cases par) simp_all
    then have a: "libAdds s0 s1" "x \<in> lf_onMap s1"
      using presD[OF addToMap_pres] addToMap_onMap by blast+
    have lo: "libOnly s0 s1" using a(1) by (rule libAdds_libOnly)
    show ?thesis
      using False libOnly_frame[OF lo] libOnly_fields(1,8)[OF lo] a(2) by simp
  qed
  have fr: "frame x s s'"
    using f0 C D(1) d frame_trans by blast
  have par: "parentOf s' x = par"
    using d D(2) C p0 by (simp add: parentOf_def)
  show ?thesis
    using fr par lay C d D(3,4) m0 by simp
qed

subsection \<open>Updating the parent\<close>


lemma updateParent_unfold:
  assumes "visualOf s elem = Some x" and "deriveParent gr s x = Inr par"
    and "parentOf s x \<noteq> par"
  shows "updateParent gr elem s
       = bnd (removeFromParent gr x)
           (\<lambda>_. bnd (addToDerivedParent gr x)
              (\<lambda>_. bnd (modify (\<lambda>s2. (updateLayerTree s2)
                                        \<lparr> mv_emitted := mv_emitted s2 @ [EndUpdate x] \<rparr>))
                     (\<lambda>_. ret x)))
           (s\<lparr> mv_emitted := mv_emitted s @ [StartUpdate x] \<rparr>)"
  using assms by (simp add: updateParent_def)


lemma depth_Suc: "depth s = Suc (Suc (mv_next s))"
  by (simp add: depth_def)

subsection \<open>The recursion of the library ends\<close>

lemma forEach_returns:
  assumes step: "\<And>m t. m \<in> set ls \<Longrightarrow> I t \<Longrightarrow> \<exists>t'. f m t = Some (Return (), t') \<and> I t'"
    and "I t"
  shows "\<exists>t'. forEach f ls t = Some (Return (), t') \<and> I t'"
  using assms
proof (induction ls arbitrary: t)
  case Nil
  then show ?case by simp
next
  case (Cons m ls)
  from Cons.prems(1)[of m t] Cons.prems(2) obtain t1 where
    t1: "f m t = Some (Return (), t1)" "I t1" by auto
  have "\<exists>t'. forEach f ls t1 = Some (Return (), t') \<and> I t'"
    by (rule Cons.IH) (use Cons.prems(1) t1(2) in auto)
  then show ?case using t1(1) by (simp add: bnd_def)
qed

lemma libOnly_reads:
  assumes "libOnly s t"
  shows "layerMembers t = layerMembers s" "isPoint t = isPoint s" "vertexOf t = vertexOf s"
    "lineReady gr t = lineReady gr s"
proof -
  note f = libOnly_fields[OF assms]
  show "layerMembers t = layerMembers s"
    unfolding fun_eq_iff layerMembers_def f by simp
  show "isPoint t = isPoint s"
    unfolding fun_eq_iff isPoint_def f by simp
  show "vertexOf t = vertexOf s"
    unfolding fun_eq_iff vertexOf_def f by simp
  show "lineReady gr t = lineReady gr s"
    unfolding fun_eq_iff lineReady_def edgeReady_def f by simp
qed

lemma wellNested_reads:
  assumes "layerMembers t = layerMembers s" "isPoint t = isPoint s" "vertexOf t = vertexOf s"
    "lineReady gr t = lineReady gr s"
  shows "wellNested gr n t l = wellNested gr n s l"
  by (induction n arbitrary: l) (simp_all add: assms)

lemma wellNested_libOnly: "libOnly s t \<Longrightarrow> wellNested gr n t l = wellNested gr n s l"
  by (intro wellNested_reads libOnly_reads)

lemma wellNested_Suc: "wellNested gr n s l \<Longrightarrow> wellNested gr (Suc n) s l"
  by (induction n arbitrary: l) auto

lemma wellNested_mono: "wellNested gr n s l \<Longrightarrow> n \<le> k \<Longrightarrow> wellNested gr k s l"
proof (induction k)
  case 0
  then show ?case by simp
next
  case (Suc k)
  show ?case
  proof (cases "n = Suc k")
    case True
    then show ?thesis using Suc.prems by simp
  next
    case False
    then have "n \<le> k" using Suc.prems by simp
    then have "wellNested gr k s l" using Suc by simp
    then show ?thesis by (rule wellNested_Suc)
  qed
qed

lemma wellNested_ready: "wellNested gr n s l \<Longrightarrow> isPoint s l \<Longrightarrow> lineReady gr s (vertexOf s l)"
  by (cases n) simp_all

lemma mapAddLayer_returns:
  "wellNested gr n s l \<Longrightarrow>
   \<exists>s'. mapAddLayer (Suc (Suc n)) gr l s = Some (Return (), s') \<and> libAdds s s'"
proof (induction n arbitrary: l s)
  case 0
  show ?case
  proof (cases "l \<in> lf_onMap s")
    case True
    then show ?thesis by (simp add: libAdds_refl)
  next
    case False
    show ?thesis
    proof (cases "isPoint s l")
      case True
      then obtain m where m: "mv_objs s l = Some m" "me_kind m = Point" "vertexOf s l = me_model m"
        using isPoint_obj by blast
      have "lineReady gr s (me_model m)" using 0 True m(3) by simp
      from mapAddLayer_point[OF m(1,2) False this, of 0] obtain s' where
        s': "mapAddLayer (Suc (Suc 0)) gr l s = Some (Return (), s')" by blast
      then have "libAdds s s'" by (rule presD[OF mapAddLayer_pres])
      then show ?thesis using s' by blast
    next
      case np: False
      have mem: "layerMembers s l = []" using 0 by simp
      let ?s0 = "s\<lparr> lf_onMap := insert l (lf_onMap s) \<rparr>"
      have "\<not> isPoint ?s0 l" using np by (simp add: isPoint_def)
      then have s': "mapAddLayer (Suc (Suc 0)) gr l s = Some (Return (), onLayerAdd l ?s0)"
        using False mem by (subst mapAddLayer.simps(2)) (simp add: bnd_def del: mapAddLayer.simps)
      then have "libAdds s (onLayerAdd l ?s0)" by (rule presD[OF mapAddLayer_pres])
      then show ?thesis using s' by blast
    qed
  qed
next
  case (Suc n)
  show ?case
  proof (cases "l \<in> lf_onMap s")
    case True
    then show ?thesis by (simp add: libAdds_refl)
  next
    case False
    let ?s0 = "s\<lparr> lf_onMap := insert l (lf_onMap s) \<rparr>"
    have l0: "libOnly s ?s0" by (rule libOnly_steps)
    have "\<exists>t1. forEach (mapAddLayer (Suc (Suc n)) gr) (layerMembers s l) ?s0 = Some (Return (), t1)
        \<and> libOnly s t1"
    proof (rule forEach_returns[where I = "libOnly s"])
      fix m t
      assume m: "m \<in> set (layerMembers s l)" and t: "libOnly s t"
      have "wellNested gr n s m" using Suc.prems m by simp
      then have "wellNested gr n t m" using wellNested_libOnly[OF t] by simp
      from Suc.IH[OF this] obtain t' where
        t': "mapAddLayer (Suc (Suc n)) gr m t = Some (Return (), t')" "libAdds t t'" by blast
      have "libOnly s t'" using t libAdds_libOnly[OF t'(2)] by (rule libOnly_trans)
      then show "\<exists>t'. mapAddLayer (Suc (Suc n)) gr m t = Some (Return (), t') \<and> libOnly s t'"
        using t'(1) by blast
    qed (rule l0)
    then obtain t1 where
      t1: "forEach (mapAddLayer (Suc (Suc n)) gr) (layerMembers s l) ?s0 = Some (Return (), t1)"
        "libOnly s t1" by blast
    have "\<exists>t2. (if isPoint t1 l
                 then point_onAdd (mapAddLayer (Suc (Suc n)) gr) gr (vertexOf t1 l) t1
                 else Some (Return (), t1)) = Some (Return (), t2)"
    proof (cases "isPoint t1 l")
      case False
      then show ?thesis by simp
    next
      case True
      then have "isPoint s l" using libOnly_reads(2)[OF t1(2)] by simp
      then have "lineReady gr s (vertexOf s l)" using Suc.prems by simp
      then have "lineReady gr t1 (vertexOf t1 l)" using libOnly_reads(3,4)[OF t1(2)] by simp
      then have "\<forall>e\<in>set (m_edges gr (vertexOf t1 l)). edgeReady t1 e" by (simp add: lineReady_def)
      from point_onAdd_loop[OF this, where gr = gr and n = "Suc n"] show ?thesis
        using True unfolding point_onAdd_def by auto
    qed
    then obtain t2 where
      t2: "(if isPoint t1 l
            then point_onAdd (mapAddLayer (Suc (Suc n)) gr) gr (vertexOf t1 l) t1
            else Some (Return (), t1)) = Some (Return (), t2)" by blast
    have s': "mapAddLayer (Suc (Suc (Suc n))) gr l s = Some (Return (), onLayerAdd l t2)"
      using False t1(1) t2
      by (subst mapAddLayer.simps(2)) (simp add: bnd_def del: mapAddLayer.simps)
    then have "libAdds s (onLayerAdd l t2)" by (rule presD[OF mapAddLayer_pres])
    then show ?thesis using s' by blast
  qed
qed

lemma mapRemoveLayer_returns:
  "wellNested gr n s l \<Longrightarrow>
   \<exists>s'. mapRemoveLayer (Suc (Suc n)) gr l s = Some (Return (), s') \<and> libOnly s s'"
proof (induction n arbitrary: l s)
  case 0
  show ?case
  proof (cases "l \<in> lf_onMap s")
    case False
    then show ?thesis by (simp add: libOnly_refl)
  next
    case True
    show ?thesis
    proof (cases "isPoint s l")
      case pt: True
      then obtain m where m: "mv_objs s l = Some m" "me_kind m = Point" "vertexOf s l = me_model m"
        using isPoint_obj by blast
      have "lineReady gr s (me_model m)" using 0 pt m(3) by simp
      from mapRemoveLayer_point[OF m(1,2) True this, of 0] obtain s' where
        s': "mapRemoveLayer (Suc (Suc 0)) gr l s = Some (Return (), s')" by blast
      then have "libOnly s s'" by (rule presD[OF mapRemoveLayer_pres])
      then show ?thesis using s' by blast
    next
      case np: False
      have mem: "layerMembers s l = []" using 0 by simp
      let ?s0 = "onLayerRemove l (s\<lparr> lf_onMap := lf_onMap s - {l} \<rparr>)"
      have "\<not> isPoint ?s0 l" using np by (simp add: isPoint_def onLayerRemove_def emitMap_def)
      then have s': "mapRemoveLayer (Suc (Suc 0)) gr l s = Some (Return (), ?s0)"
        using True mem
        by (subst mapRemoveLayer.simps(2)) (simp add: bnd_def del: mapRemoveLayer.simps)
      then have "libOnly s ?s0" by (rule presD[OF mapRemoveLayer_pres])
      then show ?thesis using s' by blast
    qed
  qed
next
  case (Suc n)
  show ?case
  proof (cases "l \<in> lf_onMap s")
    case False
    then show ?thesis by (simp add: libOnly_refl)
  next
    case True
    have "\<exists>t1. forEach (mapRemoveLayer (Suc (Suc n)) gr) (layerMembers s l) s = Some (Return (), t1)
        \<and> libOnly s t1"
    proof (rule forEach_returns[where I = "libOnly s"])
      fix m t
      assume m: "m \<in> set (layerMembers s l)" and t: "libOnly s t"
      have "wellNested gr n s m" using Suc.prems m by simp
      then have "wellNested gr n t m" using wellNested_libOnly[OF t] by simp
      from Suc.IH[OF this] obtain t' where
        t': "mapRemoveLayer (Suc (Suc n)) gr m t = Some (Return (), t')" "libOnly t t'" by blast
      have "libOnly s t'" using t t'(2) by (rule libOnly_trans)
      then show "\<exists>t'. mapRemoveLayer (Suc (Suc n)) gr m t = Some (Return (), t') \<and> libOnly s t'"
        using t'(1) by blast
    qed (rule libOnly_refl)
    then obtain t1 where
      t1: "forEach (mapRemoveLayer (Suc (Suc n)) gr) (layerMembers s l) s = Some (Return (), t1)"
        "libOnly s t1" by blast
    define t2 where "t2 = onLayerRemove l (t1\<lparr> lf_onMap := lf_onMap t1 - {l} \<rparr>)"
    have "libOnly t1 t2" by (simp add: t2_def libOnly_def onLayerRemove_def emitMap_def)
    then have l2: "libOnly s t2" using t1(2) libOnly_trans by blast
    have "\<exists>t3. (if isPoint t2 l
                 then point_onRemove (mapRemoveLayer (Suc (Suc n)) gr) gr (vertexOf t2 l) t2
                 else Some (Return (), t2)) = Some (Return (), t3)"
    proof (cases "isPoint t2 l")
      case False
      then show ?thesis by simp
    next
      case pt: True
      then have "isPoint s l" using libOnly_reads(2)[OF l2] by simp
      then have "lineReady gr s (vertexOf s l)" using Suc.prems by simp
      then have "lineReady gr t2 (vertexOf t2 l)" using libOnly_reads(3,4)[OF l2] by simp
      then have "\<forall>e\<in>set (m_edges gr (vertexOf t2 l)). edgeReady t2 e" by (simp add: lineReady_def)
      from point_onRemove_loop[OF this, where gr = gr and n = "Suc n"] show ?thesis
        using pt unfolding point_onRemove_def by auto
    qed
    then obtain t3 where
      t3: "(if isPoint t2 l
            then point_onRemove (mapRemoveLayer (Suc (Suc n)) gr) gr (vertexOf t2 l) t2
            else Some (Return (), t2)) = Some (Return (), t3)" by blast
    have s': "mapRemoveLayer (Suc (Suc (Suc n))) gr l s = Some (Return (), t3)"
      using True t1(1) t3 unfolding t2_def
      by (subst mapRemoveLayer.simps(2)) (simp add: bnd_def del: mapRemoveLayer.simps)
    then have "libOnly s t3" by (rule presD[OF mapRemoveLayer_pres])
    then show ?thesis using s' by blast
  qed
qed

lemma addToMap_returns:
  assumes "wellNested gr (mv_next s) s l"
  shows "\<exists>s'. addToMap gr l s = Some (Return (), s') \<and> libAdds s s'"
  using mapAddLayer_returns[OF assms] by (simp add: addToMap_def depth_Suc del: mapAddLayer.simps)

lemma removeFromMap_returns:
  assumes "wellNested gr (mv_next s) s l"
  shows "\<exists>s'. removeFromMap gr l s = Some (Return (), s') \<and> libOnly s s'"
  using mapRemoveLayer_returns[OF assms]
  by (simp add: removeFromMap_def depth_Suc del: mapRemoveLayer.simps)

subsection \<open>The operations on the parent return\<close>

lemma wellNested_subset:
  assumes sub: "\<And>g. set (layerMembers t g) \<subseteq> set (layerMembers s g)"
    and rd: "isPoint t = isPoint s" "vertexOf t = vertexOf s" "lineReady gr t = lineReady gr s"
  shows "wellNested gr n s l \<Longrightarrow> wellNested gr n t l"
proof (induction n arbitrary: l)
  case 0
  then have "set (layerMembers t l) \<subseteq> {}" using sub[of l] by simp
  then show ?case using 0 rd by simp
next
  case (Suc n)
  then show ?case using sub[of l] rd by auto
qed

lemma frame_reads_fun:
  assumes "frame y s t"
  shows "isPoint t = isPoint s" "vertexOf t = vertexOf s" "lineReady gr t = lineReady gr s"
  using frame_reads(3,4)[OF assms] frame_ready(2)[OF assms] by (simp_all add: fun_eq_iff)

lemma layerMembers_subset:
  assumes f: "frame y s t" and sub: "\<And>g. set (lf_members t g) \<subseteq> set (lf_members s g)"
  shows "set (layerMembers t g) \<subseteq> set (layerMembers s g)"
proof (cases "mv_objs s g")
  case None
  then have "mv_objs t g = None" using frame_shape(1)[OF f] by simp
  then show ?thesis by (simp add: layerMembers_def)
next
  case (Some m)
  then obtain m' where "mv_objs t g = Some m'" "me_kind m' = me_kind m"
    using frame_shape(2)[OF f] by blast
  then show ?thesis using Some sub[of g] by (auto simp: layerMembers_def)
qed

lemma wellNested_frame_subset:
  assumes "frame y s t" and "\<And>g. set (lf_members t g) \<subseteq> set (lf_members s g)"
    and "wellNested gr n s l"
  shows "wellNested gr n t l"
  using assms(3)
  by (rule wellNested_subset[OF layerMembers_subset[OF assms(1,2)] frame_reads_fun[OF assms(1)]])

lemma withChild_frame: "frame y s t \<Longrightarrow> frame y (withChild s par x) (withChild t par x)"
  by (cases par) (simp_all add: withChild_def frame_def parentOf_def)

lemma withChild_members:
  "lf_members (withChild s par x) g
     = (if par = Ref g then lf_members s g @ [x] else lf_members s g)"
  by (cases par) (auto simp: withChild_def)

lemma withChild_next [simp]: "mv_next (withChild s par x) = mv_next s"
  by (cases par) (simp_all add: withChild_def)

lemma group_removeLayer_members:
  assumes "group_removeLayer gr g lo s = Some (r, s')"
  shows "set (lf_members s' h) \<subseteq> set (lf_members s h)"
proof (cases lo)
  case None
  then have "s' = s" using assms by (simp add: group_removeLayer_def)
  then show ?thesis by simp
next
  case (Some l)
  show ?thesis
  proof (cases "l \<in> set (lf_members s g)")
    case False
    then have "s' = s" using assms Some by (simp add: group_removeLayer_def)
    then show ?thesis by simp
  next
    case True
    let ?m = "if g \<in> lf_onMap s then removeFromMap gr l else ret ()"
    let ?f = "\<lambda>_::unit. modify (\<lambda>s'. s'\<lparr> lf_members :=
                                 (lf_members s')(g := removeAll l (lf_members s' g)) \<rparr>)"
    have run: "bnd ?m ?f s = Some (r, s')"
      using assms Some True by (simp add: group_removeLayer_def)
    have pm: "pres libOnly ?m"
      using removeFromMap_pres[of gr l] by (simp add: pres_def libOnly_refl)
    from bnd_SomeE[OF run] show ?thesis
    proof
      assume "\<exists>e. ?m s = Some (Throw e, s') \<and> r = Throw e"
      then obtain e where e: "?m s = Some (Throw e, s')" by blast
      have "libOnly s s'" using e by (rule presD[OF pm])
      then show ?thesis using libOnly_fields(8) by simp
    next
      assume "\<exists>u s1. ?m s = Some (Return u, s1) \<and> ?f u s1 = Some (r, s')"
      then obtain u s1 where u: "?m s = Some (Return u, s1)" "?f u s1 = Some (r, s')" by blast
      have lo': "libOnly s s1" using u(1) by (rule presD[OF pm])
      have "s' = s1\<lparr> lf_members := (lf_members s1)(g := removeAll l (lf_members s1 g)) \<rparr>"
        using u(2) by simp
      then show ?thesis using libOnly_fields(8)[OF lo'] by auto
    qed
  qed
qed

lemma removeFromParent_members:
  assumes "removeFromParent gr x s = Some (r, s')"
  shows "set (lf_members s' h) \<subseteq> set (lf_members s h)"
proof -
  let ?A = "\<lambda>s. case parentOf s x of
                 Ref p \<Rightarrow> (case layerOf s p of
                              None \<Rightarrow> Some (Throw TypeError, s)
                            | Some pl \<Rightarrow> group_removeLayer gr pl (layerOf s x) s)
               | Null \<Rightarrow> Some (Return (), s)
               | Undefined \<Rightarrow> Some (Return (), s)"
  let ?B = "\<lambda>s. if kindOf s x = Some ControlGroup
                       then removeFromParentControlGroup x s
                       else Some (Return (), s)"
  let ?rest = "\<lambda>_::unit. bnd ?B (\<lambda>_. modify (setParent x Null))"
  have run: "bnd ?A ?rest s = Some (r, s')"
    using assms by (simp add: removeFromParent_def)
  have A: "set (lf_members s1 h) \<subseteq> set (lf_members s h)" if a: "?A s = Some (r1, s1)" for r1 s1
  proof (cases "parentOf s x")
    case Undefined
    then show ?thesis using a by auto
  next
    case Null
    then show ?thesis using a by auto
  next
    case (Ref p)
    show ?thesis
    proof (cases "layerOf s p")
      case None
      then show ?thesis using a Ref by auto
    next
      case (Some pl)
      then have "group_removeLayer gr pl (layerOf s x) s = Some (r1, s1)" using a Ref by simp
      then show ?thesis by (rule group_removeLayer_members)
    qed
  qed
  have B: "lf_members s2 = lf_members s1" if b: "?B s1 = Some (r2, s2)" for r2 s1 s2
  proof (cases "kindOf s1 x = Some ControlGroup")
    case True
    then have "removeFromParentControlGroup x s1 = Some (r2, s2)" using b by simp
    then show ?thesis using removeFromParentControlGroup_effect by blast
  next
    case False
    then show ?thesis using b by auto
  qed
  have R: "lf_members s3 = lf_members s1" if c: "?rest u s1 = Some (r3, s3)" for u r3 s1 s3
    using bnd_SomeE[OF c]
  proof
    assume "\<exists>e. ?B s1 = Some (Throw e, s3) \<and> r3 = Throw e"
    then show ?thesis using B by blast
  next
    assume "\<exists>v s2. ?B s1 = Some (Return v, s2) \<and> modify (setParent x Null) s2 = Some (r3, s3)"
    then obtain v s2 where v: "?B s1 = Some (Return v, s2)" "s3 = setParent x Null s2" by auto
    then show ?thesis using B[OF v(1)] by simp
  qed
  from bnd_SomeE[OF run] show ?thesis
  proof
    assume "\<exists>e. ?A s = Some (Throw e, s') \<and> r = Throw e"
    then show ?thesis using A by blast
  next
    assume "\<exists>u s1. ?A s = Some (Return u, s1) \<and> ?rest u s1 = Some (r, s')"
    then obtain u s1 where u: "?A s = Some (Return u, s1)" "?rest u s1 = Some (r, s')" by blast
    show ?thesis using A[OF u(1)] R[OF u(2)] by simp
  qed
qed

lemma group_removeLayer_returns:
  assumes "wellNested gr (mv_next s) s l"
  shows "\<exists>s'. group_removeLayer gr g (Some l) s = Some (Return (), s')"
proof -
  from removeFromMap_returns[OF assms] obtain s1 where
    "removeFromMap gr l s = Some (Return (), s1)" by blast
  then show ?thesis by (simp add: group_removeLayer_def bnd_def)
qed

lemma group_addLayer_returns:
  assumes "wellNested gr (mv_next s) (withChild s (Ref g) l) l"
  shows "\<exists>s'. group_addLayer gr g l s = Some (Return (), s')"
proof -
  define s1 where "s1 = s\<lparr> lf_members := (lf_members s)(g := lf_members s g @ [l]) \<rparr>"
  have "wellNested gr (mv_next s1) s1 l" using assms by (simp add: withChild_def s1_def)
  from addToMap_returns[OF this] obtain s2 where
    "addToMap gr l s1 = Some (Return (), s2)" by blast
  then show ?thesis by (simp add: group_addLayer_def Let_def s1_def)
qed

lemma removeFromParent_returns:
  assumes W: "wellNested gr (mv_next s) s x"
    and lay: "layerOf s x = Some x"
    and par: "parentLayer s (parentOf s x)"
    and kept: "childrenKept s x"
  shows "\<exists>s'. removeFromParent gr x s = Some (Return (), s')"
proof -
  let ?A = "\<lambda>s. case parentOf s x of
                 Ref p \<Rightarrow> (case layerOf s p of
                              None \<Rightarrow> Some (Throw TypeError, s)
                            | Some pl \<Rightarrow> group_removeLayer gr pl (layerOf s x) s)
               | Null \<Rightarrow> Some (Return (), s)
               | Undefined \<Rightarrow> Some (Return (), s)"
  let ?B = "\<lambda>s. if kindOf s x = Some ControlGroup
                       then removeFromParentControlGroup x s
                       else Some (Return (), s)"
  have "\<exists>s1. ?A s = Some (Return (), s1) \<and> mv_objs s1 = mv_objs s"
  proof (cases "parentOf s x")
    case Undefined
    then show ?thesis by simp
  next
    case Null
    then show ?thesis by simp
  next
    case (Ref p)
    then have lp: "layerOf s p = Some p" using par by (simp add: parentLayer_def)
    from group_removeLayer_returns[OF W, of p] obtain s1 where
      s1: "group_removeLayer gr p (Some x) s = Some (Return (), s1)" by blast
    have "mv_objs s1 = mv_objs s" using group_removeLayer_effect[OF s1, of x] by simp
    then show ?thesis using Ref lp lay s1 by simp
  qed
  then obtain s1 where a: "?A s = Some (Return (), s1)" and o: "mv_objs s1 = mv_objs s" by blast
  have "\<exists>s2. ?B s1 = Some (Return (), s2)"
  proof (cases "kindOf s1 x = Some ControlGroup")
    case False
    then show ?thesis by simp
  next
    case True
    then have k: "kindOf s x = Some ControlGroup" using o by (simp add: kindOf_def)
    have p1: "parentOf s1 x = parentOf s x" using o by (simp add: parentOf_def)
    show ?thesis
    proof (cases "parentOf s x")
      case Undefined
      then show ?thesis using True p1 by (simp add: removeFromParentControlGroup_def)
    next
      case Null
      then show ?thesis using True p1 by (simp add: removeFromParentControlGroup_def)
    next
      case (Ref p)
      then obtain m cs where "mv_objs s p = Some m" "me_children m = Some cs"
        using kept k by (auto simp: childrenKept_def split: option.splits)
      then show ?thesis
        using True p1 Ref o by (simp add: removeFromParentControlGroup_def Let_def)
    qed
  qed
  then obtain s2 where b: "?B s1 = Some (Return (), s2)" by blast
  show ?thesis
    using a b by (simp add: removeFromParent_def bnd_def)
qed

lemma setParent_reads:
  "layerMembers (setParent x par s) = layerMembers s"
  "isPoint (setParent x par s) = isPoint s"
  "vertexOf (setParent x par s) = vertexOf s"
  "lineReady gr (setParent x par s) = lineReady gr s"
proof -
  have f: "frame x s (setParent x par s)" by (rule setParent_frame)
  show "isPoint (setParent x par s) = isPoint s" "vertexOf (setParent x par s) = vertexOf s"
    "lineReady gr (setParent x par s) = lineReady gr s"
    by (rule frame_reads_fun[OF f])+
  show "layerMembers (setParent x par s) = layerMembers s"
    by (auto simp: fun_eq_iff layerMembers_def setParent_def split: option.splits)
qed

lemma addToDerivedParent_returns:
  assumes d: "deriveParent gr s x = Inr par"
    and lay: "layerOf s x = Some x"
    and pl: "parentLayer s par"
    and W: "wellNested gr (mv_next s) (withChild s par x) x"
  shows "\<exists>s'. addToDerivedParent gr x s = Some (Return (), s')"
proof -
  define s0 where "s0 = setParent x par s"
  have f: "frame x s s0" unfolding s0_def by (rule setParent_frame)
  have lay0: "layerOf s0 x = Some x" using lay frame_reads(1)[OF f] by simp
  have n0: "mv_next s0 = mv_next s" using f by (simp add: frame_def)
  have W0: "wellNested gr (mv_next s0) (withChild s0 par x) x"
    unfolding n0
  proof (rule wellNested_frame_subset[OF withChild_frame[OF f] _ W])
    show "set (lf_members (withChild s0 par x) g) \<subseteq> set (lf_members (withChild s par x) g)" for g
      by (simp add: withChild_members s0_def)
  qed
  let ?C = "\<lambda>s1. case layerOf s1 x of
                      None \<Rightarrow> Some (Throw TypeError, s1)
                    | Some l \<Rightarrow>
                        (case par of
                           Ref p \<Rightarrow> (case layerOf s1 p of
                                        None \<Rightarrow> Some (Throw TypeError, s1)
                                      | Some pl \<Rightarrow> group_addLayer gr pl l s1)
                         | Null \<Rightarrow> addToMap gr l s1
                         | Undefined \<Rightarrow> addToMap gr l s1)"
  have "\<exists>s1. ?C s0 = Some (Return (), s1)"
  proof (cases par)
    case Undefined
    then have "wellNested gr (mv_next s0) s0 x" using W0 by (simp add: withChild_def)
    from addToMap_returns[OF this] show ?thesis using lay0 Undefined by auto
  next
    case Null
    then have "wellNested gr (mv_next s0) s0 x" using W0 by (simp add: withChild_def)
    from addToMap_returns[OF this] show ?thesis using lay0 Null by auto
  next
    case (Ref q)
    then have "layerOf s0 q = Some q" using pl frame_reads(1)[OF f] by (simp add: parentLayer_def)
    moreover have "wellNested gr (mv_next s0) (withChild s0 (Ref q) x) x" using W0 Ref by simp
    ultimately show ?thesis using group_addLayer_returns[of gr s0 q x] lay0 Ref by simp
  qed
  then obtain s1 where c: "?C s0 = Some (Return (), s1)" by blast
  show ?thesis
    using d c unfolding s0_def by (simp add: addToDerivedParent_def bnd_def)
qed

lemma updateParent_returns:
  assumes v: "visualOf s elem = Some x" and d: "deriveParent gr s x = Inr par"
    and ne: "parentOf s x \<noteq> par"
    and W: "wellNested gr (mv_next s) (withChild s par x) x"
    and lay: "layerOf s x = Some x"
    and old: "parentLayer s (parentOf s x)" and new: "parentLayer s par"
    and kept: "childrenKept s x"
  shows "\<exists>s'. updateParent gr elem s = Some (Return x, s')"
proof -
  define s0 where "s0 = s\<lparr> mv_emitted := mv_emitted s @ [StartUpdate x] \<rparr>"
  have f0: "frame x s s0" "parentOf s0 = parentOf s" "lf_members s0 = lf_members s"
      "mv_objs s0 = mv_objs s"
    by (simp_all add: s0_def frame_def parentOf_def fun_eq_iff)
  have n0: "mv_next s0 = mv_next s" by (simp add: s0_def)
  have Ws: "wellNested gr (mv_next s) s x"
  proof (rule wellNested_frame_subset[OF _ _ W])
    show "frame x (withChild s par x) s"
      by (cases par) (simp_all add: withChild_def frame_def parentOf_def)
    show "set (lf_members s g) \<subseteq> set (lf_members (withChild s par x) g)" for g
      by (auto simp: withChild_members)
  qed
  have W0: "wellNested gr (mv_next s0) s0 x"
    unfolding n0 by (rule wellNested_frame_subset[OF f0(1) _ Ws]) (simp add: f0(3))
  have h0: "layerOf s0 x = Some x" "parentLayer s0 (parentOf s0 x)" "childrenKept s0 x"
    using lay old kept f0(2,4) frame_reads(1,2)[OF f0(1)]
    by (auto simp: parentLayer_def childrenKept_def split: parentRef.splits option.splits)
  from removeFromParent_returns[OF W0 h0] obtain s1 where
    1: "removeFromParent gr x s0 = Some (Return (), s1)" by blast
  have f1: "frame x s0 s1" using removeFromParent_effect[OF 1] by simp
  have f01: "frame x s s1" using f0(1) f1 by (rule frame_trans)
  have n1: "mv_next s1 = mv_next s" using f01 by (simp add: frame_def)
  have m1: "set (lf_members s1 g) \<subseteq> set (lf_members s g)" for g
    using removeFromParent_members[OF 1, of g] f0(3) by simp
  have W1: "wellNested gr (mv_next s1) (withChild s1 par x) x"
    unfolding n1
  proof (rule wellNested_frame_subset[OF withChild_frame[OF f01] _ W])
    show "set (lf_members (withChild s1 par x) g) \<subseteq> set (lf_members (withChild s par x) g)" for g
      using m1[of g] by (auto simp: withChild_members)
  qed
  have h1: "deriveParent gr s1 x = Inr par" "layerOf s1 x = Some x" "parentLayer s1 par"
    using d lay new frame_reads(1,5)[OF f01]
    by (auto simp: parentLayer_def split: parentRef.splits)
  from addToDerivedParent_returns[OF h1 W1] obtain s2 where
    2: "addToDerivedParent gr x s1 = Some (Return (), s2)" by blast
  show ?thesis
    unfolding updateParent_unfold[OF v d ne] using 1 2 unfolding s0_def
    by (simp add: bnd_def)
qed

lemma point_wellNested:
  assumes "isPoint s x" and "lineReady gr s (vertexOf s x)"
  shows "wellNested gr n (withChild s par x) x"
proof -
  have f: "frame x s (withChild s par x)"
    by (cases par) (simp_all add: withChild_def frame_def parentOf_def)
  have pt: "isPoint (withChild s par x) x" using assms(1) frame_reads(3)[OF f] by simp
  then have "layerMembers (withChild s par x) x = []"
    by (auto simp: isPoint_def layerMembers_def split: option.splits)
  moreover have "lineReady gr (withChild s par x) (vertexOf (withChild s par x) x)"
    using assms(2) frame_reads(4)[OF f] frame_ready(2)[OF f] by simp
  ultimately have "wellNested gr 0 (withChild s par x) x" by simp
  then show ?thesis by (rule wellNested_mono) simp
qed

lemma updateParent_point_returns:
  assumes "visualOf s elem = Some x" and "deriveParent gr s x = Inr par"
    and "parentOf s x \<noteq> par"
    and pt: "isPoint s x" and "lineReady gr s (vertexOf s x)"
    and "layerOf s x = Some x"
    and "parentLayer s (parentOf s x)" and "parentLayer s par"
  shows "\<exists>s'. updateParent gr elem s = Some (Return x, s')"
proof -
  have "kindOf s x = Some Point"
    using pt by (auto simp: isPoint_def kindOf_def split: option.splits)
  then have "childrenKept s x" by (simp add: childrenKept_def)
  then show ?thesis
    using updateParent_returns[OF assms(1-3) point_wellNested[OF assms(4,5)] assms(6-8)] by simp
qed

subsection \<open>Creating a visual object twice\<close>

text \<open>
  The operations of the map viewer that create a visual object return it, also on the
  call that creates it: a second call finds the reference on the model object, returns the
  same visual object and changes nothing.
\<close>

lemma createPoint_known:
  "v_point s v = Some p \<Longrightarrow> createPoint gr v c s = Some (Return p, s)"
  by (simp add: createPoint_def)

lemma createLine_known:
  "e_line s e = Some l \<Longrightarrow> createLine gr e c s = Some (Return (Some l), s)"
  by (simp add: createLine_def)

lemma createLayerGroup_known:
  "g_layerGroup s g = Some lg \<Longrightarrow> createLayerGroup gr g s = Some (Return lg, s)"
  by (simp add: createLayerGroup_def)

lemma createControlGroup_known:
  "g_controlGroup s g = Some cg \<Longrightarrow> createControlGroup gr g s = Some (Return cg, s)"
  by (simp add: createControlGroup_def)

lemma createLayerGroup_twice:
  assumes "createLayerGroup gr g s = Some (Return lg, s1)"
  shows "createLayerGroup gr' g s1 = Some (Return lg, s1)"
proof (cases "g_layerGroup s g")
  case (Some a)
  then have "lg = a" "s1 = s" using assms by (simp_all add: createLayerGroup_def)
  then show ?thesis using Some by (simp add: createLayerGroup_known)
next
  case None
  then have "g_layerGroup s1 g = Some lg"
    using assms by (auto simp: createLayerGroup_def alloc_def emitMap_def)
  then show ?thesis by (rule createLayerGroup_known)
qed

lemma createLine_twice:
  assumes "createLine gr e c s = Some (Return r, s1)"
  shows "createLine gr e c' s1 = Some (Return r, s1)"
proof (cases "e_line s e")
  case (Some l)
  then have "r = Some l" "s1 = s" using assms by (simp_all add: createLine_def)
  then show ?thesis using Some by (simp add: createLine_known)
next
  case None
  show ?thesis
  proof (cases "m_edgeType gr e = edge_TEMPORAL")
    case True
    then have "r = None" "s1 = s" using assms None by (simp_all add: createLine_def)
    then show ?thesis using True None by (simp add: createLine_def)
  next
    case False
    from createLine_creates[OF False None, of c] obtain s2 m where
      c: "createLine gr e c s = Some (Return (Some (mv_next s)), s2)"
        "e_line s2 = (case m_opposite gr e of
                        None \<Rightarrow> (e_line s)(e \<mapsto> mv_next s)
                      | Some opp \<Rightarrow> (e_line s)(e \<mapsto> mv_next s, opp \<mapsto> mv_next s))"
      by blast
    have r: "r = Some (mv_next s)" "s1 = s2" using c(1) assms by simp_all
    have "e_line s2 e = Some (mv_next s)"
      using c(2) by (cases "m_opposite gr e") simp_all
    then show ?thesis unfolding r by (rule createLine_known)
  qed
qed

lemma createPoint_twice:
  assumes "createPoint gr v c s = Some (Return p, s1)"
  shows "createPoint gr' v c' s1 = Some (Return p, s1)"
proof (cases "v_point s v")
  case (Some a)
  then have "p = a" "s1 = s" using assms by (simp_all add: createPoint_def)
  then show ?thesis using Some by (simp add: createPoint_known)
next
  case None
  define x where "x = mv_next s"
  define s0 where "s0 = s\<lparr> mv_objs := (mv_objs s)(x \<mapsto> newElem Point v (orElse c (m_vertexType gr v))),
                          mv_next := Suc x, v_point := (v_point s)(v \<mapsto> x) \<rparr>"
  have run: "bnd (addToDerivedParent gr x)
                (\<lambda>_. bnd (modify (\<lambda>s2. emitMap Create x (s2\<lparr> mv_layers := insert x (mv_layers s2) \<rparr>)))
                       (\<lambda>_. ret x)) s0 = Some (Return p, s1)"
    using assms None by (simp add: createPoint_def alloc_def x_def s0_def)
  from run obtain u s2 where
    a: "addToDerivedParent gr x s0 = Some (Return u, s2)" and
    b: "bnd (modify (\<lambda>s2. emitMap Create x (s2\<lparr> mv_layers := insert x (mv_layers s2) \<rparr>)))
                       (\<lambda>_. ret x) s2 = Some (Return p, s1)"
    by (rule bnd_ReturnE)
  have d: "deriveParent gr s0 x
         = Inr (toRef (g_layerGroup s0 (m_spatialGroup gr v)))"
    by (simp add: deriveParent_def s0_def newElem_def)
  have "frame x s0 s2" using addToDerivedParent_effect[OF _ d, of s2] a by simp
  then have "v_point s2 v = Some x" by (simp add: frame_def s0_def)
  moreover have "p = x" "s1 = emitMap Create x (s2\<lparr> mv_layers := insert x (mv_layers s2) \<rparr>)"
    using b by auto
  ultimately have "v_point s1 v = Some p" by (simp add: emitMap_def)
  then show ?thesis by (rule createPoint_known)
qed

lemma createControlGroup_twice:
  assumes "createControlGroup gr g s = Some (Return cg, s1)"
  shows "createControlGroup gr' g s1 = Some (Return cg, s1)"
proof (cases "g_controlGroup s g")
  case (Some a)
  then have "cg = a" "s1 = s" using assms by (simp_all add: createControlGroup_def)
  then show ?thesis using Some by (simp add: createControlGroup_known)
next
  case None
  define x where "x = mv_next s"
  define s0 where "s0 = s\<lparr> mv_objs := (mv_objs s)(x \<mapsto> newElem ControlGroup g []),
                          mv_next := Suc x, g_controlGroup := (g_controlGroup s)(g \<mapsto> x) \<rparr>"
  have run: "bnd (addToDerivedParent gr x)
                (\<lambda>_. bnd (modify (\<lambda>s2. emitMap Create x
                               ((updateLayerTree s2)\<lparr> mv_layers := insert x (mv_layers s2) \<rparr>)))
                       (\<lambda>_. ret x)) s0 = Some (Return cg, s1)"
    using assms None by (simp add: createControlGroup_def alloc_def x_def s0_def)
  from run obtain u s2 where
    a: "addToDerivedParent gr x s0 = Some (Return u, s2)" and
    b: "bnd (modify (\<lambda>s2. emitMap Create x
                               ((updateLayerTree s2)\<lparr> mv_layers := insert x (mv_layers s2) \<rparr>)))
                       (\<lambda>_. ret x) s2 = Some (Return cg, s1)"
    by (rule bnd_ReturnE)
  obtain par where d: "deriveParent gr s0 x = Inr par"
    by (cases "m_superGroup gr g") (simp_all add: deriveParent_def s0_def newElem_def)
  have "frame x s0 s2" using addToDerivedParent_effect[OF _ d, of s2] a by simp
  then have "g_controlGroup s2 g = Some x" by (simp add: frame_def s0_def)
  moreover have "cg = x"
      "s1 = emitMap Create x ((updateLayerTree s2)\<lparr> mv_layers := insert x (mv_layers s2) \<rparr>)"
    using b by auto
  ultimately have "g_controlGroup s1 g = Some cg" by (simp add: emitMap_def updateLayerTree_def)
  then show ?thesis by (rule createControlGroup_known)
qed



end
